(* ===== verification/Rust_Std.thy ===== *)
theory Rust_Std
  imports Main "HOL-Library.Sublist"
begin

text \<open>
  The part of the Rust standard library the modelled components use, and the lemmas they share.

  A Rust \<open>&str\<close> or \<open>String\<close> is the list of its UTF-8 bytes, so a HOL character is one byte:
  \<open>len\<close> counts bytes, byte offsets index the list, and the characters of a string are found by
  its continuation bytes.  A byte vector is the same type.  \<open>Result<A, E>\<close> is the sum
  \<open>'e + 'a\<close> with \<open>Inl\<close> for \<open>Err\<close>.  A \<open>HashMap\<close> is an association list with distinct keys, whose
  order stands for the unspecified iteration order.
\<close>

type_synonym byte = char
type_synonym bytes = "char list"

named_theorems rstr "facts about the string primitives"
named_theorems rnum "facts about number parsing and printing"
named_theorems rmap "facts about hash maps"

section \<open>Results\<close>

definition rbind :: "'e + 'a \<Rightarrow> ('a \<Rightarrow> 'e + 'b) \<Rightarrow> 'e + 'b" where
  "rbind r f = (case r of Inl e \<Rightarrow> Inl e | Inr x \<Rightarrow> f x)"

definition ok_or :: "'e \<Rightarrow> 'a option \<Rightarrow> 'e + 'a" where
  "ok_or e x = (case x of None \<Rightarrow> Inl e | Some y \<Rightarrow> Inr y)"

definition map_err :: "('e \<Rightarrow> 'f) \<Rightarrow> 'e + 'a \<Rightarrow> 'f + 'a" where
  "map_err h r = (case r of Inl e \<Rightarrow> Inl (h e) | Inr x \<Rightarrow> Inr x)"

lemma rbind_simps [simp]:
  "rbind (Inl e) f = Inl e" "rbind (Inr x) f = f x"
  by (simp_all add: rbind_def)

lemma ok_or_simps [simp]:
  "ok_or e None = Inl e" "ok_or e (Some x) = Inr x"
  by (simp_all add: ok_or_def)

lemma map_err_simps [simp]:
  "map_err h (Inl e) = Inl (h e)" "map_err h (Inr x) = Inr x"
  by (simp_all add: map_err_def)

lemma rbind_Inr: "rbind r f = Inr y \<longleftrightarrow> (\<exists>x. r = Inr x \<and> f x = Inr y)"
  by (cases r) simp_all

lemma ok_or_Inr: "ok_or e x = Inr y \<longleftrightarrow> x = Some y"
  by (cases x) simp_all

lemma map_err_Inr: "map_err h r = Inr y \<longleftrightarrow> r = Inr y"
  by (cases r) simp_all

lemmas result_Inr = rbind_Inr ok_or_Inr map_err_Inr

section \<open>Bytes and characters\<close>

abbreviation bval :: "byte \<Rightarrow> nat" where
  "bval c \<equiv> of_char c"

definition byte_of :: "nat \<Rightarrow> byte" where
  "byte_of n = char_of n"

text \<open>A UTF-8 continuation byte is \<open>10xxxxxx\<close>; every other byte starts a character.\<close>

definition is_cont :: "byte \<Rightarrow> bool" where
  "is_cont c \<longleftrightarrow> bval c div 64 = 2"

text \<open>\<open>str::is_char_boundary\<close>: offset 0, the length, and every offset of a leading byte.\<close>

definition is_char_boundary :: "bytes \<Rightarrow> nat \<Rightarrow> bool" where
  "is_char_boundary s i \<longleftrightarrow>
     i = 0 \<or> i = length s \<or> (i < length s \<and> \<not> is_cont (s ! i))"

text \<open>\<open>str::chars\<close>: each leading byte with the continuation bytes that follow it.\<close>

function chars_of :: "bytes \<Rightarrow> bytes list" where
  "chars_of [] = []"
| "chars_of (c # cs) = (c # takeWhile is_cont cs) # chars_of (dropWhile is_cont cs)"
  by pat_completeness auto
termination
  by (relation "measure length") (auto simp: length_dropWhile_le le_imp_less_Suc)

lemma chars_of_concat [simp]: "concat (chars_of s) = s"
  by (induction s rule: chars_of.induct) simp_all

lemma chars_of_nonempty: "c \<in> set (chars_of s) \<Longrightarrow> c \<noteq> []"
  by (induction s rule: chars_of.induct) auto

lemma chars_of_eq_Nil [simp]: "chars_of s = [] \<longleftrightarrow> s = []"
  by (cases s) simp_all

definition ascii_lower :: "byte \<Rightarrow> byte" where
  "ascii_lower c = (if 65 \<le> bval c \<and> bval c \<le> 90 then byte_of (bval c + 32) else c)"

definition to_ascii_lowercase :: "bytes \<Rightarrow> bytes" where
  "to_ascii_lowercase s = map ascii_lower s"

definition eq_ignore_ascii_case :: "bytes \<Rightarrow> bytes \<Rightarrow> bool" where
  "eq_ignore_ascii_case a b \<longleftrightarrow> to_ascii_lowercase a = to_ascii_lowercase b"

definition is_ascii_digit :: "byte \<Rightarrow> bool" where
  "is_ascii_digit c \<longleftrightarrow> 48 \<le> bval c \<and> bval c \<le> 57"

definition is_ascii_alphabetic :: "byte \<Rightarrow> bool" where
  "is_ascii_alphabetic c \<longleftrightarrow>
     (65 \<le> bval c \<and> bval c \<le> 90) \<or> (97 \<le> bval c \<and> bval c \<le> 122)"

section \<open>Searching and splitting\<close>

fun find_byte :: "byte \<Rightarrow> bytes \<Rightarrow> nat option" where
  "find_byte c [] = None"
| "find_byte c (x # xs) = (if x = c then Some 0 else map_option Suc (find_byte c xs))"

fun split_once :: "byte \<Rightarrow> bytes \<Rightarrow> (bytes \<times> bytes) option" where
  "split_once c [] = None"
| "split_once c (x # xs) =
     (if x = c then Some ([], xs)
      else map_option (\<lambda>(a, b). (x # a, b)) (split_once c xs))"

fun strip_prefix :: "bytes \<Rightarrow> bytes \<Rightarrow> bytes option" where
  "strip_prefix [] s = Some s"
| "strip_prefix (p # ps) [] = None"
| "strip_prefix (p # ps) (x # xs) = (if p = x then strip_prefix ps xs else None)"

definition strip_suffix :: "bytes \<Rightarrow> bytes \<Rightarrow> bytes option" where
  "strip_suffix p s = map_option rev (strip_prefix (rev p) (rev s))"

fun split_on :: "byte \<Rightarrow> bytes \<Rightarrow> bytes list" where
  "split_on c [] = [[]]"
| "split_on c (x # xs) =
     (if x = c then [] # split_on c xs
      else (case split_on c xs of [] \<Rightarrow> [[x]] | f # fs \<Rightarrow> (x # f) # fs))"

fun join_with :: "bytes \<Rightarrow> bytes list \<Rightarrow> bytes" where
  "join_with sep [] = []"
| "join_with sep [x] = x"
| "join_with sep (x # y # ys) = x @ sep @ join_with sep (y # ys)"

lemma split_once_append [rstr]:
  "c \<notin> set a \<Longrightarrow> split_once c (a @ c # b) = Some (a, b)"
  by (induction a) auto

lemma split_once_None [rstr]: "split_once c s = None \<longleftrightarrow> c \<notin> set s"
  by (induction s) auto

lemma split_once_SomeD: "split_once c s = Some (a, b) \<Longrightarrow> s = a @ c # b \<and> c \<notin> set a"
  by (induction s arbitrary: a) (auto split: if_splits)

lemma strip_prefix_append [simp]: "strip_prefix p (p @ s) = Some s"
  by (induction p) simp_all

lemma strip_prefix_Some [rstr]: "strip_prefix p s = Some r \<longleftrightarrow> s = p @ r"
  by (induction p s rule: strip_prefix.induct) auto

lemma split_on_nonempty [simp]: "split_on c s \<noteq> []"
  by (induction s) (auto split: list.splits)

lemma join_split_on [simp]: "join_with [c] (split_on c s) = s"
proof (induction s)
  case (Cons x xs)
  show ?case
  proof (cases "split_on c xs")
    case Nil
    then show ?thesis by simp
  next
    case (Cons f fs)
    with Cons.IH show ?thesis by (cases fs) auto
  qed
qed simp

lemma split_on_no_sep: "f \<in> set (split_on c s) \<Longrightarrow> c \<notin> set f"
  by (induction s arbitrary: f) (auto split: list.splits if_splits)

lemma find_byte_None [rstr]: "find_byte c s = None \<longleftrightarrow> c \<notin> set s"
  by (induction s) auto

lemma find_byte_SomeD:
  "find_byte c s = Some i \<Longrightarrow> i < length s \<and> s ! i = c \<and> c \<notin> set (take i s)"
  by (induction s arbitrary: i) (auto split: if_splits)

section \<open>White space\<close>

text \<open>
  The length in bytes of the white-space character a string starts with (Unicode property
  \<open>White_Space\<close>, which \<open>char::is_whitespace\<close> tests), 0 when it starts with another character.
\<close>

fun ws_len :: "bytes \<Rightarrow> nat" where
  "ws_len [] = 0"
| "ws_len (a # s) =
     (let x = bval a in
      if (9 \<le> x \<and> x \<le> 13) \<or> x = 32 then 1
      else (case s of [] \<Rightarrow> 0
            | b # t \<Rightarrow>
               (let y = bval b in
                if x = 194 \<and> (y = 133 \<or> y = 160) then 2
                else (case t of [] \<Rightarrow> 0
                      | c # u \<Rightarrow>
                         (let z = bval c in
                          if (x = 225 \<and> y = 154 \<and> z = 128)
                             \<or> (x = 226 \<and> y = 128 \<and> (128 \<le> z \<and> z \<le> 138 \<or> z = 168 \<or> z = 169 \<or> z = 175))
                             \<or> (x = 226 \<and> y = 129 \<and> z = 159)
                             \<or> (x = 227 \<and> y = 128 \<and> z = 128)
                          then 3 else 0)))))"

declare ws_len.simps(2) [simp del]

function split_ws_aux :: "bytes \<Rightarrow> bytes \<Rightarrow> bytes list" where
  "split_ws_aux cur [] = (if cur = [] then [] else [cur])"
| "split_ws_aux cur (x # xs) =
     (if ws_len (x # xs) = 0 then split_ws_aux (cur @ [x]) xs
      else (if cur = [] then [] else [cur])
           @ split_ws_aux [] (drop (ws_len (x # xs) - 1) xs))"
  by pat_completeness auto
termination
  by (relation "measure (\<lambda>(cur, s). length s)") auto

definition split_whitespace :: "bytes \<Rightarrow> bytes list" where
  "split_whitespace s = split_ws_aux [] s"

function trim_start :: "bytes \<Rightarrow> bytes" where
  "trim_start [] = []"
| "trim_start (x # xs) =
     (if ws_len (x # xs) = 0 then x # xs
      else trim_start (drop (ws_len (x # xs) - 1) xs))"
  by pat_completeness auto
termination
  by (relation "measure length") auto

text \<open>A string none of whose suffixes starts with white space.\<close>

fun no_ws :: "bytes \<Rightarrow> bool" where
  "no_ws [] = True"
| "no_ws (x # xs) \<longleftrightarrow> ws_len (x # xs) = 0 \<and> no_ws xs"

lemma ws_len_space [simp]: "ws_len (CHR '' '' # s) = 1"
  by (simp add: ws_len.simps)

lemma ws_len_before_space:
  "ws_len (x # xs @ CHR '' '' # s) = ws_len (x # xs)"
  by (cases xs; cases "tl xs") (auto simp: ws_len.simps Let_def split: list.splits)

lemma split_ws_aux_field:
  "no_ws f \<Longrightarrow> split_ws_aux cur (f @ CHR '' '' # s)
     = (if cur @ f = [] then [] else [cur @ f]) @ split_ws_aux [] s"
proof (induction f arbitrary: cur)
  case (Cons x xs)
  then have "ws_len (x # xs @ CHR '' '' # s) = 0" by (simp add: ws_len_before_space)
  with Cons show ?case by simp
qed simp

lemma split_ws_aux_last: "no_ws f \<Longrightarrow> split_ws_aux cur f = (if cur @ f = [] then [] else [cur @ f])"
  by (induction f arbitrary: cur) auto

lemma split_whitespace_field [rstr]:
  "no_ws f \<Longrightarrow> f \<noteq> [] \<Longrightarrow> split_whitespace (f @ CHR '' '' # s) = f # split_whitespace s"
  by (simp add: split_whitespace_def split_ws_aux_field)

lemma split_whitespace_last [rstr]:
  "no_ws f \<Longrightarrow> f \<noteq> [] \<Longrightarrow> split_whitespace f = [f]"
  by (simp add: split_whitespace_def split_ws_aux_last)

lemma no_ws_append_graphic:
  "no_ws f \<Longrightarrow> \<forall>c\<in>set g. 33 \<le> bval c \<and> bval c \<le> 126 \<Longrightarrow> no_ws (g @ f)"
  by (induction g) (auto simp: ws_len.simps Let_def split: list.splits)

lemma no_ws_graphic: "\<forall>c\<in>set g. 33 \<le> bval c \<and> bval c \<le> 126 \<Longrightarrow> no_ws g"
  using no_ws_append_graphic [of "[]" g] by simp

section \<open>Trimming and UTF-8 validation\<close>

text \<open>\<open>str::trim\<close>.\<close>

definition trim :: "bytes \<Rightarrow> bytes" where
  "trim s = (let ws = (\<lambda>c. ws_len c > 0) in
     concat (rev (dropWhile ws (rev (dropWhile ws (chars_of s))))))"

definition starts_with :: "bytes \<Rightarrow> bytes \<Rightarrow> bool" where
  "starts_with p s \<longleftrightarrow> strip_prefix p s \<noteq> None"

text \<open>
  The length of the UTF-8 sequence a byte string starts with (RFC 3629: no overlong forms, no
  surrogates, at most U+10FFFF), 0 when it starts with none; \<open>str::from_utf8\<close> accepts a string
  made of such sequences.
\<close>

definition byte_in :: "bytes \<Rightarrow> nat \<Rightarrow> nat \<Rightarrow> nat \<Rightarrow> bool" where
  "byte_in s i lo hi \<longleftrightarrow> i < length s \<and> lo \<le> bval (s ! i) \<and> bval (s ! i) \<le> hi"

definition utf8_two :: "bytes \<Rightarrow> bool" where
  "utf8_two s \<longleftrightarrow> byte_in s 0 194 223 \<and> byte_in s 1 128 191"

definition utf8_three :: "bytes \<Rightarrow> bool" where
  "utf8_three s \<longleftrightarrow>
     (byte_in s 0 224 224 \<and> byte_in s 1 160 191
      \<or> (byte_in s 0 225 236 \<or> byte_in s 0 238 239) \<and> byte_in s 1 128 191
      \<or> byte_in s 0 237 237 \<and> byte_in s 1 128 159) \<and> byte_in s 2 128 191"

definition utf8_four :: "bytes \<Rightarrow> bool" where
  "utf8_four s \<longleftrightarrow>
     (byte_in s 0 240 240 \<and> byte_in s 1 144 191
      \<or> byte_in s 0 241 243 \<and> byte_in s 1 128 191
      \<or> byte_in s 0 244 244 \<and> byte_in s 1 128 143)
     \<and> byte_in s 2 128 191 \<and> byte_in s 3 128 191"

definition utf8_len :: "bytes \<Rightarrow> nat" where
  "utf8_len s =
     (if byte_in s 0 0 127 then 1
      else if utf8_two s then 2
      else if utf8_three s then 3
      else if utf8_four s then 4
      else 0)"

function utf8_valid :: "bytes \<Rightarrow> bool" where
  "utf8_valid [] = True"
| "utf8_valid (x # xs) =
     (utf8_len (x # xs) > 0 \<and> utf8_valid (drop (utf8_len (x # xs) - 1) xs))"
  by pat_completeness auto
termination
  by (relation "measure length") auto

lemma utf8_valid_ascii: "\<forall>c\<in>set s. bval c < 128 \<Longrightarrow> utf8_valid s"
  by (induction s) (simp_all add: utf8_len_def byte_in_def)

text \<open>Cutting a valid string at a character boundary gives two valid strings.\<close>

lemma byte_in_cont:
  "byte_in s i lo hi \<Longrightarrow> 128 \<le> lo \<Longrightarrow> hi \<le> 191 \<Longrightarrow> i < length s \<and> is_cont (s ! i)"
  by (auto simp: byte_in_def is_cont_def intro!: div_nat_eqI)

lemma utf8_two_cont: "utf8_two s \<Longrightarrow> 2 \<le> length s \<and> is_cont (s ! 1)"
  unfolding utf8_two_def using byte_in_cont [of s 1] by fastforce

lemma utf8_three_cont: "utf8_three s \<Longrightarrow> 3 \<le> length s \<and> is_cont (s ! 1) \<and> is_cont (s ! 2)"
  unfolding utf8_three_def using byte_in_cont [of s 1] byte_in_cont [of s 2] by fastforce

lemma utf8_four_cont:
  "utf8_four s \<Longrightarrow> 4 \<le> length s \<and> is_cont (s ! 1) \<and> is_cont (s ! 2) \<and> is_cont (s ! 3)"
  unfolding utf8_four_def using byte_in_cont [of s 1] byte_in_cont [of s 2] byte_in_cont [of s 3]
  by fastforce

lemma byte_in_take: "i < e \<Longrightarrow> byte_in (take e s) i lo hi = byte_in s i lo hi"
  by (simp add: byte_in_def)

lemma utf8_len_cases:
  obtains "utf8_len s = 0" | "utf8_len s = 1" "byte_in s 0 0 127"
    | "utf8_len s = 2" "\<not> byte_in s 0 0 127" "utf8_two s"
    | "utf8_len s = 3" "\<not> byte_in s 0 0 127" "\<not> utf8_two s" "utf8_three s"
    | "utf8_len s = 4" "\<not> byte_in s 0 0 127" "\<not> utf8_two s" "\<not> utf8_three s" "utf8_four s"
  by (cases "byte_in s 0 0 127"; cases "utf8_two s"; cases "utf8_three s"; cases "utf8_four s")
    (simp_all add: utf8_len_def)

lemma utf8_len_le: "utf8_len s \<le> length s"
  using utf8_two_cont [of s] utf8_three_cont [of s] utf8_four_cont [of s]
  by (cases s rule: utf8_len_cases) (auto simp: byte_in_def Suc_le_eq)

lemma utf8_take:
  "2 \<le> e \<Longrightarrow> utf8_two (take e s) = utf8_two s"
  "3 \<le> e \<Longrightarrow> utf8_three (take e s) = utf8_three s"
  "4 \<le> e \<Longrightarrow> utf8_four (take e s) = utf8_four s"
  by (simp_all add: utf8_two_def utf8_three_def utf8_four_def byte_in_take)

lemma utf8_len_take: "0 < utf8_len s \<Longrightarrow> utf8_len s \<le> e \<Longrightarrow> utf8_len (take e s) = utf8_len s"
  by (cases s rule: utf8_len_cases)
    (simp_all add: utf8_len_def [of "take e s"] byte_in_take utf8_take)

lemma utf8_len_cont: "0 < i \<Longrightarrow> i < utf8_len s \<Longrightarrow> is_cont (s ! i)"
  using utf8_two_cont [of s] utf8_three_cont [of s] utf8_four_cont [of s]
  by (cases s rule: utf8_len_cases) (auto simp: less_Suc_eq numeral_2_eq_2 numeral_3_eq_3 eval_nat_numeral)

lemma utf8_valid_unfold:
  "s \<noteq> [] \<Longrightarrow> utf8_valid s \<longleftrightarrow> 0 < utf8_len s \<and> utf8_valid (drop (utf8_len s) s)"
  by (cases s) (auto simp: drop_Cons' simp del: One_nat_def)

lemma utf8_valid_cut:
  "utf8_valid s \<Longrightarrow> is_char_boundary s e \<Longrightarrow> utf8_valid (take e s) \<and> utf8_valid (drop e s)"
proof (induction "length s" arbitrary: s e rule: less_induct)
  case less
  show ?case
  proof (cases "s = [] \<or> e = 0")
    case True
    with less.prems show ?thesis by auto
  next
    case False
    then have ne: "s \<noteq> []" "e \<noteq> 0" by auto
    let ?n = "utf8_len s"
    from less.prems(1) ne have n: "0 < ?n" "utf8_valid (drop ?n s)" by (simp_all add: utf8_valid_unfold)
    have le: "?n \<le> e"
    proof (rule ccontr)
      assume "\<not> ?thesis"
      with ne(2) utf8_len_cont [of e s] have "is_cont (s ! e)" "e < length s" using utf8_len_le [of s] by auto
      with less.prems(2) ne(2) show False by (auto simp: is_char_boundary_def)
    qed
    have "is_char_boundary (drop ?n s) (e - ?n)"
      using less.prems(2) le utf8_len_le [of s] ne(2) by (auto simp: is_char_boundary_def)
    with less.hyps [of "drop ?n s" "e - ?n"] n ne
    have "utf8_valid (take (e - ?n) (drop ?n s))" "utf8_valid (drop (e - ?n) (drop ?n s))"
      by (auto simp: neq_Nil_conv)
    with ne n le show ?thesis
      by (simp add: utf8_valid_unfold [of "take e s"] utf8_len_take drop_take)
  qed
qed

end
