(* ===== verification/Rust_Num.thy ===== *)
theory Rust_Num
  imports Rust_Std
begin

text \<open>
  Rust integers: \<open>str::parse\<close> for the unsigned types and \<open>i64\<close> (\<open>core::num::from_str_radix\<close>
  at radix 10, with its error kinds), their \<open>Display\<close> forms, two's-complement wrap-around of
  \<open>i64\<close> arithmetic, and big-endian byte forms.
\<close>

section \<open>Parsing\<close>

datatype int_error = EmptyStr | InvalidDigit | PosOverflow | NegOverflow

text \<open>The \<open>Display\<close> texts of \<open>ParseIntError\<close>.\<close>

fun int_error_text :: "int_error \<Rightarrow> bytes" where
  "int_error_text EmptyStr = ''cannot parse integer from empty string''"
| "int_error_text InvalidDigit = ''invalid digit found in string''"
| "int_error_text PosOverflow = ''number too large to fit in target type''"
| "int_error_text NegOverflow = ''number too small to fit in target type''"

definition digit_val :: "byte \<Rightarrow> nat option" where
  "digit_val c = (if is_ascii_digit c then Some (bval c - 48) else None)"

text \<open>The checked loop: an invalid digit is reported before an overflow at the same place.\<close>

fun digit_loop :: "int_error \<Rightarrow> nat \<Rightarrow> nat \<Rightarrow> bytes \<Rightarrow> int_error + nat" where
  "digit_loop ovf lim acc [] = Inr acc"
| "digit_loop ovf lim acc (c # cs) =
     (case digit_val c of
        None \<Rightarrow> Inl InvalidDigit
      | Some d \<Rightarrow> if acc * 10 > lim then Inl ovf
                  else if acc * 10 + d > lim then Inl ovf
                  else digit_loop ovf lim (acc * 10 + d) cs)"

definition parse_unsigned :: "nat \<Rightarrow> bytes \<Rightarrow> int_error + nat" where
  "parse_unsigned lim s =
     (case s of
        [] \<Rightarrow> Inl EmptyStr
      | c # cs \<Rightarrow>
          if cs = [] \<and> (c = CHR ''+'' \<or> c = CHR ''-'') then Inl InvalidDigit
          else if c = CHR ''+'' then digit_loop PosOverflow lim 0 cs
          else digit_loop PosOverflow lim 0 (c # cs))"

definition parse_u8 :: "bytes \<Rightarrow> int_error + nat" where
  "parse_u8 = parse_unsigned 255"

definition parse_u16 :: "bytes \<Rightarrow> int_error + nat" where
  "parse_u16 = parse_unsigned 65535"

definition parse_u64 :: "bytes \<Rightarrow> int_error + nat" where
  "parse_u64 = parse_unsigned (2 ^ 64 - 1)"

text \<open>\<open>usize\<close> on the 64-bit targets the client is released for.\<close>

definition parse_usize :: "bytes \<Rightarrow> int_error + nat" where
  "parse_usize = parse_unsigned (2 ^ 64 - 1)"

definition parse_i64 :: "bytes \<Rightarrow> int_error + int" where
  "parse_i64 s =
     (case s of
        [] \<Rightarrow> Inl EmptyStr
      | c # cs \<Rightarrow>
          if cs = [] \<and> (c = CHR ''+'' \<or> c = CHR ''-'') then Inl InvalidDigit
          else if c = CHR ''-'' then
            rbind (digit_loop NegOverflow (2 ^ 63) 0 cs) (\<lambda>n. Inr (- int n))
          else if c = CHR ''+'' then
            rbind (digit_loop PosOverflow (2 ^ 63 - 1) 0 cs) (\<lambda>n. Inr (int n))
          else rbind (digit_loop PosOverflow (2 ^ 63 - 1) 0 (c # cs)) (\<lambda>n. Inr (int n)))"

section \<open>Printing\<close>

definition digit_char :: "nat \<Rightarrow> byte" where
  "digit_char d = byte_of (d + 48)"

fun show_nat :: "nat \<Rightarrow> bytes" where
  "show_nat n = (if n < 10 then [digit_char n] else show_nat (n div 10) @ [digit_char (n mod 10)])"

declare show_nat.simps [simp del]

definition show_int :: "int \<Rightarrow> bytes" where
  "show_int i = (if i < 0 then CHR ''-'' # show_nat (nat (- i)) else show_nat (nat i))"

lemma bval_digit_char: "d < 10 \<Longrightarrow> bval (digit_char d) = d + 48"
  by (simp add: digit_char_def byte_of_def)

lemma digit_val_char [rnum]: "d < 10 \<Longrightarrow> digit_val (digit_char d) = Some d"
  by (simp add: digit_val_def is_ascii_digit_def bval_digit_char)

lemma show_nat_digits: "c \<in> set (show_nat n) \<Longrightarrow> 48 \<le> bval c \<and> bval c \<le> 57"
proof (induction n rule: show_nat.induct)
  case (1 n)
  then show ?case
    by (cases "n < 10") (auto simp: show_nat.simps [of n] bval_digit_char)
qed

lemma show_nat_nonempty [simp]: "show_nat n \<noteq> []"
  by (simp add: show_nat.simps [of n])

lemma digit_loop_append:
  "digit_loop e lim acc (xs @ ys) = rbind (digit_loop e lim acc xs) (\<lambda>a. digit_loop e lim a ys)"
  by (induction xs arbitrary: acc) (auto split: option.splits)

lemma digit_loop_show [rnum]: "n \<le> lim \<Longrightarrow> digit_loop e lim 0 (show_nat n) = Inr n"
proof (induction n rule: show_nat.induct)
  case (1 n)
  show ?case
  proof (cases "n < 10")
    case True
    with "1.prems" show ?thesis by (simp add: show_nat.simps [of n] digit_val_char)
  next
    case False
    have "n div 10 * 10 + n mod 10 = n" by simp
    moreover have "n div 10 * 10 \<le> n" by simp
    ultimately show ?thesis
      using False "1.prems" "1.IH"
      by (simp add: show_nat.simps [of n] digit_loop_append digit_val_char)
  qed
qed

lemma digit_loop_bound: "digit_loop e lim acc s = Inr n \<Longrightarrow> acc \<le> lim \<Longrightarrow> n \<le> lim"
  by (induction s arbitrary: acc) (auto split: option.splits if_splits)

lemma show_nat_head: "show_nat n = c # cs \<Longrightarrow> c \<noteq> CHR ''+'' \<and> c \<noteq> CHR ''-''"
  using show_nat_digits [of c n] by auto

lemma parse_unsigned_show [rnum]: "n \<le> lim \<Longrightarrow> parse_unsigned lim (show_nat n) = Inr n"
  by (cases "show_nat n")
     (use show_nat_nonempty [of n] show_nat_head [of n] digit_loop_show [of n lim PosOverflow]
        in \<open>auto simp: parse_unsigned_def\<close>)

lemma parse_unsigned_bound: "parse_unsigned lim s = Inr n \<Longrightarrow> n \<le> lim"
  by (auto simp: parse_unsigned_def simp del: digit_loop.simps
      split: list.splits if_splits dest: digit_loop_bound)

lemma parse_u8_show [rnum]: "n \<le> 255 \<Longrightarrow> parse_u8 (show_nat n) = Inr n"
  by (simp add: parse_u8_def parse_unsigned_show)

lemma parse_i64_show [rnum]:
  assumes "- (2 ^ 63) \<le> i" "i < 2 ^ 63"
  shows "parse_i64 (show_int i) = Inr i"
proof (cases "i < 0")
  case True
  then have "nat (- i) \<le> 2 ^ 63" using assms by simp
  then have "digit_loop NegOverflow (2 ^ 63) 0 (show_nat (nat (- i))) = Inr (nat (- i))"
    by (rule digit_loop_show)
  with True show ?thesis by (simp add: parse_i64_def show_int_def)
next
  case False
  then have "nat i \<le> 2 ^ 63 - 1" using assms by simp
  then have l: "digit_loop PosOverflow (2 ^ 63 - 1) 0 (show_nat (nat i)) = Inr (nat i)"
    by (rule digit_loop_show)
  obtain c cs where c: "show_nat (nat i) = c # cs"
    by (cases "show_nat (nat i)") auto
  with show_nat_head [OF c] l False show ?thesis
    by (simp add: parse_i64_def show_int_def)
qed

lemma parse_i64_range: "parse_i64 s = Inr i \<Longrightarrow> - (2 ^ 63) \<le> i \<and> i < 2 ^ 63"
  by (auto simp: parse_i64_def rbind_Inr simp del: digit_loop.simps
      split: list.splits if_splits dest!: digit_loop_bound)

lemma show_nat_graphic: "\<forall>c\<in>set (show_nat n). 33 \<le> bval c \<and> bval c \<le> 126"
  using show_nat_digits by fastforce

lemma show_int_graphic: "\<forall>c\<in>set (show_int i). 33 \<le> bval c \<and> bval c \<le> 126"
  using show_nat_graphic by (auto simp: show_int_def)

lemma show_int_nonempty [simp]: "show_int i \<noteq> []"
  by (simp add: show_int_def)

section \<open>Two's complement\<close>

text \<open>\<open>i64\<close> results out of range wrap around (the release profile leaves overflow checks off).\<close>

definition i64_wrap :: "int \<Rightarrow> int" where
  "i64_wrap x = (x + 2 ^ 63) mod 2 ^ 64 - 2 ^ 63"

definition i64_abs :: "int \<Rightarrow> int" where
  "i64_abs x = i64_wrap \<bar>x\<bar>"

definition in_i64 :: "int \<Rightarrow> bool" where
  "in_i64 x \<longleftrightarrow> - (2 ^ 63) \<le> x \<and> x < 2 ^ 63"

lemma i64_wrap_id: "in_i64 x \<Longrightarrow> i64_wrap x = x"
  by (simp add: i64_wrap_def in_i64_def)

lemma i64_wrap_over:
  assumes "2 ^ 63 \<le> x" "x < 2 ^ 63 + 2 ^ 64"
  shows "i64_wrap x = x - 2 ^ 64"
proof -
  have "(x + 2 ^ 63) mod 2 ^ 64 = (x + 2 ^ 63 - 2 ^ 64) mod 2 ^ 64"
    by (rule minus_mod_self2 [symmetric])
  also have "\<dots> = x + 2 ^ 63 - 2 ^ 64" using assms by (intro mod_pos_pos_trivial) simp_all
  finally show ?thesis by (simp add: i64_wrap_def)
qed

lemma in_i64_wrap: "in_i64 (i64_wrap x)"
  using pos_mod_bound [of "2 ^ 64 :: int" "x + 2 ^ 63"]
    pos_mod_sign [of "2 ^ 64 :: int" "x + 2 ^ 63"]
  by (auto simp: i64_wrap_def in_i64_def)

section \<open>Big-endian bytes\<close>

text \<open>\<open>u16::to_be_bytes\<close> and \<open>i64::to_be_bytes\<close>.\<close>

definition be16 :: "nat \<Rightarrow> bytes" where
  "be16 n = [byte_of (n div 256 mod 256), byte_of (n mod 256)]"

fun be_bytes :: "nat \<Rightarrow> nat \<Rightarrow> bytes" where
  "be_bytes 0 n = []"
| "be_bytes (Suc k) n = be_bytes k (n div 256) @ [byte_of (n mod 256)]"

definition be64 :: "int \<Rightarrow> bytes" where
  "be64 i = be_bytes 8 (nat (i mod 2 ^ 64))"

lemma bval_byte_of: "bval (byte_of n) = n mod 256"
  by (simp add: byte_of_def)

lemma byte_of_inj: "byte_of m = byte_of n \<Longrightarrow> m < 256 \<Longrightarrow> n < 256 \<Longrightarrow> m = n"
  by (metis bval_byte_of mod_less)

lemma be16_inj:
  assumes "be16 m = be16 n" "m < 65536" "n < 65536"
  shows "m = n"
proof -
  have "m mod 256 = n mod 256" and "m div 256 mod 256 = n div 256 mod 256"
    using assms(1) by (auto simp: be16_def dest!: byte_of_inj)
  moreover have "m div 256 < 256" "n div 256 < 256" using assms by auto
  ultimately have "m div 256 = n div 256" by simp
  with \<open>m mod 256 = n mod 256\<close> show ?thesis by (metis div_mult_mod_eq)
qed

lemma length_be_bytes [simp]: "length (be_bytes k n) = k"
  by (induction k arbitrary: n) simp_all

lemma be_bytes_inj: "be_bytes k m = be_bytes k n \<Longrightarrow> m < 256 ^ k \<Longrightarrow> n < 256 ^ k \<Longrightarrow> m = n"
proof (induction k arbitrary: m n)
  case (Suc k)
  from Suc.prems(1) have hi: "be_bytes k (m div 256) = be_bytes k (n div 256)"
    and lo: "byte_of (m mod 256) = byte_of (n mod 256)"
    by simp_all
  from Suc.prems have "m div 256 < 256 ^ k" "n div 256 < 256 ^ k"
    by (simp_all add: less_mult_imp_div_less mult.commute)
  with hi have "m div 256 = n div 256" by (rule Suc.IH)
  moreover from lo have "m mod 256 = n mod 256" by (auto dest: byte_of_inj)
  ultimately show ?case by (metis div_mult_mod_eq)
qed simp

lemma length_be16 [simp]: "length (be16 n) = 2"
  by (simp add: be16_def)

lemma length_be64 [simp]: "length (be64 i) = 8"
  by (simp add: be64_def)

lemma be64_inj:
  assumes "be64 i = be64 j" "in_i64 i" "in_i64 j"
  shows "i = j"
proof -
  have m: "nat (i mod 2 ^ 64) < 256 ^ 8" "nat (j mod 2 ^ 64) < 256 ^ 8"
    by (simp_all add: nat_less_iff)
  from assms(1) have "be_bytes 8 (nat (i mod 2 ^ 64)) = be_bytes 8 (nat (j mod 2 ^ 64))"
    by (simp add: be64_def)
  then have "nat (i mod 2 ^ 64) = nat (j mod 2 ^ 64)"
    using m by (rule be_bytes_inj)
  then have "i mod 2 ^ 64 = j mod 2 ^ 64" by (simp add: eq_nat_nat_iff)
  with assms(2,3) show ?thesis
    using i64_wrap_id [of i] i64_wrap_id [of j] by (metis i64_wrap_def mod_add_left_eq)
qed

section \<open>Codecs\<close>

text \<open>
  An encoder and its decoder.  Every pair of the client's formats that is written and read back
  (stored status texts, numbers, wire lines) keeps this contract on its well-formed values.
\<close>

locale codec =
  fixes enc :: "'a \<Rightarrow> 'b"
    and dec :: "'b \<Rightarrow> 'e + 'a"
    and wf :: "'a \<Rightarrow> bool"
  assumes dec_enc: "wf x \<Longrightarrow> dec (enc x) = Inr x"
begin

lemma enc_inject: "wf x \<Longrightarrow> wf y \<Longrightarrow> enc x = enc y \<longleftrightarrow> x = y"
  by (metis dec_enc sum.inject(2))

lemma dec_surj: "wf x \<Longrightarrow> \<exists>t. dec t = Inr x"
  using dec_enc by blast

end

interpretation u8_codec: codec show_nat parse_u8 "\<lambda>n. n \<le> 255"
  by unfold_locales (rule parse_u8_show)

interpretation i64_codec: codec show_int parse_i64 in_i64
  by unfold_locales (simp add: in_i64_def parse_i64_show)

end
