(* ===== verification/Rust_Map.thy ===== *)
theory Rust_Map
  imports Rust_Std "HOL-Library.AList"
begin

text \<open>
  \<open>HashMap\<close> (and a SQL table with a primary key) as an association list with distinct keys.
  The list order is the iteration order, which the standard library leaves unspecified: a law
  of this interface never depends on it.
\<close>

locale hash_map =
  fixes get :: "'m \<Rightarrow> 'k \<Rightarrow> 'v option"
    and put :: "'k \<Rightarrow> 'v \<Rightarrow> 'm \<Rightarrow> 'm"
    and del :: "'k \<Rightarrow> 'm \<Rightarrow> 'm"
    and retain :: "('k \<times> 'v \<Rightarrow> bool) \<Rightarrow> 'm \<Rightarrow> 'm"
    and inv :: "'m \<Rightarrow> bool"
  assumes get_put: "get (put k v m) j = (if j = k then Some v else get m j)"
    and get_del: "get (del k m) j = (if j = k then None else get m j)"
    and get_retain: "inv m \<Longrightarrow> get (retain P m) j =
          (case get m j of None \<Rightarrow> None | Some v \<Rightarrow> if P (j, v) then Some v else None)"
    and inv_put: "inv m \<Longrightarrow> inv (put k v m)"
    and inv_del: "inv m \<Longrightarrow> inv (del k m)"
    and inv_retain: "inv m \<Longrightarrow> inv (retain P m)"
begin

lemma get_retain_Some:
  "inv m \<Longrightarrow> get (retain P m) j = Some v \<longleftrightarrow> get m j = Some v \<and> P (j, v)"
  by (auto simp: get_retain split: option.splits)

lemma get_retain_None:
  "inv m \<Longrightarrow> get m j = None \<Longrightarrow> get (retain P m) j = None"
  by (simp add: get_retain)

lemma get_put_same: "get (put k v m) k = Some v"
  by (simp add: get_put)

lemma get_put_other: "j \<noteq> k \<Longrightarrow> get (put k v m) j = get m j"
  by (simp add: get_put)

lemma get_del_same: "get (del k m) k = None"
  by (simp add: get_del)

end

type_synonym ('k, 'v) hmap = "('k \<times> 'v) list"

definition hm_get :: "('k, 'v) hmap \<Rightarrow> 'k \<Rightarrow> 'v option" where
  "hm_get m k = map_of m k"

definition hm_put :: "'k \<Rightarrow> 'v \<Rightarrow> ('k, 'v) hmap \<Rightarrow> ('k, 'v) hmap" where
  "hm_put k v m = AList.update k v m"

definition hm_del :: "'k \<Rightarrow> ('k, 'v) hmap \<Rightarrow> ('k, 'v) hmap" where
  "hm_del k m = AList.delete k m"

definition hm_retain :: "('k \<times> 'v \<Rightarrow> bool) \<Rightarrow> ('k, 'v) hmap \<Rightarrow> ('k, 'v) hmap" where
  "hm_retain P m = filter P m"

definition hm_ok :: "('k, 'v) hmap \<Rightarrow> bool" where
  "hm_ok m \<longleftrightarrow> distinct (map fst m)"

lemma map_of_filter_distinct:
  "distinct (map fst m) \<Longrightarrow> map_of (filter P m) k =
     (case map_of m k of None \<Rightarrow> None | Some v \<Rightarrow> if P (k, v) then Some v else None)"
  by (induction m) (auto split: option.splits dest: map_of_SomeD simp: rev_image_eqI
      map_of_eq_None_iff)

interpretation hm: hash_map hm_get hm_put hm_del hm_retain hm_ok
proof unfold_locales
  show "hm_get (hm_put k v m) j = (if j = k then Some v else hm_get m j)"
    for k :: 'k and v :: 'v and m j
    by (simp add: hm_get_def hm_put_def update_conv')
  show "hm_get (hm_del k m) j = (if j = k then None else hm_get m j)"
    for k :: 'k and m :: "('k, 'v) hmap" and j
    by (simp add: hm_get_def hm_del_def delete_conv')
  show "hm_ok m \<Longrightarrow> hm_get (hm_retain P m) j =
      (case hm_get m j of None \<Rightarrow> None | Some v \<Rightarrow> if P (j, v) then Some v else None)"
    for m :: "('k, 'v) hmap" and P j
    by (simp add: hm_get_def hm_retain_def hm_ok_def map_of_filter_distinct)
  show "hm_ok m \<Longrightarrow> hm_ok (hm_put k v m)" for m :: "('k, 'v) hmap" and k v
    by (simp add: hm_ok_def hm_put_def distinct_update)
  show "hm_ok m \<Longrightarrow> hm_ok (hm_del k m)" for m :: "('k, 'v) hmap" and k
    by (simp add: hm_ok_def hm_del_def distinct_delete)
  show "hm_ok m \<Longrightarrow> hm_ok (hm_retain P m)" for m :: "('k, 'v) hmap" and P
    by (simp add: hm_ok_def hm_retain_def distinct_map_filter)
qed

lemmas hm_simps [rmap] = hm.get_put hm.get_del
lemmas hm_inv [rmap] = hm.inv_put hm.inv_del hm.inv_retain

lemma hm_ok_Nil [simp]: "hm_ok []"
  by (simp add: hm_ok_def)

lemma hm_get_Nil [simp]: "hm_get [] k = None"
  by (simp add: hm_get_def)

lemma hm_put_fresh: "hm_get m k = None \<Longrightarrow> hm_put k v m = m @ [(k, v)]"
  unfolding hm_get_def hm_put_def by (induction m) (auto split: if_splits)

lemma hm_get_Some_in: "hm_get m k = Some v \<Longrightarrow> (k, v) \<in> set m"
  by (simp add: hm_get_def map_of_SomeD)

lemma hm_get_in: "hm_ok m \<Longrightarrow> (k, v) \<in> set m \<Longrightarrow> hm_get m k = Some v"
  by (simp add: hm_get_def hm_ok_def)

lemma hm_get_iff: "hm_ok m \<Longrightarrow> hm_get m k = Some v \<longleftrightarrow> (k, v) \<in> set m"
  using hm_get_in hm_get_Some_in by metis

end
