(* ===== verification/Rust_Time.thy ===== *)
theory Rust_Time
  imports Main
begin

text \<open>
  The monotonic clock.  An \<open>Instant\<close> is its distance in nanoseconds from the clock's origin and a
  \<open>Duration\<close> a number of nanoseconds; a call's \<open>Instant::now()\<close> is an argument of its definition.
  \<open>checked_sub\<close> has no result before the origin; \<open>duration_since\<close> saturates at zero, as
  subtraction on \<open>nat\<close> does.
\<close>

definition secs :: "nat \<Rightarrow> nat" where "secs n = n * 1000000000"

definition millis :: "nat \<Rightarrow> nat" where "millis n = n * 1000000"

definition checked_sub :: "nat \<Rightarrow> nat \<Rightarrow> nat option" where
  "checked_sub now d = (if d \<le> now then Some (now - d) else None)"

text \<open>\<open>now.checked_sub(d).unwrap_or(now)\<close>\<close>

definition cutoff :: "nat \<Rightarrow> nat \<Rightarrow> nat" where
  "cutoff now d = (case checked_sub now d of Some t \<Rightarrow> t | None \<Rightarrow> now)"

lemma cutoff_le: "cutoff now d \<le> now"
  by (simp add: cutoff_def checked_sub_def)

lemma cutoff_less: "d \<le> now \<Longrightarrow> a < cutoff now d \<longleftrightarrow> a + d < now"
  by (auto simp: cutoff_def checked_sub_def)

end
