(* ===== verification/Rust_Text.thy ===== *)
theory Rust_Text
  imports Rust_Std Rust_Num
begin

text \<open>
  More of the standard library's string and slice operations, for the IRC components: a character
  (\<open>char\<close>) is the list of its UTF-8 bytes, as \<open>chars_of\<close> yields it.
\<close>

named_theorems rtext "facts about the string and slice operations"

section \<open>Results and slices\<close>

fun result_ok :: "'e + 'a \<Rightarrow> 'a option" where
  "result_ok (Inl e) = None"
| "result_ok (Inr x) = Some x"

definition opt_filter :: "('a \<Rightarrow> bool) \<Rightarrow> 'a option \<Rightarrow> 'a option" where
  "opt_filter P x = (case x of Some y \<Rightarrow> if P y then Some y else None | None \<Rightarrow> None)"

definition unwrap_or :: "'a \<Rightarrow> 'a option \<Rightarrow> 'a" where
  "unwrap_or d x = (case x of Some y \<Rightarrow> y | None \<Rightarrow> d)"

lemma unwrap_or_simps [simp]: "unwrap_or d None = d" "unwrap_or d (Some y) = y"
  by (simp_all add: unwrap_or_def)

lemma opt_filter_simps [simp]: "opt_filter P None = None" "opt_filter P (Some y) = (if P y then Some y else None)"
  by (simp_all add: opt_filter_def)

lemma opt_filter_Some: "opt_filter P x = Some y \<longleftrightarrow> x = Some y \<and> P y"
  by (auto simp: opt_filter_def split: option.splits)

text \<open>\<open>Iterator::position\<close>\<close>

fun position :: "('a \<Rightarrow> bool) \<Rightarrow> 'a list \<Rightarrow> nat option" where
  "position P [] = None"
| "position P (x # xs) = (if P x then Some 0 else map_option Suc (position P xs))"

lemma position_Some: "position P xs = Some i \<Longrightarrow> i < length xs \<and> P (xs ! i)"
  by (induction xs arbitrary: i) (auto split: if_splits)

lemma position_None: "position P xs = None \<longleftrightarrow> (\<forall>x\<in>set xs. \<not> P x)"
  by (induction xs) auto

text \<open>A change of the element at an index that is in range.\<close>

definition update_at :: "nat \<Rightarrow> ('a \<Rightarrow> 'a) \<Rightarrow> 'a list \<Rightarrow> 'a list" where
  "update_at i f xs = (if i < length xs then xs[i := f (xs ! i)] else xs)"

lemma length_update_at [simp]: "length (update_at i f xs) = length xs"
  by (simp add: update_at_def)

lemma nth_update_at: "j < length xs \<Longrightarrow> update_at i f xs ! j = (if i = j then f (xs ! j) else xs ! j)"
  by (simp add: update_at_def nth_list_update)

section \<open>Characters\<close>

text \<open>\<open>char::is_control\<close>: the category Cc, U+0000 to U+001F and U+007F to U+009F.\<close>

definition char_is_control :: "bytes \<Rightarrow> bool" where
  "char_is_control c =
     (case c of
        [a] \<Rightarrow> bval a < 32 \<or> bval a = 127
      | [a, b] \<Rightarrow> bval a = 194 \<and> bval b < 160
      | _ \<Rightarrow> False)"

definition char_is_whitespace :: "bytes \<Rightarrow> bool" where
  "char_is_whitespace c \<longleftrightarrow> ws_len c > 0"

definition is_ascii_alphanumeric :: "byte \<Rightarrow> bool" where
  "is_ascii_alphanumeric c \<longleftrightarrow> is_ascii_alphabetic c \<or> is_ascii_digit c"

definition to_ascii_uppercase :: "bytes \<Rightarrow> bytes" where
  "to_ascii_uppercase s = map (\<lambda>c. if 97 \<le> bval c \<and> bval c \<le> 122 then byte_of (bval c - 32) else c) s"

section \<open>Searching\<close>

fun contains_str :: "bytes \<Rightarrow> bytes \<Rightarrow> bool" where
  "contains_str p [] = (p = [])"
| "contains_str p (x # xs) = (strip_prefix p (x # xs) \<noteq> None \<or> contains_str p xs)"

definition rfind_byte :: "byte \<Rightarrow> bytes \<Rightarrow> nat option" where
  "rfind_byte c s = map_option (\<lambda>i. length s - 1 - i) (find_byte c (rev s))"

definition ends_with :: "bytes \<Rightarrow> bytes \<Rightarrow> bool" where
  "ends_with p s \<longleftrightarrow> strip_suffix p s \<noteq> None"

text \<open>\<open>str::splitn\<close> at a byte: at most \<open>n\<close> pieces, the last one with the rest.\<close>

fun splitn :: "nat \<Rightarrow> byte \<Rightarrow> bytes \<Rightarrow> bytes list" where
  "splitn 0 c s = []"
| "splitn (Suc 0) c s = [s]"
| "splitn (Suc (Suc n)) c s =
     (case split_once c s of None \<Rightarrow> [s] | Some (a, b) \<Rightarrow> a # splitn (Suc n) c b)"

text \<open>\<open>str::replace\<close>, for a non-empty pattern: the matches from left to right, not overlapping.\<close>

function replace_all :: "bytes \<Rightarrow> bytes \<Rightarrow> bytes \<Rightarrow> bytes" where
  "replace_all p r [] = []"
| "replace_all p r (x # xs) =
     (if p = [] then x # xs
      else case strip_prefix p (x # xs) of
        Some rest \<Rightarrow> r @ replace_all p r rest
      | None \<Rightarrow> x # replace_all p r xs)"
  by pat_completeness auto
termination
  by (relation "measure (\<lambda>(p, r, s). length s)")
    (auto simp: strip_prefix_Some dest: arg_cong [where f = length])

lemma to_lower_idem [simp]: "ascii_lower (ascii_lower c) = ascii_lower c"
  by (simp add: ascii_lower_def bval_byte_of)

end
