(* ===== verification/Glob.thy ===== *)
theory Glob
  imports Rust_Std
begin

text \<open>
  The glob matcher of the autotrust rules (\<open>glob_matches_ci\<close> in \<open>src/src/e2e/keyring.rs\<close>): the
  iterative loop with one remembered star, its reference semantics, and the proof that the loop
  terminates and computes the reference on every input without a literal star.
  \<open>char::to_lowercase\<close> rests on the Unicode tables of the standard library and is the
  argument \<open>lowc\<close>: the characters one character is mapped to.
\<close>

section \<open>The loop\<close>

partial_function (option) glob_loop ::
  "bytes list \<Rightarrow> bytes list \<Rightarrow> nat \<Rightarrow> nat \<Rightarrow> nat option \<Rightarrow> nat \<Rightarrow> bool option" where
  "glob_loop pat inp pi ii star_pat star_inp =
     (if ii < length inp then
        if pi < length pat \<and> (pat ! pi = ''?'' \<or> pat ! pi = inp ! ii)
        then glob_loop pat inp (pi + 1) (ii + 1) star_pat star_inp
        else if pi < length pat \<and> pat ! pi = ''*''
        then glob_loop pat inp (pi + 1) ii (Some pi) ii
        else (case star_pat of
                Some sp \<Rightarrow> glob_loop pat inp (sp + 1) (star_inp + 1) star_pat (star_inp + 1)
              | None \<Rightarrow> Some False)
      else Some (dropWhile (\<lambda>c. c = ''*'') (drop pi pat) = []))"

definition glob_matches_ci :: "(bytes \<Rightarrow> bytes list) \<Rightarrow> bytes \<Rightarrow> bytes \<Rightarrow> bool option" where
  "glob_matches_ci lowc pattern input =
     glob_loop (concat (map lowc (chars_of pattern))) (concat (map lowc (chars_of input)))
       0 0 None 0"

section \<open>Reference semantics\<close>

text \<open>\<open>*\<close> matches any sequence of characters, \<open>?\<close> one character, anything else itself.\<close>

fun glob_ref :: "bytes list \<Rightarrow> bytes list \<Rightarrow> bool" where
  "glob_ref [] xs = (xs = [])"
| "glob_ref (p # ps) [] = (p = ''*'' \<and> glob_ref ps [])"
| "glob_ref (p # ps) (x # xs) =
     (if p = ''*'' then glob_ref ps (x # xs) \<or> glob_ref (p # ps) xs
      else (p = ''?'' \<or> p = x) \<and> glob_ref ps xs)"

lemma glob_ref_Nil: "glob_ref ps [] \<longleftrightarrow> dropWhile (\<lambda>c. c = ''*'') ps = []"
  by (induction ps) auto

lemma glob_ref_star:
  "glob_ref (''*'' # ps) xs \<longleftrightarrow> (\<exists>k\<le>length xs. glob_ref ps (drop k xs))"
proof (induction xs)
  case (Cons x xs)
  have "(\<exists>k\<le>length (x # xs). glob_ref ps (drop k (x # xs))) \<longleftrightarrow>
        glob_ref ps (x # xs) \<or> (\<exists>k\<le>length xs. glob_ref ps (drop k xs))" (is "?L \<longleftrightarrow> ?R")
  proof
    assume ?L
    then obtain k where "k \<le> length (x # xs)" "glob_ref ps (drop k (x # xs))" by blast
    then show ?R by (cases k) auto
  next
    assume ?R
    then show ?L
    proof
      assume "\<exists>k\<le>length xs. glob_ref ps (drop k xs)"
      then obtain k where "k \<le> length xs" "glob_ref ps (drop k xs)" by blast
      then have "Suc k \<le> length (x # xs) \<and> glob_ref ps (drop (Suc k) (x # xs))" by simp
      then show ?L by blast
    qed (metis drop0 le0)
  qed
  with Cons.IH show ?case by simp
qed simp

text \<open>A star-free segment consumes exactly its own length.\<close>

lemma glob_ref_segment:
  "''*'' \<notin> set seg \<Longrightarrow> glob_ref (seg @ ps) xs \<Longrightarrow>
     length seg \<le> length xs \<and> glob_ref ps (drop (length seg) xs)"
proof (induction seg arbitrary: xs)
  case (Cons p seg)
  then show ?case by (cases xs) (auto split: if_splits)
qed simp

section \<open>Correctness of the loop\<close>

definition glob_at :: "bytes list \<Rightarrow> bytes list \<Rightarrow> nat \<Rightarrow> nat \<Rightarrow> bool" where
  "glob_at pat inp p i = glob_ref (drop p pat) (drop i inp)"

text \<open>What the loop decides: the current position matches, or a later start after the star does.\<close>

definition glob_goal ::
  "bytes list \<Rightarrow> bytes list \<Rightarrow> nat \<Rightarrow> nat \<Rightarrow> nat option \<Rightarrow> nat \<Rightarrow> bool" where
  "glob_goal pat inp pi ii star si \<longleftrightarrow>
     glob_at pat inp pi ii \<or>
     (\<exists>sp k. star = Some sp \<and> si < k \<and> k \<le> length inp \<and> glob_at pat inp (sp + 1) k)"

text \<open>The invariant: since the star, pattern and input advanced in step over star-free characters.\<close>

definition glob_inv ::
  "bytes list \<Rightarrow> bytes list \<Rightarrow> nat \<Rightarrow> nat \<Rightarrow> nat option \<Rightarrow> nat \<Rightarrow> bool" where
  "glob_inv pat inp pi ii star si \<longleftrightarrow>
     pi \<le> length pat \<and> ii \<le> length inp \<and>
     (\<forall>sp. star = Some sp \<longrightarrow> sp < pi \<and> si \<le> ii \<and> pi - (sp + 1) = ii - si \<and>
        ''*'' \<notin> set (take (pi - (sp + 1)) (drop (sp + 1) pat)))"

lemma glob_inv_segment:
  assumes "glob_inv pat inp pi ii (Some sp) si" "glob_at pat inp (sp + 1) k" "k \<le> length inp"
  shows "k + (ii - si) \<le> length inp \<and> glob_at pat inp pi (k + (ii - si))"
proof -
  let ?seg = "take (pi - (sp + 1)) (drop (sp + 1) pat)"
  from assms(1) have le: "sp + 1 \<le> pi" "pi \<le> length pat" and m: "pi - (sp + 1) = ii - si"
    and ns: "''*'' \<notin> set ?seg"
    by (auto simp: glob_inv_def)
  have len: "length ?seg = ii - si" using le m by simp
  have "drop (sp + 1) pat = ?seg @ drop pi pat"
    using le by (metis append_take_drop_id drop_drop le_add_diff_inverse2)
  with assms(2) have "glob_ref (?seg @ drop pi pat) (drop k inp)"
    by (simp add: glob_at_def)
  from glob_ref_segment [OF ns this] len
  have "ii - si \<le> length inp - k" "glob_ref (drop pi pat) (drop (ii - si + k) inp)"
    by simp_all
  with assms(3) show ?thesis by (simp add: glob_at_def add.commute)
qed

lemma glob_at_star:
  assumes "pi < length pat" "pat ! pi = ''*''" "ii \<le> length inp"
  shows "glob_at pat inp pi ii \<longleftrightarrow>
    (\<exists>k. ii \<le> k \<and> k \<le> length inp \<and> glob_at pat inp (pi + 1) k)"
proof -
  have "drop pi pat = ''*'' # drop (pi + 1) pat"
    using assms by (metis Cons_nth_drop_Suc Suc_eq_plus1)
  then have "glob_at pat inp pi ii \<longleftrightarrow>
      (\<exists>j\<le>length inp - ii. glob_ref (drop (pi + 1) pat) (drop (j + ii) inp))"
    by (simp add: glob_at_def glob_ref_star)
  also have "\<dots> \<longleftrightarrow> (\<exists>k. ii \<le> k \<and> k \<le> length inp \<and> glob_at pat inp (pi + 1) k)"
    using assms(3) unfolding glob_at_def
    by (metis diff_add_inverse2 le_add2 le_add_diff_inverse2 le_diff_conv)
  finally show ?thesis .
qed

lemma glob_at_char:
  assumes "pi < length pat" "ii < length inp" "pat ! pi \<noteq> ''*''"
  shows "glob_at pat inp pi ii \<longleftrightarrow>
    (pat ! pi = ''?'' \<or> pat ! pi = inp ! ii) \<and> glob_at pat inp (pi + 1) (ii + 1)"
proof -
  have "drop pi pat = pat ! pi # drop (pi + 1) pat" "drop ii inp = inp ! ii # drop (ii + 1) inp"
    using assms by (simp_all add: Cons_nth_drop_Suc)
  with assms(3) show ?thesis by (simp add: glob_at_def)
qed

lemma glob_at_end: "length pat \<le> pi \<Longrightarrow> ii < length inp \<Longrightarrow> \<not> glob_at pat inp pi ii"
  by (simp add: glob_at_def)

lemma take_Suc_seg:
  assumes "sp < pi" "pi < length pat"
  shows "set (take (pi + 1 - (sp + 1)) (drop (sp + 1) pat))
     = insert (pat ! pi) (set (take (pi - (sp + 1)) (drop (sp + 1) pat)))"
proof -
  have "pi + 1 - (sp + 1) = Suc (pi - (sp + 1))" using assms by simp
  moreover have "drop (sp + 1) pat ! (pi - (sp + 1)) = pat ! pi" using assms by simp
  ultimately show ?thesis using assms by (simp add: take_Suc_conv_app_nth)
qed

lemma glob_step_char:
  assumes "glob_inv pat inp pi ii star si" "ii < length inp" "pi < length pat"
    "pat ! pi = ''?'' \<or> pat ! pi = inp ! ii" "''*'' \<notin> set inp"
  shows "glob_inv pat inp (pi + 1) (ii + 1) star si"
    and "glob_goal pat inp (pi + 1) (ii + 1) star si = glob_goal pat inp pi ii star si"
proof -
  have ns: "pat ! pi \<noteq> ''*''"
  proof
    assume "pat ! pi = ''*''"
    with assms(4) have "inp ! ii = ''*''" by simp
    with assms(2,5) show False by (metis nth_mem)
  qed
  show "glob_inv pat inp (pi + 1) (ii + 1) star si"
    using assms(1-3) ns take_Suc_seg [of _ pi pat]
    by (auto simp: glob_inv_def simp del: diff_Suc_Suc)
  from glob_at_char [OF assms(3,2) ns] assms(4)
  show "glob_goal pat inp (pi + 1) (ii + 1) star si = glob_goal pat inp pi ii star si"
    by (simp add: glob_goal_def)
qed

lemma glob_step_star:
  assumes "glob_inv pat inp pi ii star si" "ii < length inp" "pi < length pat" "pat ! pi = ''*''"
  shows "glob_inv pat inp (pi + 1) ii (Some pi) ii"
    and "glob_goal pat inp (pi + 1) ii (Some pi) ii = glob_goal pat inp pi ii star si"
proof -
  show "glob_inv pat inp (pi + 1) ii (Some pi) ii"
    using assms by (simp add: glob_inv_def)
  have le: "ii \<le> length inp" using assms(2) by simp
  have new: "glob_goal pat inp (pi + 1) ii (Some pi) ii = glob_at pat inp pi ii"
    unfolding glob_goal_def glob_at_star [OF assms(3,4) le]
    using le by (metis le_neq_implies_less less_imp_le order_refl option.inject)
  have "glob_at pat inp pi ii"
    if star: "star = Some sp" and k: "si < k" "k \<le> length inp" "glob_at pat inp (sp + 1) k" for sp k
  proof -
    have inv: "glob_inv pat inp pi ii (Some sp) si" using assms(1) star by simp
    from glob_inv_segment [OF inv k(3,2)]
    have b: "k + (ii - si) \<le> length inp" "glob_at pat inp pi (k + (ii - si))" by auto
    from inv have "si \<le> ii" by (simp add: glob_inv_def)
    with k have le2: "ii \<le> k + (ii - si)" by simp
    from b(2) obtain j where "k + (ii - si) \<le> j" "j \<le> length inp" "glob_at pat inp (pi + 1) j"
      using glob_at_star [OF assms(3,4) b(1)] by blast
    with le2 show ?thesis using glob_at_star [OF assms(3,4) le] by (meson le_trans)
  qed
  then show "glob_goal pat inp (pi + 1) ii (Some pi) ii = glob_goal pat inp pi ii star si"
    unfolding new by (auto simp: glob_goal_def)
qed

lemma glob_step_back:
  assumes "glob_inv pat inp pi ii (Some sp) si" "ii < length inp"
    "\<not> (pi < length pat \<and> (pat ! pi = ''?'' \<or> pat ! pi = inp ! ii))"
    "\<not> (pi < length pat \<and> pat ! pi = ''*'')"
  shows "glob_inv pat inp (sp + 1) (si + 1) (Some sp) (si + 1)"
    and "glob_goal pat inp (sp + 1) (si + 1) (Some sp) (si + 1) = glob_goal pat inp pi ii (Some sp) si"
proof -
  from assms(1,2) show "glob_inv pat inp (sp + 1) (si + 1) (Some sp) (si + 1)"
    by (auto simp: glob_inv_def)
  have "\<not> glob_at pat inp pi ii"
    using assms(2-4) glob_at_char [of pi pat ii inp] glob_at_end [of pat pi ii inp]
    by (metis not_le_imp_less)
  moreover have "si < length inp" using assms(1,2) by (auto simp: glob_inv_def)
  ultimately show "glob_goal pat inp (sp + 1) (si + 1) (Some sp) (si + 1)
      = glob_goal pat inp pi ii (Some sp) si"
    unfolding glob_goal_def by (metis Suc_eq_plus1 Suc_leI Suc_lessD Suc_lessI lessI option.inject)
qed

lemma glob_finish:
  assumes "glob_inv pat inp pi ii star si" "\<not> ii < length inp"
  shows "glob_goal pat inp pi ii star si
    \<longleftrightarrow> dropWhile (\<lambda>c. c = ''*'') (drop pi pat) = []"
proof -
  from assms have ii: "ii = length inp" by (simp add: glob_inv_def)
  have "False" if star: "star = Some sp" and k: "si < k" "k \<le> length inp" "glob_at pat inp (sp + 1) k"
    for sp k
  proof -
    have inv: "glob_inv pat inp pi ii (Some sp) si" using assms(1) star by simp
    then have "si \<le> ii" by (simp add: glob_inv_def)
    with glob_inv_segment [OF inv k(3,2)] k(1) ii show False by linarith
  qed
  with ii show ?thesis by (auto simp: glob_goal_def glob_at_def glob_ref_Nil)
qed

text \<open>The measure: input left after the star, then pattern left after it, then input left.\<close>

definition glob_measure ::
  "bytes list \<Rightarrow> bytes list \<Rightarrow> nat \<Rightarrow> nat option \<Rightarrow> nat \<Rightarrow> nat \<times> nat \<times> nat" where
  "glob_measure pat inp ii star si =
     (case star of None \<Rightarrow> (length inp, Suc (length pat), length inp - ii)
      | Some sp \<Rightarrow> (length inp - si, length pat - sp, length inp - ii))"

definition glob_less :: "((nat \<times> nat \<times> nat) \<times> (nat \<times> nat \<times> nat)) set" where
  "glob_less = less_than <*lex*> less_than <*lex*> less_than"

lemma wf_glob_less: "wf glob_less"
  unfolding glob_less_def by (intro wf_lex_prod wf_less_than)

lemma glob_loop_correct:
  assumes "''*'' \<notin> set inp" "glob_inv pat inp pi ii star si"
  shows "glob_loop pat inp pi ii star si = Some (glob_goal pat inp pi ii star si)"
  using assms(2)
proof (induction "glob_measure pat inp ii star si" arbitrary: pi ii star si
    rule: wf_induct_rule [OF wf_glob_less])
  case (1 ii star si pi)
  show ?case
  proof (cases "ii < length inp")
    case False
    with glob_finish [OF "1.prems" False] show ?thesis
      by (simp add: glob_loop.simps [of pat inp pi ii])
  next
    case ii: True
    show ?thesis
    proof (cases "pi < length pat \<and> (pat ! pi = ''?'' \<or> pat ! pi = inp ! ii)")
      case True
      then have t: "pi < length pat" "pat ! pi = ''?'' \<or> pat ! pi = inp ! ii" by auto
      note s = glob_step_char [OF "1.prems" ii t assms(1)]
      have "(glob_measure pat inp (ii + 1) star si, glob_measure pat inp ii star si) \<in> glob_less"
        using ii by (auto simp: glob_less_def glob_measure_def split: option.splits)
      from "1.hyps" [OF this s(1)] s(2) ii True show ?thesis
        by (simp add: glob_loop.simps [of pat inp pi ii])
    next
      case no_char: False
      show ?thesis
      proof (cases "pi < length pat \<and> pat ! pi = ''*''")
        case True
        then have t: "pi < length pat" "pat ! pi = ''*''" by auto
        note s = glob_step_star [OF "1.prems" ii t]
        have "(glob_measure pat inp ii (Some pi) ii, glob_measure pat inp ii star si) \<in> glob_less"
          using ii t "1.prems"
          by (auto simp: glob_less_def glob_measure_def glob_inv_def split: option.splits)
        from "1.hyps" [OF this s(1)] s(2) ii True no_char show ?thesis
          by (simp add: glob_loop.simps [of pat inp pi ii])
      next
        case no_star: False
        show ?thesis
        proof (cases star)
          case None
          have "\<not> glob_at pat inp pi ii"
            using no_char no_star ii glob_at_char [of pi pat ii inp] glob_at_end [of pat pi ii inp]
            by (metis not_le_imp_less)
          with None ii no_char no_star show ?thesis
            by (auto simp: glob_loop.simps [of pat inp pi ii] glob_goal_def)
        next
          case (Some sp)
          with "1.prems" have inv: "glob_inv pat inp pi ii (Some sp) si" by simp
          note s = glob_step_back [OF inv ii no_char no_star]
          have "(glob_measure pat inp (si + 1) star (si + 1), glob_measure pat inp ii star si)
             \<in> glob_less"
            using ii Some inv by (auto simp: glob_less_def glob_measure_def glob_inv_def)
          from "1.hyps" [OF this] s Some ii no_char no_star show ?thesis
            by (auto simp: glob_loop.simps [of pat inp pi ii])
        qed
      qed
    qed
  qed
qed

lemma glob_loop_ref:
  assumes "''*'' \<notin> set inp"
  shows "glob_loop pat inp 0 0 None 0 = Some (glob_ref pat inp)"
  using glob_loop_correct [OF assms, of pat 0 0 None 0]
  by (simp add: glob_inv_def glob_goal_def glob_at_def)

section \<open>Properties\<close>

text \<open>C36: \<open>glob_matches_ci\<close> returns on every pattern and input, and when no character of the
  lower-cased input is a literal \<open>*\<close> (no host name holds one) its answer is the documented
  meaning: \<open>*\<close> any sequence of characters, \<open>?\<close> exactly one, anything else itself.\<close>

theorem glob_matches_ci_correct:
  assumes "''*'' \<notin> set (concat (map lowc (chars_of input)))"
  shows "glob_matches_ci lowc pattern input =
    Some (glob_ref (concat (map lowc (chars_of pattern))) (concat (map lowc (chars_of input))))"
  unfolding glob_matches_ci_def by (rule glob_loop_ref [OF assms])

definition ascii_lowc :: "bytes \<Rightarrow> bytes list" where
  "ascii_lowc c = [to_ascii_lowercase c]"

theorem glob_matches_ci_correct_witness:
  "glob_matches_ci ascii_lowc ''*@*.Trusted.org'' ''~bob@a.trusted.org'' = Some True
    \<and> glob_matches_ci ascii_lowc ''*@trusted.org'' ''~bob@evil.org'' = Some False"
proof -
  have ns: "''*'' \<notin> set (concat (map ascii_lowc (chars_of ''~bob@a.trusted.org'')))"
    "''*'' \<notin> set (concat (map ascii_lowc (chars_of ''~bob@evil.org'')))"
    by code_simp+
  have r: "glob_ref (concat (map ascii_lowc (chars_of ''*@*.Trusted.org'')))
      (concat (map ascii_lowc (chars_of ''~bob@a.trusted.org'')))"
    "\<not> glob_ref (concat (map ascii_lowc (chars_of ''*@trusted.org'')))
      (concat (map ascii_lowc (chars_of ''~bob@evil.org'')))"
    by code_simp+
  show ?thesis
    using glob_matches_ci_correct [OF ns(1), of "''*@*.Trusted.org''"]
      glob_matches_ci_correct [OF ns(2), of "''*@trusted.org''"] r by simp
qed

text \<open>
  A literal \<open>*\<close> in the input is where the code and its documentation part: the equality test
  comes before the star test, so a pattern star is consumed as a literal.
\<close>

lemma glob_literal_star:
  "glob_matches_ci ascii_lowc ''*'' ''*a'' = Some False \<and> glob_ref [''*''] [''*'', ''a'']"
proof
  have "concat (map ascii_lowc (chars_of ''*'')) = [''*'']"
    "concat (map ascii_lowc (chars_of ''*a'')) = [''*'', ''a'']"
    by code_simp+
  then show "glob_matches_ci ascii_lowc ''*'' ''*a'' = Some False"
    by (simp add: glob_matches_ci_def glob_loop.simps)
qed simp

end
