(* ===== verification/E2e_Context.thy ===== *)
theory E2e_Context
  imports Rust_Num
begin

text \<open>
  Conversation contexts of the end-to-end encryption module (\<open>src/src/e2e/mod.rs\<close>), the bouncer
  scope test they rest on (\<open>src/src/config/network_scope.rs\<close>), the module's constants and its
  error type (\<open>src/src/e2e/error.rs\<close>).
\<close>

section \<open>Errors and constants\<close>

text \<open>
  \<open>E2eError\<close>.  The variants that wrap a library error keep no payload: what the hex, base64,
  SQLite and I/O crates report is theirs.
\<close>

datatype e2e_error =
    Crypto bytes
  | WireErr bytes
  | KeyringErr bytes
  | HandshakeErr bytes
  | PeerNotTrusted bytes bytes
  | HandleMismatch bytes bytes
  | ReplayWindow int int
  | ChunkLimit nat
  | RateLimited bytes
  | IoErr
  | SqliteErr
  | Base64Err
  | HexErr

text \<open>What \<open>#[error]\<close> prints, without the text of a wrapped library error.\<close>

fun show_error :: "e2e_error \<Rightarrow> bytes" where
  "show_error (Crypto t) = ''crypto error: '' @ t"
| "show_error (WireErr t) = ''wire format parse error: '' @ t"
| "show_error (KeyringErr t) = ''keyring error: '' @ t"
| "show_error (HandshakeErr t) = ''handshake error: '' @ t"
| "show_error (PeerNotTrusted h c) = ''peer not trusted: handle='' @ h @ '' channel='' @ c"
| "show_error (HandleMismatch expected got) =
     ''handle mismatch: expected '' @ expected @ '', got '' @ got"
| "show_error (ReplayWindow t now) = ''replay window violation: ts='' @ show_int t @ '' now='' @ show_int now"
| "show_error (ChunkLimit n) = ''chunk limit exceeded: '' @ show_nat n @ '' > 16''"
| "show_error (RateLimited p) = ''rate limit exceeded for peer '' @ p"
| "show_error IoErr = ''io error: ''"
| "show_error SqliteErr = ''sqlite error: ''"
| "show_error Base64Err = ''base64 error: ''"
| "show_error HexErr = ''hex error: ''"

definition PROTO :: bytes where "PROTO = ''RPE2E01''"
definition MAX_CHUNKS :: nat where "MAX_CHUNKS = 16"
definition MAX_PLAINTEXT_PER_CHUNK :: nat where "MAX_PLAINTEXT_PER_CHUNK = 180"
definition DEFAULT_TS_TOLERANCE_SECS :: int where "DEFAULT_TS_TOLERANCE_SECS = 300"

section \<open>Contexts\<close>

definition is_channel_target :: "bytes \<Rightarrow> bool" where
  "is_channel_target target =
     (case target of [] \<Rightarrow> False | c # _ \<Rightarrow> c \<in> set ''#&!+'')"

definition context_key :: "bytes \<Rightarrow> bytes \<Rightarrow> bytes" where
  "context_key target peer_handle =
     (if is_channel_target target then target else CHR ''@'' # peer_handle)"

definition CONTEXT_NET_SEPARATOR :: byte where
  "CONTEXT_NET_SEPARATOR = CHR 0x1F"

definition scoped_context :: "bytes \<Rightarrow> bytes \<Rightarrow> bytes" where
  "scoped_context network wire = network @ CONTEXT_NET_SEPARATOR # wire"

definition wire_context :: "bytes \<Rightarrow> bytes" where
  "wire_context ctx =
     (case split_once CONTEXT_NET_SEPARATOR ctx of None \<Rightarrow> ctx | Some (_, wire) \<Rightarrow> wire)"

definition display_context :: "bytes \<Rightarrow> bytes" where
  "display_context ctx =
     (case split_once CONTEXT_NET_SEPARATOR ctx of
        None \<Rightarrow> ctx | Some (net, wire) \<Rightarrow> net @ '':'' @ wire)"

definition BOUNCER_SCOPE_PREFIX :: bytes where
  "BOUNCER_SCOPE_PREFIX = ''bouncer:v1:''"

definition is_bouncer_scope :: "bytes \<Rightarrow> bool" where
  "is_bouncer_scope scope =
     (let network = hd (split_on CONTEXT_NET_SEPARATOR scope) in
      case strip_prefix BOUNCER_SCOPE_PREFIX network of
        None \<Rightarrow> False
      | Some value \<Rightarrow>
          (case split_once (CHR '':'') value of
             None \<Rightarrow> False
           | Some (account, ident) \<Rightarrow>
               length account = 64 \<and>
               list_all (\<lambda>b. is_ascii_digit b \<or> (97 \<le> bval b \<and> bval b \<le> 102)) account \<and>
               (ident = ''control'' \<or>
                (case parse_u64 ident of
                   Inl _ \<Rightarrow> False
                 | Inr v \<Rightarrow> v > 0 \<and> show_nat v = ident))))"

text \<open>
  \<open>legacy_wire_fallback\<close> of the keyring: the unscoped key a scoped read may retry under.
\<close>

definition legacy_wire_fallback :: "bytes \<Rightarrow> bytes option" where
  "legacy_wire_fallback channel =
     (if is_bouncer_scope channel then None
      else let wire = wire_context channel in
           if wire \<noteq> channel then Some wire else None)"

section \<open>Facts\<close>

lemma wire_scoped [simp]:
  "CONTEXT_NET_SEPARATOR \<notin> set network \<Longrightarrow> wire_context (scoped_context network wire) = wire"
  by (simp add: wire_context_def scoped_context_def split_once_append)

lemma wire_unscoped [simp]: "CONTEXT_NET_SEPARATOR \<notin> set w \<Longrightarrow> wire_context w = w"
  using split_once_None [of CONTEXT_NET_SEPARATOR w] by (simp add: wire_context_def)

lemma wire_context_length: "wire_context ctx \<noteq> ctx \<Longrightarrow> length (wire_context ctx) < length ctx"
  by (auto simp: wire_context_def split: option.splits dest!: split_once_SomeD)

lemma legacy_wire_fallback_Some:
  "legacy_wire_fallback channel = Some w \<Longrightarrow>
     \<exists>net. channel = scoped_context net w \<and> CONTEXT_NET_SEPARATOR \<notin> set net \<and> w = wire_context channel"
  by (auto simp: legacy_wire_fallback_def wire_context_def scoped_context_def Let_def
      split: if_splits option.splits dest!: split_once_SomeD)

lemma legacy_wire_fallback_unscoped:
  "CONTEXT_NET_SEPARATOR \<notin> set w \<Longrightarrow> legacy_wire_fallback w = None"
  by (simp add: legacy_wire_fallback_def)

section \<open>Properties\<close>

text \<open>Network scoping isolates conversations.  Two scoped contexts of network labels without
  the separator are equal only for the same network and the same wire context, so a key stored for
  \<open>#rust\<close> on one network is never found under \<open>#rust\<close> of another; and what leaves the process
  (the wire context) is exactly the unscoped name.\<close>

theorem scoped_context_isolates:
  assumes "CONTEXT_NET_SEPARATOR \<notin> set n1" "CONTEXT_NET_SEPARATOR \<notin> set n2"
  shows "(scoped_context n1 w1 = scoped_context n2 w2 \<longleftrightarrow> n1 = n2 \<and> w1 = w2)
    \<and> wire_context (scoped_context n1 w1) = w1"
proof -
  have "n1 = n2 \<and> w1 = w2" if "scoped_context n1 w1 = scoped_context n2 w2"
    using split_once_append [OF assms(1), of w1] split_once_append [OF assms(2), of w2] that
    unfolding scoped_context_def by (metis option.inject prod.inject append_Cons append_Nil)
  moreover have "wire_context (scoped_context n1 w1) = w1" by (rule wire_scoped [OF assms(1)])
  ultimately show ?thesis by blast
qed

theorem scoped_context_isolates_witness:
  "scoped_context ''libera'' ''#rust'' \<noteq> scoped_context ''oftc'' ''#rust''
    \<and> wire_context (scoped_context ''libera'' ''#rust'') = ''#rust''"
  using scoped_context_isolates [of "''libera''" "''oftc''" "''#rust''" "''#rust''"]
  by (simp add: CONTEXT_NET_SEPARATOR_def)

text \<open>A private conversation is keyed by the peer's server-stamped handle: two query targets
  share a context exactly when the handles are equal, whatever nicks were typed, and a query
  context is never the context of a channel.\<close>

theorem context_key_separates:
  assumes "\<not> is_channel_target t1" "\<not> is_channel_target t2" "is_channel_target c"
  shows "(context_key t1 h1 = context_key t2 h2 \<longleftrightarrow> h1 = h2) \<and> context_key c h1 = c
    \<and> context_key t1 h1 \<noteq> context_key c h2"
  using assms by (auto simp: context_key_def is_channel_target_def split: list.splits)

theorem context_key_separates_witness:
  "context_key ''bob'' ''~bob@home.example.org'' \<noteq> context_key ''bob'' ''~bob@vpn.example.org''
    \<and> context_key ''#rust'' ''~bob@b.host'' = ''#rust''"
  using context_key_separates [of "''bob''" "''bob''" "''#rust''"
      "''~bob@home.example.org''" "''~bob@vpn.example.org''"]
  by (simp add: is_channel_target_def context_key_def)

end
