(* ===== verification/Crates.thy ===== *)
theory Crates
  imports Rust_Num
begin

text \<open>
  The third-party crates the encryption module calls, as one record of functions that every
  definition using them takes as an argument: \<open>hex\<close>, \<open>base64\<close> (the standard and the URL-safe
  unpadded engine), \<open>chacha20poly1305\<close>, \<open>ed25519-dalek\<close>, \<open>x25519-dalek\<close>, \<open>hkdf\<close> and \<open>sha2\<close>.
  What the code relies on of them is stated as predicates, and one concrete instance shows that
  the predicates can hold together.
\<close>

record codecs =
  hex_encode :: "bytes \<Rightarrow> bytes"
  hex_decode :: "bytes \<Rightarrow> bytes option"
  b64_encode :: "bytes \<Rightarrow> bytes"
  b64_decode :: "bytes \<Rightarrow> bytes option"
  b64u_encode :: "bytes \<Rightarrow> bytes"
  b64u_decode :: "bytes \<Rightarrow> bytes option"

text \<open>
  \<open>aead_seal key nonce aad plaintext\<close> and \<open>aead_open key nonce aad ciphertext\<close> are
  XChaCha20-Poly1305; \<open>ed_public seed\<close>, \<open>ed_sign seed message\<close>, \<open>ed_verify pubkey message sig\<close>
  are Ed25519; \<open>x_public secret\<close> and \<open>x_dh secret public\<close> are X25519; \<open>hkdf salt shared info\<close>
  expands to 32 bytes; \<open>ed_pub_to_x\<close> and \<open>ed_seed_to_x\<close> are the RFC 7748 maps.
\<close>

record crypto = codecs +
  sha256 :: "bytes \<Rightarrow> bytes"
  aead_seal :: "bytes \<Rightarrow> bytes \<Rightarrow> bytes \<Rightarrow> bytes \<Rightarrow> bytes option"
  aead_open :: "bytes \<Rightarrow> bytes \<Rightarrow> bytes \<Rightarrow> bytes \<Rightarrow> bytes option"
  ed_public :: "bytes \<Rightarrow> bytes"
  ed_sign :: "bytes \<Rightarrow> bytes \<Rightarrow> bytes"
  ed_verify :: "bytes \<Rightarrow> bytes \<Rightarrow> bytes \<Rightarrow> bool"
  x_public :: "bytes \<Rightarrow> bytes"
  x_dh :: "bytes \<Rightarrow> bytes \<Rightarrow> bytes"
  hkdf :: "bytes \<Rightarrow> bytes \<Rightarrow> bytes \<Rightarrow> bytes"
  ed_pub_to_x :: "bytes \<Rightarrow> bytes option"
  ed_seed_to_x :: "bytes \<Rightarrow> bytes"

section \<open>What is relied on\<close>

definition graphic :: "bytes \<Rightarrow> bool" where
  "graphic s \<longleftrightarrow> (\<forall>c\<in>set s. 33 \<le> bval c \<and> bval c \<le> 126)"

text \<open>
  RFC 4648: decoding inverts encoding, the alphabets are printable ASCII without white space,
  \<open>:\<close> or \<open>/\<close>-free fields' separators, hex writes two digits per byte.
\<close>

definition hex_ok :: "'x codecs_scheme \<Rightarrow> bool" where
  "hex_ok cr \<longleftrightarrow>
     (\<forall>b. hex_decode cr (hex_encode cr b) = Some b) \<and>
     (\<forall>b. length (hex_encode cr b) = 2 * length b) \<and>
     (\<forall>b. graphic (hex_encode cr b)) \<and>
     (\<forall>s b. hex_decode cr s = Some b \<longrightarrow> length s = 2 * length b)"

definition b64_ok :: "'x codecs_scheme \<Rightarrow> bool" where
  "b64_ok cr \<longleftrightarrow>
     (\<forall>b. b64_decode cr (b64_encode cr b) = Some b) \<and>
     (\<forall>b. graphic (b64_encode cr b) \<and> CHR '':'' \<notin> set (b64_encode cr b))"

definition b64u_ok :: "'x codecs_scheme \<Rightarrow> bool" where
  "b64u_ok cr \<longleftrightarrow>
     (\<forall>b. b64u_decode cr (b64u_encode cr b) = Some b) \<and>
     (\<forall>b. graphic (b64u_encode cr b))"

lemma graphic_no_ws: "graphic s \<Longrightarrow> no_ws s"
  by (simp add: graphic_def no_ws_graphic)

lemma graphic_append [simp]: "graphic (s @ t) \<longleftrightarrow> graphic s \<and> graphic t"
  by (auto simp: graphic_def)

lemma graphic_Cons [simp]: "graphic (c # t) \<longleftrightarrow> 33 \<le> bval c \<and> bval c \<le> 126 \<and> graphic t"
  by (auto simp: graphic_def)

lemma graphic_Nil [simp]: "graphic []"
  by (simp add: graphic_def)

lemma graphic_show [simp]: "graphic (show_nat n)" "graphic (show_int i)"
  using show_nat_graphic show_int_graphic by (auto simp: graphic_def)

section \<open>A concrete instance\<close>

text \<open>Lower-case hexadecimal, as the \<open>hex\<close> crate writes it.\<close>

definition hex_digit :: "nat \<Rightarrow> byte" where
  "hex_digit d = byte_of (if d < 10 then d + 48 else d + 87)"

definition hex_value :: "byte \<Rightarrow> nat option" where
  "hex_value c =
     (if is_ascii_digit c then Some (bval c - 48)
      else if 97 \<le> bval c \<and> bval c \<le> 102 then Some (bval c - 87)
      else if 65 \<le> bval c \<and> bval c \<le> 70 then Some (bval c - 55)
      else None)"

fun hex_enc :: "bytes \<Rightarrow> bytes" where
  "hex_enc [] = []"
| "hex_enc (c # cs) = hex_digit (bval c div 16) # hex_digit (bval c mod 16) # hex_enc cs"

fun hex_dec :: "bytes \<Rightarrow> bytes option" where
  "hex_dec [] = Some []"
| "hex_dec [c] = None"
| "hex_dec (a # b # cs) =
     (case (hex_value a, hex_value b, hex_dec cs) of
        (Some x, Some y, Some r) \<Rightarrow> Some (byte_of (16 * x + y) # r)
      | _ \<Rightarrow> None)"

lemma hex_value_digit: "d < 16 \<Longrightarrow> hex_value (hex_digit d) = Some d"
  by (auto simp: hex_value_def hex_digit_def is_ascii_digit_def bval_byte_of)

lemma hex_digit_graphic:
  "d < 16 \<Longrightarrow> 48 \<le> bval (hex_digit d) \<and> bval (hex_digit d) \<le> 102 \<and> bval (hex_digit d) \<noteq> 58"
  by (auto simp: hex_digit_def bval_byte_of)

lemma byte_of_bval [simp]: "byte_of (bval c) = c"
  by (simp add: byte_of_def)

lemma bval_less [simp]: "bval c < 256"
  using of_char_mod_256 [of c, where ?'a = nat] by (metis mod_less_divisor zero_less_numeral)

lemma hex_dec_enc: "hex_dec (hex_enc b) = Some b"
  using bval_less by (induction b) (auto simp: hex_value_digit less_mult_imp_div_less)

lemma length_hex_enc: "length (hex_enc b) = 2 * length b"
  by (induction b) auto

lemma hex_enc_chars: "c \<in> set (hex_enc b) \<Longrightarrow> 48 \<le> bval c \<and> bval c \<le> 102 \<and> bval c \<noteq> 58"
proof (induction b)
  case (Cons x b)
  have "bval x div 16 < 16" using bval_less [of x] by (simp add: less_mult_imp_div_less)
  with Cons hex_digit_graphic [of "bval x div 16"] hex_digit_graphic [of "bval x mod 16"]
  show ?case by auto
qed simp

lemma hex_dec_length: "hex_dec s = Some b \<Longrightarrow> length s = 2 * length b"
  by (induction s arbitrary: b rule: hex_dec.induct) (auto split: option.splits)

text \<open>
  The cryptographic functions of the instance are stand-ins with the algebra the protocol needs
  (a sealed text opens under the same key, nonce and associated data only; a signature verifies
  for its signer and message only; both sides of an exchange derive one key).
\<close>

definition demo_seal :: "bytes \<Rightarrow> bytes \<Rightarrow> bytes \<Rightarrow> bytes \<Rightarrow> bytes option" where
  "demo_seal k n aad p = Some (be_bytes 4 (length k) @ k @ be_bytes 4 (length n) @ n
      @ be_bytes 4 (length aad) @ aad @ p)"

definition demo_open :: "bytes \<Rightarrow> bytes \<Rightarrow> bytes \<Rightarrow> bytes \<Rightarrow> bytes option" where
  "demo_open k n aad c = strip_prefix (be_bytes 4 (length k) @ k @ be_bytes 4 (length n) @ n
      @ be_bytes 4 (length aad) @ aad) c"

definition pad :: "nat \<Rightarrow> bytes \<Rightarrow> bytes" where
  "pad n b = take n (b @ replicate n (byte_of 0))"

definition demo :: crypto where
  "demo = \<lparr>hex_encode = hex_enc, hex_decode = hex_dec, b64_encode = hex_enc, b64_decode = hex_dec,
     b64u_encode = hex_enc, b64u_decode = hex_dec,
     sha256 = (\<lambda>b. pad 32 (drop 11 b)),
     aead_seal = demo_seal, aead_open = demo_open,
     ed_public = (\<lambda>seed. seed), ed_sign = (\<lambda>seed m. pad 64 seed),
     ed_verify = (\<lambda>pk m sig. sig = pad 64 pk),
     x_public = (\<lambda>s. s), x_dh = (\<lambda>s p. map2 (\<lambda>a b. byte_of (bval a + bval b)) s p),
     hkdf = (\<lambda>salt shared info. pad 32 shared),
     ed_pub_to_x = Some, ed_seed_to_x = (\<lambda>s. s)\<rparr>"

lemma demo_codecs [simp]: "hex_ok demo" "b64_ok demo" "b64u_ok demo"
  using hex_enc_chars hex_dec_enc length_hex_enc hex_dec_length
  by (fastforce simp: demo_def hex_ok_def b64_ok_def b64u_ok_def graphic_def)+

end
