(* ===== verification/E2e_Chunker.thy ===== *)
theory E2e_Chunker
  imports E2e_Context
begin

text \<open>
  The plaintext chunker (\<open>src/src/e2e/chunker.rs\<close>): a message is cut at UTF-8 boundaries into at
  most \<open>MAX_CHUNKS\<close> pieces of at most the given number of bytes.
\<close>

section \<open>Model\<close>

text \<open>The inner loop: step back from \<open>e\<close> to a character boundary, not below \<open>cursor\<close>.\<close>

fun walk_back :: "bytes \<Rightarrow> nat \<Rightarrow> nat \<Rightarrow> nat" where
  "walk_back s cursor e =
     (if e > cursor \<and> \<not> is_char_boundary s e then walk_back s cursor (e - 1) else e)"

declare walk_back.simps [simp del]

lemma walk_back_bounds: "cursor \<le> e \<Longrightarrow> cursor \<le> walk_back s cursor e \<and> walk_back s cursor e \<le> e"
  by (induction s cursor e rule: walk_back.induct) (subst (1 2) walk_back.simps, force)

function chunk_loop :: "bytes \<Rightarrow> nat \<Rightarrow> nat \<Rightarrow> bytes list \<Rightarrow> e2e_error + bytes list" where
  "chunk_loop s budget cursor chunks =
     (if cursor < length s then
        let e = walk_back s cursor (min (cursor + budget) (length s)) in
        if e = cursor then
          Inl (WireErr ''cannot split: single UTF-8 char exceeds chunk budget'')
        else let chunks' = chunks @ [take (e - cursor) (drop cursor s)] in
          if length chunks' > MAX_CHUNKS then Inl (ChunkLimit (min (length chunks') 255))
          else chunk_loop s budget e chunks'
      else if length chunks > MAX_CHUNKS then Inl (ChunkLimit (min (length chunks) 255))
      else Inr chunks)"
  by pat_completeness auto
termination
proof (relation "measure (\<lambda>(s, budget, cursor, chunks). length s - cursor)", goal_cases)
  case (2 s budget cursor chunks e chunks')
  then have "cursor \<le> e"
    using walk_back_bounds [of cursor "min (cursor + budget) (length s)" s] by simp
  with 2 show ?case by simp
qed simp

declare chunk_loop.simps [simp del]

definition split_plaintext_budget :: "bytes \<Rightarrow> nat \<Rightarrow> e2e_error + bytes list" where
  "split_plaintext_budget plaintext max_per_chunk =
     (if plaintext = [] then Inl (WireErr ''empty plaintext'')
      else chunk_loop plaintext max_per_chunk 0 [])"

definition split_plaintext :: "bytes \<Rightarrow> e2e_error + bytes list" where
  "split_plaintext plaintext = split_plaintext_budget plaintext MAX_PLAINTEXT_PER_CHUNK"

section \<open>Facts\<close>

lemma walk_back_boundary:
  "cursor \<le> e \<Longrightarrow> is_char_boundary s cursor \<Longrightarrow> is_char_boundary s (walk_back s cursor e)"
proof (induction s cursor e rule: walk_back.induct)
  case (1 s cursor e)
  then show ?case
    by (cases "e > cursor \<and> \<not> is_char_boundary s e") (auto simp: walk_back.simps [of s cursor e])
qed

lemma take_drop_split:
  "cursor \<le> e \<Longrightarrow> take cursor s @ take (e - cursor) (drop cursor s) = take e s"
  by (metis le_add_diff_inverse take_add)

text \<open>The loop invariant: the chunks so far are the consumed prefix, each within its bounds.\<close>

definition chunks_ok :: "bytes \<Rightarrow> nat \<Rightarrow> nat \<Rightarrow> bytes list \<Rightarrow> bool" where
  "chunks_ok s budget cursor chunks \<longleftrightarrow>
     cursor \<le> length s \<and> is_char_boundary s cursor \<and> concat chunks = take cursor s \<and>
     (\<forall>c\<in>set chunks. c \<noteq> [] \<and> length c \<le> budget \<and>
        (s \<noteq> [] \<longrightarrow> \<not> is_cont (hd s) \<longrightarrow> \<not> is_cont (hd c)) \<and> (utf8_valid s \<longrightarrow> utf8_valid c))"

lemma chunk_step_ok:
  assumes ok: "chunks_ok s budget cursor chunks" and c: "cursor < length s"
    and e: "e = walk_back s cursor (min (cursor + budget) (length s))" "e \<noteq> cursor"
  shows "chunks_ok s budget e (chunks @ [take (e - cursor) (drop cursor s)])" "cursor < e"
proof -
  from walk_back_bounds [of cursor "min (cursor + budget) (length s)" s] c e
  have le: "cursor < e" "e \<le> cursor + budget" "e \<le> length s" by auto
  have b: "is_char_boundary s e" using ok c e walk_back_boundary by (simp add: chunks_ok_def)
  let ?c = "take (e - cursor) (drop cursor s)"
  from le c have "hd ?c = s ! cursor" by (simp add: hd_drop_conv_nth)
  moreover have "cursor = 0 \<or> \<not> is_cont (s ! cursor)"
    using ok c by (auto simp: chunks_ok_def is_char_boundary_def)
  ultimately have "\<not> is_cont (hd s) \<Longrightarrow> \<not> is_cont (hd ?c)"
    using c by (auto simp: hd_conv_nth)
  moreover have "utf8_valid s \<Longrightarrow> utf8_valid ?c"
  proof -
    assume "utf8_valid s"
    then have v: "utf8_valid (drop cursor s)" using ok utf8_valid_cut by (simp add: chunks_ok_def)
    have "is_char_boundary (drop cursor s) (e - cursor)"
      using b le by (auto simp: is_char_boundary_def)
    with v show ?thesis using utf8_valid_cut by blast
  qed
  ultimately show "chunks_ok s budget e (chunks @ [?c])"
    using ok le b c
    by (auto simp: chunks_ok_def take_drop_split)
  show "cursor < e" by (rule le(1))
qed

lemma chunk_loop_ok:
  "chunk_loop s budget cursor chunks = Inr out \<Longrightarrow> chunks_ok s budget cursor chunks \<Longrightarrow>
     chunks_ok s budget (length s) out \<and> length out \<le> MAX_CHUNKS"
proof (induction s budget cursor chunks rule: chunk_loop.induct)
  case (1 s budget cursor chunks)
  show ?case
  proof (cases "cursor < length s")
    case True
    let ?e = "walk_back s cursor (min (cursor + budget) (length s))"
    let ?cs = "chunks @ [take (?e - cursor) (drop cursor s)]"
    from "1.prems"(1) True have ne: "?e \<noteq> cursor" and lim: "\<not> length ?cs > MAX_CHUNKS"
      and run: "chunk_loop s budget ?e ?cs = Inr out"
      by (auto simp: chunk_loop.simps [of s budget cursor chunks] Let_def split: if_splits)
    from "1.IH" [OF True refl ne refl lim run] chunk_step_ok(1) [OF "1.prems"(2) True refl ne]
    show ?thesis by blast
  next
    case False
    with "1.prems" show ?thesis
      by (auto simp: chunk_loop.simps [of s budget cursor chunks] chunks_ok_def split: if_splits)
  qed
qed

lemma split_plaintext_budget_ok:
  assumes "split_plaintext_budget pt budget = Inr out"
  shows "pt \<noteq> [] \<and> chunks_ok pt budget (length pt) out \<and> length out \<le> MAX_CHUNKS"
proof -
  from assms have "pt \<noteq> []" "chunk_loop pt budget 0 [] = Inr out"
    by (auto simp: split_plaintext_budget_def split: if_splits)
  with chunk_loop_ok [of pt budget 0 "[]" out] show ?thesis
    by (simp add: chunks_ok_def is_char_boundary_def)
qed

text \<open>
  Every character of a valid string has at most four bytes, so in any four successive offsets one
  is a boundary.
\<close>

definition short_chars :: "bytes \<Rightarrow> bool" where
  "short_chars s \<longleftrightarrow> (\<forall>i. i + 3 < length s \<longrightarrow>
     \<not> (is_cont (s ! i) \<and> is_cont (s ! (i + 1)) \<and> is_cont (s ! (i + 2)) \<and> is_cont (s ! (i + 3))))"

lemma walk_back_progress:
  assumes "short_chars s" "e \<le> length s" "cursor + 4 \<le> e"
  shows "e \<le> walk_back s cursor e + 3"
proof (rule ccontr)
  assume a: "\<not> ?thesis"
  have step: "walk_back s cursor k = walk_back s cursor (k - 1) \<and> k < length s \<and> is_cont (s ! k)"
    if "walk_back s cursor k < k" "cursor < k" "k \<le> length s" for k
    using that by (auto simp: walk_back.simps [of s cursor k] is_char_boundary_def split: if_splits)
  have 1: "walk_back s cursor e = walk_back s cursor (e - 1) \<and> e < length s \<and> is_cont (s ! e)"
    using step [of e] a assms by linarith
  have 2: "walk_back s cursor (e - 1) = walk_back s cursor (e - 2) \<and> is_cont (s ! (e - 1))"
    using step [of "e - 1"] 1 a assms by (auto simp: numeral_2_eq_2)
  have 3: "walk_back s cursor (e - 2) = walk_back s cursor (e - 3) \<and> is_cont (s ! (e - 2))"
    using step [of "e - 2"] 1 2 a assms by (auto simp: numeral_3_eq_3 numeral_2_eq_2)
  have 4: "is_cont (s ! (e - 3))"
    using step [of "e - 3"] 1 2 3 a assms by auto
  have "e - 3 + 1 = e - 2" "e - 3 + 2 = e - 1" "e - 3 + 3 = e" using assms(3) by auto
  with 1 2 3 4 assms(1) [unfolded short_chars_def, rule_format, of "e - 3"]
  show False by simp
qed

lemma walk_back_end: "walk_back s cursor (length s) = length s"
  by (simp add: walk_back.simps [of s cursor] is_char_boundary_def)

text \<open>Every chunk but the last takes at least \<open>budget - 3\<close> bytes.\<close>

lemma chunk_loop_succeeds:
  assumes "short_chars s" "4 \<le> budget" "is_char_boundary s cursor"
    "length s \<le> cursor + (MAX_CHUNKS - length chunks) * (budget - 3)"
    "length chunks \<le> MAX_CHUNKS"
  shows "\<exists>out. chunk_loop s budget cursor chunks = Inr out"
  using assms
proof (induction s budget cursor chunks rule: chunk_loop.induct)
  case (1 s budget cursor chunks)
  show ?case
  proof (cases "cursor < length s")
    case True
    let ?m = "min (cursor + budget) (length s)"
    let ?e = "walk_back s cursor ?m"
    let ?cs = "chunks @ [take (?e - cursor) (drop cursor s)]"
    have prog: "?e = length s \<or> cursor + budget \<le> ?e + 3"
    proof (cases "cursor + budget \<le> length s")
      case True
      then show ?thesis
        using walk_back_progress [of s "cursor + budget" cursor] "1.prems"(1,2) by simp
    qed (simp add: walk_back_end)
    have ne: "?e \<noteq> cursor" using prog True "1.prems"(2) by auto
    have room: "length chunks < MAX_CHUNKS"
      using True "1.prems"(4,5) by (cases "length chunks = MAX_CHUNKS") auto
    then have lim: "\<not> length ?cs > MAX_CHUNKS" by simp
    have bnd: "is_char_boundary s ?e" using walk_back_boundary "1.prems"(3) True by simp
    have left: "length s \<le> ?e + (MAX_CHUNKS - length ?cs) * (budget - 3)"
    proof -
      have "(MAX_CHUNKS - length chunks) * (budget - 3)
          = (budget - 3) + (MAX_CHUNKS - length ?cs) * (budget - 3)"
        using room by (simp add: Suc_diff_Suc flip: mult_Suc)
      then obtain k where k: "(MAX_CHUNKS - length ?cs) * (budget - 3) = k"
        "(MAX_CHUNKS - length chunks) * (budget - 3) = budget - 3 + k" by metis
      have "length s \<le> cursor + (budget - 3 + k)" using "1.prems"(4) k(2) by metis
      moreover have "cursor + (budget - 3 + k) \<le> ?e + k \<or> ?e = length s"
        using prog "1.prems"(2) by linarith
      ultimately show ?thesis unfolding k(1) by linarith
    qed
    from lim have "length ?cs \<le> MAX_CHUNKS" by simp
    with "1.IH" [OF True refl ne refl lim "1.prems"(1,2) bnd left] ne lim True show ?thesis
      by (simp add: chunk_loop.simps [of s budget cursor chunks] Let_def)
  next
    case False
    with "1.prems"(5) show ?thesis
      by (simp add: chunk_loop.simps [of s budget cursor chunks])
  qed
qed

section \<open>Properties\<close>

text \<open>C34: Chunking is lossless and within its limits: when \<open>split_plaintext_budget\<close> succeeds, the
  chunks concatenate to the message, each is non-empty, at most the budget long and a valid UTF-8
  string of its own (when the message is one), and there are between 1 and 16 of them.\<close>

theorem split_plaintext_budget_correct:
  assumes "split_plaintext_budget pt budget = Inr chunks"
  shows "concat chunks = pt \<and> chunks \<noteq> [] \<and> length chunks \<le> 16 \<and>
    (\<forall>c\<in>set chunks. c \<noteq> [] \<and> length c \<le> budget \<and> (utf8_valid pt \<longrightarrow> utf8_valid c))"
  using split_plaintext_budget_ok [OF assms]
  by (auto simp: chunks_ok_def MAX_CHUNKS_def)

theorem split_plaintext_budget_correct_witness:
  "split_plaintext_budget ''abcde'' 2 = Inr [''ab'', ''cd'', ''e''] \<and> concat [''ab'', ''cd'', ''e''] = ''abcde''"
proof -
  have r: "split_plaintext_budget ''abcde'' 2 = Inr [''ab'', ''cd'', ''e'']"
    by code_simp
  show ?thesis using split_plaintext_budget_correct [OF r] r by simp
qed

text \<open>C35: Chunking succeeds on every non-empty message whose characters have at most four bytes
  (every Rust string) and whose length is at most \<open>16 * (budget - 3)\<close> bytes, so the two error
  branches are reached only by empty or over-long messages; with the protocol's budget every
  message of up to 2832 bytes can be sent.\<close>

theorem split_plaintext_budget_total:
  assumes "pt \<noteq> []" "short_chars pt" "4 \<le> budget" "length pt \<le> 16 * (budget - 3)"
  shows "\<exists>chunks. split_plaintext_budget pt budget = Inr chunks"
  using assms chunk_loop_succeeds [of pt budget 0 "[]"]
  by (simp add: split_plaintext_budget_def is_char_boundary_def MAX_CHUNKS_def)

theorem split_plaintext_budget_total_witness:
  "\<exists>chunks. split_plaintext_budget ''hello, world'' 8 = Inr chunks"
proof (rule split_plaintext_budget_total)
  have "\<not> is_cont c" if "c \<in> set ''hello, world''" for c
    using that by (auto simp: is_cont_def)
  then show "short_chars ''hello, world''"
    unfolding short_chars_def by (metis add_lessD1 nth_mem)
qed simp_all

end
