(* ===== verification/E2e_Wire.thy ===== *)
theory E2e_Wire
  imports Crates E2e_Context
begin

text \<open>
  The wire format of an encrypted chunk (\<open>src/src/e2e/wire.rs\<close>),
  \<open>+RPE2E01 <msgid> <ts> <part>/<total> <nonce>:<ciphertext>\<close>, and the additional authenticated
  data that binds a ciphertext to its place.
\<close>

section \<open>Model\<close>

definition WIRE_PREFIX :: bytes where "WIRE_PREFIX = ''+RPE2E01''"

text \<open>The byte arrays \<open>[u8; 8]\<close> and \<open>[u8; 24]\<close> are byte strings; \<open>chunk_wf\<close> fixes their lengths.\<close>

record wire_chunk =
  w_msgid :: bytes
  w_ts :: int
  w_part :: nat
  w_total :: nat
  w_nonce :: bytes
  w_ciphertext :: bytes

definition encode :: "'x codecs_scheme \<Rightarrow> wire_chunk \<Rightarrow> e2e_error + bytes" where
  "encode cr c =
     (if w_total c = 0 \<or> w_total c > MAX_CHUNKS then Inl (ChunkLimit (w_total c))
      else if w_part c = 0 \<or> w_part c > w_total c then
        Inl (WireErr (''invalid part/total: '' @ show_nat (w_part c) @ ''/'' @ show_nat (w_total c)))
      else Inr (WIRE_PREFIX @ '' '' @ hex_encode cr (w_msgid c) @ '' '' @ show_int (w_ts c) @ '' ''
             @ show_nat (w_part c) @ ''/'' @ show_nat (w_total c) @ '' ''
             @ b64_encode cr (w_nonce c) @ '':'' @ b64_encode cr (w_ciphertext c)))"

text \<open>The four fields, in the order the parser asks the iterator for them.\<close>

fun wire_fields :: "bytes list \<Rightarrow> e2e_error + (bytes \<times> bytes \<times> bytes \<times> bytes)" where
  "wire_fields [] = Inl (WireErr ''missing msgid'')"
| "wire_fields [a] = Inl (WireErr ''missing ts'')"
| "wire_fields [a, b] = Inl (WireErr ''missing part/total'')"
| "wire_fields [a, b, c] = Inl (WireErr ''missing body'')"
| "wire_fields [a, b, c, d] = Inr (a, b, c, d)"
| "wire_fields (a # b # c # d # e # r) = Inl (WireErr ''extra fields'')"

definition parse_part_total :: "bytes \<Rightarrow> e2e_error + (nat \<times> nat)" where
  "parse_part_total parttot =
     rbind (ok_or (WireErr ''part/total missing slash'') (split_once (CHR ''/'') parttot)) (\<lambda>(p, t).
     rbind (map_err (\<lambda>e. WireErr (''bad part: '' @ int_error_text e)) (parse_u8 p)) (\<lambda>pt.
     rbind (map_err (\<lambda>e. WireErr (''bad total: '' @ int_error_text e)) (parse_u8 t)) (\<lambda>tot.
     if tot = 0 \<or> tot > MAX_CHUNKS \<or> pt = 0 \<or> pt > tot
     then Inl (WireErr (''bad part/total '' @ show_nat pt @ ''/'' @ show_nat tot))
     else Inr (pt, tot))))"

definition parse_body :: "'x codecs_scheme \<Rightarrow> bytes \<Rightarrow> e2e_error + (bytes \<times> bytes)" where
  "parse_body cr body =
     rbind (ok_or (WireErr ''missing nonce:ct separator'') (split_once (CHR '':'') body)) (\<lambda>(n, c).
     rbind (ok_or Base64Err (b64_decode cr n)) (\<lambda>nonce_vec.
     if length nonce_vec \<noteq> 24
     then Inl (WireErr (''nonce must be 24 bytes, got '' @ show_nat (length nonce_vec)))
     else rbind (ok_or Base64Err (b64_decode cr c)) (\<lambda>ct. Inr (nonce_vec, ct))))"

definition parse :: "'x codecs_scheme \<Rightarrow> bytes \<Rightarrow> e2e_error + wire_chunk option" where
  "parse cr line =
     (case strip_prefix WIRE_PREFIX line of
        None \<Rightarrow> Inr None
      | Some r \<Rightarrow>
          rbind (wire_fields (split_whitespace (trim_start r))) (\<lambda>(msgid_hex, ts_str, parttot, body).
          if length msgid_hex \<noteq> 16 then Inl (WireErr ''msgid must be 16 hex chars'')
          else
            rbind (ok_or HexErr (hex_decode cr msgid_hex)) (\<lambda>mid.
            rbind (map_err (\<lambda>e. WireErr (''bad ts: '' @ int_error_text e)) (parse_i64 ts_str)) (\<lambda>t.
            rbind (parse_part_total parttot) (\<lambda>(pt, tot).
            rbind (parse_body cr body) (\<lambda>(n, ct).
            Inr (Some \<lparr>w_msgid = mid, w_ts = t, w_part = pt, w_total = tot,
                       w_nonce = n, w_ciphertext = ct\<rparr>)))))))"

text \<open>\<open>u16::try_from(len).unwrap_or(u16::MAX)\<close> saturates.\<close>

definition build_aad :: "bytes \<Rightarrow> bytes \<Rightarrow> int \<Rightarrow> nat \<Rightarrow> nat \<Rightarrow> bytes" where
  "build_aad channel mid t pt tot =
     PROTO @ be16 (min (length channel) 65535) @ channel
       @ be16 8 @ mid @ be16 8 @ be64 t @ be16 1 @ [byte_of pt] @ be16 1 @ [byte_of tot]"

section \<open>Well-formed chunks\<close>

definition chunk_wf :: "wire_chunk \<Rightarrow> bool" where
  "chunk_wf c \<longleftrightarrow> length (w_msgid c) = 8 \<and> length (w_nonce c) = 24 \<and> in_i64 (w_ts c)
     \<and> 1 \<le> w_part c \<and> w_part c \<le> w_total c \<and> w_total c \<le> MAX_CHUNKS"

lemma split_once_digits: "split_once (CHR ''/'') (show_nat n @ CHR ''/'' # t) = Some (show_nat n, t)"
proof (rule split_once_append)
  show "CHR ''/'' \<notin> set (show_nat n)" using show_nat_digits [of "CHR ''/''" n] by auto
qed

lemma parse_part_total_show:
  "1 \<le> p \<Longrightarrow> p \<le> t \<Longrightarrow> t \<le> MAX_CHUNKS \<Longrightarrow>
     parse_part_total (show_nat p @ CHR ''/'' # show_nat t) = Inr (p, t)"
  by (simp add: parse_part_total_def split_once_digits parse_u8_show MAX_CHUNKS_def)

lemma parse_body_encode:
  assumes "b64_ok cr" "length n = 24"
  shows "parse_body cr (b64_encode cr n @ CHR '':'' # b64_encode cr ct) = Inr (n, ct)"
  using assms by (simp add: parse_body_def b64_ok_def split_once_append)

lemma parse_part_total_Inr:
  "parse_part_total s = Inr (p, t) \<Longrightarrow> 1 \<le> p \<and> p \<le> t \<and> t \<le> MAX_CHUNKS"
  by (auto simp: parse_part_total_def result_Inr split: if_splits prod.splits)

lemma parse_body_Inr: "parse_body cr s = Inr (n, ct) \<Longrightarrow> length n = 24"
  by (auto simp: parse_body_def result_Inr split: if_splits prod.splits)

lemma graphic_msgid_nonempty: "hex_ok cr \<Longrightarrow> length m = 8 \<Longrightarrow> hex_encode cr m \<noteq> []"
  by (auto simp: hex_ok_def dest!: spec [of _ m])

lemma wire_fields_encode:
  assumes "graphic a" "a \<noteq> []" "graphic b" "b \<noteq> []" "graphic c" "c \<noteq> []" "graphic d" "d \<noteq> []"
  shows "wire_fields (split_whitespace (trim_start
    (CHR '' '' # a @ CHR '' '' # b @ CHR '' '' # c @ CHR '' '' # d))) = Inr (a, b, c, d)"
proof -
  obtain x xs where a: "a = x # xs" using assms(2) by (cases a) auto
  have "no_ws (a @ CHR '' '' # [])  \<or> ws_len (x # xs @ CHR '' '' # b @ CHR '' '' # c @ CHR '' '' # d) = 0"
    using graphic_no_ws [OF assms(1)] a by (simp add: ws_len_before_space)
  then have "trim_start (CHR '' '' # a @ CHR '' '' # b @ CHR '' '' # c @ CHR '' '' # d)
      = a @ CHR '' '' # b @ CHR '' '' # c @ CHR '' '' # d"
    using graphic_no_ws [OF assms(1)] a by (simp add: ws_len_before_space)
  with assms show ?thesis by (simp add: rstr graphic_no_ws)
qed

lemma parse_encode:
  assumes "hex_ok cr" "b64_ok cr" "chunk_wf c"
  shows "\<exists>line. encode cr c = Inr line \<and> parse cr line = Inr (Some c)"
proof -
  have g: "graphic (hex_encode cr (w_msgid c))" "hex_encode cr (w_msgid c) \<noteq> []"
    "length (hex_encode cr (w_msgid c)) = 16" "hex_decode cr (hex_encode cr (w_msgid c)) = Some (w_msgid c)"
    using assms graphic_msgid_nonempty [of cr "w_msgid c"] by (auto simp: hex_ok_def chunk_wf_def)
  have b: "graphic (show_nat (w_part c) @ CHR ''/'' # show_nat (w_total c))"
    "graphic (b64_encode cr (w_nonce c) @ CHR '':'' # b64_encode cr (w_ciphertext c))"
    using assms(2) by (auto simp: b64_ok_def)
  note f = wire_fields_encode [OF g(1,2) graphic_show(2) show_int_nonempty b(1) _ b(2), simplified]
  have w: "1 \<le> w_part c" "w_part c \<le> w_total c" "w_total c \<le> MAX_CHUNKS" "length (w_nonce c) = 24"
    "in_i64 (w_ts c)"
    using assms(3) by (auto simp: chunk_wf_def)
  have t: "parse_i64 (show_int (w_ts c)) = Inr (w_ts c)"
    using w(5) by (simp add: parse_i64_show in_i64_def)
  show ?thesis
    using w t g f parse_part_total_show [OF w(1-3)] parse_body_encode [OF assms(2) w(4)]
    by (auto simp: encode_def parse_def)
qed

lemma parse_wf:
  assumes "hex_ok cr" "parse cr line = Inr (Some c)"
  shows "chunk_wf c \<and> (\<exists>rest. line = WIRE_PREFIX @ rest)"
proof -
  from assms(2) obtain r a b d e where r: "line = WIRE_PREFIX @ r" "length a = 16"
    and h: "hex_decode cr a = Some (w_msgid c)" and i: "parse_i64 b = Inr (w_ts c)"
    and p: "parse_part_total d = Inr (w_part c, w_total c)" and n: "parse_body cr e = Inr (w_nonce c, w_ciphertext c)"
    by (auto simp: parse_def result_Inr strip_prefix_Some split: option.splits if_splits prod.splits)
  have "length (w_msgid c) = 8" using assms(1) h r(2) unfolding hex_ok_def by fastforce
  with r parse_i64_range [OF i] parse_part_total_Inr [OF p] parse_body_Inr [OF n]
  show ?thesis by (auto simp: chunk_wf_def in_i64_def)
qed

section \<open>Properties\<close>

text \<open>C29: Round trip of the wire format: every well-formed chunk (eight-byte message id, 24-byte
  nonce, a timestamp of 64 bits, \<open>1 \<le> part \<le> total \<le> 16\<close>) is encoded without error and the line
  is parsed back to the same chunk.\<close>

theorem wire_roundtrip:
  assumes "hex_ok cr" "b64_ok cr" "chunk_wf c"
  shows "\<exists>line. encode cr c = Inr line \<and> parse cr line = Inr (Some c)"
  by (rule parse_encode [OF assms])

definition sample_chunk :: wire_chunk where
  "sample_chunk = \<lparr>w_msgid = ''01234567'', w_ts = 1700000000, w_part = 2, w_total = 3,
     w_nonce = ''abcdefghijklmnopqrstuvwx'', w_ciphertext = ''secret''\<rparr>"

theorem wire_roundtrip_witness:
  "\<exists>line. encode demo sample_chunk = Inr line \<and> parse demo line = Inr (Some sample_chunk)"
  by (rule wire_roundtrip)
    (simp_all add: chunk_wf_def sample_chunk_def in_i64_def MAX_CHUNKS_def)

text \<open>The parser accepts only well-formed chunks, so everything behind it may rely on
  \<open>1 \<le> part \<le> total \<le> 16\<close>, the array lengths and the timestamp's range; and a line without the
  magic prefix is reported as plain text, never as an error.\<close>

theorem wire_parse_sound:
  assumes "hex_ok cr"
  shows "(parse cr line = Inr (Some c) \<longrightarrow> chunk_wf c \<and> (\<exists>rest. line = WIRE_PREFIX @ rest))
    \<and> ((\<nexists>rest. line = WIRE_PREFIX @ rest) \<longrightarrow> parse cr line = Inr None)"
proof
  show "parse cr line = Inr (Some c) \<longrightarrow> chunk_wf c \<and> (\<exists>rest. line = WIRE_PREFIX @ rest)"
    using parse_wf [OF assms] by blast
  show "(\<nexists>rest. line = WIRE_PREFIX @ rest) \<longrightarrow> parse cr line = Inr None"
    by (auto simp: parse_def strip_prefix_Some split: option.splits)
qed

theorem wire_parse_sound_witness:
  "parse demo ''hello there'' = Inr None
    \<and> (\<exists>line rest. parse demo line = Inr (Some sample_chunk) \<and> line = ''+RPE2E01'' @ rest)"
proof
  have "\<nexists>rest. ''hello there'' = WIRE_PREFIX @ rest" by (simp add: WIRE_PREFIX_def)
  then show "parse demo ''hello there'' = Inr None"
    using wire_parse_sound [of demo "''hello there''"] by simp
  have "chunk_wf sample_chunk"
    by (simp add: chunk_wf_def sample_chunk_def in_i64_def MAX_CHUNKS_def)
  then obtain line where "parse demo line = Inr (Some sample_chunk)"
    using parse_encode [of demo sample_chunk] by auto
  moreover from this obtain rest where "line = WIRE_PREFIX @ rest"
    using wire_parse_sound [of demo line sample_chunk] by auto
  ultimately show "\<exists>line rest. parse demo line = Inr (Some sample_chunk) \<and> line = ''+RPE2E01'' @ rest"
    by (auto simp: WIRE_PREFIX_def)
qed

text \<open>The additional data binds everything outside the ciphertext: two chunks have the same
  additional data only when channel, message id, timestamp, part and total are all equal, whatever
  bytes an attacker puts into the channel name.\<close>

theorem build_aad_injective:
  assumes "length m1 = 8" "length m2 = 8" "in_i64 t1" "in_i64 t2"
    "p1 < 256" "p2 < 256" "n1 < 256" "n2 < 256"
    "build_aad ch1 m1 t1 p1 n1 = build_aad ch2 m2 t2 p2 n2"
  shows "ch1 = ch2 \<and> m1 = m2 \<and> t1 = t2 \<and> p1 = p2 \<and> n1 = n2"
proof -
  from assms(9) have "length (build_aad ch1 m1 t1 p1 n1) = length (build_aad ch2 m2 t2 p2 n2)" by simp
  then have "length ch1 = length ch2" using assms(1,2) by (simp add: build_aad_def)
  with assms have "ch1 = ch2" "m1 = m2" "be64 t1 = be64 t2" "byte_of p1 = byte_of p2"
    "byte_of n1 = byte_of n2"
    by (simp_all add: build_aad_def)
  with assms show ?thesis using be64_inj byte_of_inj by blast
qed

theorem build_aad_injective_witness:
  "build_aad ''#a'' ''01234567'' 5 1 2 \<noteq> build_aad ''#a'' ''01234567'' 5 2 2"
  using build_aad_injective [of "''01234567''" "''01234567''" 5 5 1 2 2 2 "''#a''" "''#a''"]
  by (auto simp: in_i64_def)

end
