(* ===== verification/Limiter.thy ===== *)
theory Limiter
  imports Rust_Map
begin

text \<open>
  The contract of a rate limiter that keeps one slot of state per key (a peer, a sender): a call
  at a time is accepted or rejected, and leaves the slots of the other keys meaning what they meant.  Whatever the slot holds, the
  accepted calls of a key are spaced: the \<open>k\<close>-th next one is at least \<open>gap\<close> later.
\<close>

section \<open>Runs of a limiter\<close>

fun limiter_run ::
  "(nat \<Rightarrow> 'h \<Rightarrow> 'm \<Rightarrow> bool \<times> 'm) \<Rightarrow> 'm \<Rightarrow> (nat \<times> 'h) list \<Rightarrow> (nat \<times> 'h) list" where
  "limiter_run step m [] = []"
| "limiter_run step m ((now, h) # es) =
     (case step now h m of (ok, m') \<Rightarrow>
        (if ok then [(now, h)] else []) @ limiter_run step m' es)"

definition accepted_times :: "'h \<Rightarrow> (nat \<times> 'h) list \<Rightarrow> nat list" where
  "accepted_times h evs = map fst (filter (\<lambda>e. snd e = h) evs)"

definition spaced :: "nat \<Rightarrow> nat \<Rightarrow> nat list \<Rightarrow> bool" where
  "spaced k gap xs \<longleftrightarrow> (\<forall>i. i + k < length xs \<longrightarrow> xs ! i + gap \<le> xs ! (i + k))"

lemma accepted_times_simps [simp]:
  "accepted_times h [] = []"
  "accepted_times h ((t, j) # evs) = (if j = h then [t] else []) @ accepted_times h evs"
  "accepted_times h (xs @ ys) = accepted_times h xs @ accepted_times h ys"
  by (auto simp: accepted_times_def)

lemma spaced_Nil [simp]: "spaced k gap []"
  by (simp add: spaced_def)

lemma spaced_snoc:
  assumes "spaced k gap xs" "0 < k" "k \<le> length xs \<Longrightarrow> xs ! (length xs - k) + gap \<le> x"
  shows "spaced k gap (xs @ [x])"
  unfolding spaced_def
proof (intro allI impI)
  fix i assume i: "i + k < length (xs @ [x])"
  show "(xs @ [x]) ! i + gap \<le> (xs @ [x]) ! (i + k)"
  proof (cases "i + k < length xs")
    case True
    with assms(1) show ?thesis by (simp add: spaced_def nth_append)
  next
    case False
    with i have "i + k = length xs" by simp
    then have "i = length xs - k" "k \<le> length xs" "i < length xs" using assms(2) by auto
    with assms(3) \<open>i + k = length xs\<close> show ?thesis by (simp add: nth_append)
  qed
qed

section \<open>The contract\<close>

text \<open>\<open>rel acc t s\<close>: the slot \<open>s\<close> represents the accepted times \<open>acc\<close>, the last call being at \<open>t\<close>.\<close>

locale keyed_limiter =
  fixes inv :: "'m \<Rightarrow> bool"
    and step :: "nat \<Rightarrow> 'h \<Rightarrow> 'm \<Rightarrow> bool \<times> 'm"
    and slot :: "'m \<Rightarrow> 'h \<Rightarrow> 's"
    and rel :: "nat list \<Rightarrow> nat \<Rightarrow> 's \<Rightarrow> bool"
    and k :: nat and gap :: nat
  assumes k_pos: "0 < k"
    and keep: "inv m \<Longrightarrow> step now h m = (ok, m') \<Longrightarrow> inv m'"
    and other: "inv m \<Longrightarrow> rel acc t (slot m j) \<Longrightarrow> t \<le> now \<Longrightarrow> step now h m = (ok, m') \<Longrightarrow> j \<noteq> h \<Longrightarrow>
          rel acc now (slot m' j)"
    and accept: "inv m \<Longrightarrow> rel acc t (slot m h) \<Longrightarrow> t \<le> now \<Longrightarrow> step now h m = (True, m') \<Longrightarrow>
          rel (acc @ [now]) now (slot m' h) \<and> (k \<le> length acc \<longrightarrow> acc ! (length acc - k) + gap \<le> now)"
    and reject: "inv m \<Longrightarrow> rel acc t (slot m h) \<Longrightarrow> t \<le> now \<Longrightarrow> step now h m = (False, m') \<Longrightarrow>
          rel acc now (slot m' h)"
begin

lemma run_spaced:
  "inv m \<Longrightarrow> rel acc t (slot m h) \<Longrightarrow> spaced k gap acc \<Longrightarrow> \<forall>e\<in>set evs. t \<le> fst e \<Longrightarrow>
     sorted (map fst evs) \<Longrightarrow> spaced k gap (acc @ accepted_times h (limiter_run step m evs))"
proof (induction evs arbitrary: acc t m)
  case (Cons e es)
  obtain now j where e: "e = (now, j)" by force
  obtain ok m' where st: "step now j m = (ok, m')" by force
  have inv': "inv m'" using keep [OF Cons.prems(1) st] .
  from Cons.prems e have le: "t \<le> now" and later: "\<forall>e\<in>set es. now \<le> fst e" "\<forall>e\<in>set es. t \<le> fst e"
    and so: "sorted (map fst es)"
    by auto
  show ?case
  proof (cases "j = h")
    case False
    then have "rel acc now (slot m' h)" using other [OF Cons.prems(1,2) le st] by simp
    from Cons.IH [OF inv' this Cons.prems(3) later(1) so] False st e show ?thesis by simp
  next
    case True
    show ?thesis
    proof (cases ok)
      case acc: True
      with accept [OF Cons.prems(1,2) le] st True
      have r: "rel (acc @ [now]) now (slot m' h)"
        and g: "k \<le> length acc \<longrightarrow> acc ! (length acc - k) + gap \<le> now" by auto
      have "spaced k gap (acc @ [now])" using spaced_snoc [OF Cons.prems(3) k_pos] g by blast
      from Cons.IH [OF inv' r this later(1) so] True acc st e show ?thesis by simp
    next
      case rej: False
      with reject [OF Cons.prems(1,2) le] st True have "rel acc now (slot m' h)" by auto
      from Cons.IH [OF inv' this Cons.prems(3) later(1) so] True rej st e show ?thesis by simp
    qed
  qed
qed simp

lemma run_spaced_fresh:
  "inv m \<Longrightarrow> rel [] t (slot m h) \<Longrightarrow> sorted (map fst evs) \<Longrightarrow> \<forall>e\<in>set evs. t \<le> fst e \<Longrightarrow>
     spaced k gap (accepted_times h (limiter_run step m evs))"
  using run_spaced [of m "[]" t h evs] by simp

end

end
