(* ===== verification/E2e_Rate_Limiter.thy ===== *)
theory E2e_Rate_Limiter
  imports Limiter Rust_Time
begin

text \<open>
  The handshake rate limiter (\<open>RateLimiter\<close> in \<open>src/src/e2e/handshake.rs\<close>): a minimum gap
  between outgoing KEYREQs to a peer, and for incoming ones a sliding window that puts a peer
  over its limit into a backoff.  An \<open>Instant\<close> is its distance in nanoseconds from the monotonic
  clock's origin; the call's \<open>Instant::now()\<close> is an argument.
\<close>

section \<open>Model\<close>

definition RATE_LIMIT_WINDOW :: nat where "RATE_LIMIT_WINDOW = secs 30"
definition INCOMING_WINDOW :: nat where "INCOMING_WINDOW = secs 60"
definition INCOMING_MAX_PER_WINDOW :: nat where "INCOMING_MAX_PER_WINDOW = 3"
definition INCOMING_BACKOFF :: nat where "INCOMING_BACKOFF = secs 300"

record incoming_bucket =
  recent :: "nat list"
  backoff_until :: "nat option"

record rate_limiter =
  last_sent :: "(char list, nat) hmap"
  incoming :: "(char list, incoming_bucket) hmap"

definition limiter_new :: rate_limiter where
  "limiter_new = \<lparr>last_sent = [], incoming = []\<rparr>"

text \<open>\<open>duration_since\<close> saturates at zero, as subtraction on \<open>nat\<close> does.\<close>

definition allow_outgoing :: "nat \<Rightarrow> char list \<Rightarrow> rate_limiter \<Rightarrow> bool \<times> rate_limiter" where
  "allow_outgoing now peer_handle l =
     (case hm_get (last_sent l) peer_handle of
        Some t \<Rightarrow>
          if now - t < RATE_LIMIT_WINDOW then (False, l)
          else (True, l\<lparr>last_sent := hm_put peer_handle now (last_sent l)\<rparr>)
      | None \<Rightarrow> (True, l\<lparr>last_sent := hm_put peer_handle now (last_sent l)\<rparr>))"

definition incoming_step :: "nat \<Rightarrow> incoming_bucket \<Rightarrow> bool \<times> incoming_bucket" where
  "incoming_step now b =
     (if (case backoff_until b of Some u \<Rightarrow> now < u | None \<Rightarrow> False) then (False, b)
      else
        let b1 = (if backoff_until b = None then b else b\<lparr>backoff_until := None, recent := []\<rparr>);
            kept = dropWhile (\<lambda>front. now - front > INCOMING_WINDOW) (recent b1)
        in if length kept \<ge> INCOMING_MAX_PER_WINDOW
           then (False, b1\<lparr>recent := kept, backoff_until := Some (now + INCOMING_BACKOFF)\<rparr>)
           else (True, b1\<lparr>recent := kept @ [now]\<rparr>))"

definition bucket_of :: "rate_limiter \<Rightarrow> char list \<Rightarrow> incoming_bucket" where
  "bucket_of l h = (case hm_get (incoming l) h of
      None \<Rightarrow> \<lparr>recent = [], backoff_until = None\<rparr> | Some b \<Rightarrow> b)"

definition allow_incoming :: "nat \<Rightarrow> char list \<Rightarrow> rate_limiter \<Rightarrow> bool \<times> rate_limiter" where
  "allow_incoming now peer_handle l =
     (case incoming_step now (bucket_of l peer_handle) of
        (ok, b) \<Rightarrow> (ok, l\<lparr>incoming := hm_put peer_handle b (incoming l)\<rparr>))"

section \<open>The limiters keep the contract\<close>

definition out_rel :: "nat list \<Rightarrow> nat \<Rightarrow> nat option \<Rightarrow> bool" where
  "out_rel acc t s \<longleftrightarrow> (acc = [] \<and> s = None) \<or> (acc \<noteq> [] \<and> s = Some (last acc) \<and> last acc \<le> t)"

interpretation outgoing: keyed_limiter "\<lambda>_. True" allow_outgoing "\<lambda>l. hm_get (last_sent l)" out_rel 1 RATE_LIMIT_WINDOW
proof unfold_locales
  fix acc t m j now h ok m'
  assume a: "out_rel acc t (hm_get (last_sent m) j)" "t \<le> now" "allow_outgoing now h m = (ok, m')" "j \<noteq> h"
  then have "hm_get (last_sent m') j = hm_get (last_sent m) j"
    by (auto simp: allow_outgoing_def rmap split: option.splits if_splits)
  with a show "out_rel acc now (hm_get (last_sent m') j)" by (auto simp: out_rel_def)
next
  fix acc t m h now m'
  assume "out_rel acc t (hm_get (last_sent m) h)" "t \<le> now" "allow_outgoing now h m = (True, m')"
  then show "out_rel (acc @ [now]) now (hm_get (last_sent m') h) \<and>
      (1 \<le> length acc \<longrightarrow> acc ! (length acc - 1) + RATE_LIMIT_WINDOW \<le> now)"
    by (auto simp: allow_outgoing_def out_rel_def rmap last_conv_nth split: option.splits if_splits)
next
  fix acc t m h now m'
  assume "out_rel acc t (hm_get (last_sent m) h)" "t \<le> now" "allow_outgoing now h m = (False, m')"
  then show "out_rel acc now (hm_get (last_sent m') h)"
    by (auto simp: allow_outgoing_def out_rel_def split: option.splits if_splits)
qed simp

text \<open>
  The window holds the accepted times but for a prefix older than the window; during a backoff
  every accepted time is at least the backoff before its end.
\<close>

definition in_rel :: "nat list \<Rightarrow> nat \<Rightarrow> incoming_bucket \<Rightarrow> bool" where
  "in_rel acc t b \<longleftrightarrow>
     (\<exists>pre. acc = pre @ recent b \<and> (\<forall>a\<in>set pre. a + INCOMING_WINDOW < t)) \<and>
     (\<forall>a\<in>set acc. a \<le> t) \<and>
     (\<forall>u a. backoff_until b = Some u \<longrightarrow> a \<in> set acc \<longrightarrow> a + INCOMING_BACKOFF \<le> u)"

lemma in_rel_evict:
  assumes "in_rel acc t b" "t \<le> now" "kept = dropWhile (\<lambda>f. now - f > INCOMING_WINDOW) (recent b)"
  obtains pre where "acc = pre @ kept" "\<forall>a\<in>set pre. a + INCOMING_WINDOW < now"
proof -
  let ?P = "\<lambda>f. now - f > INCOMING_WINDOW"
  from assms(1) obtain pre where p: "acc = pre @ recent b" "\<forall>a\<in>set pre. a + INCOMING_WINDOW < t"
    by (auto simp: in_rel_def)
  have "acc = (pre @ takeWhile ?P (recent b)) @ kept" using p(1) assms(3) by simp
  moreover have "\<forall>a\<in>set (pre @ takeWhile ?P (recent b)). a + INCOMING_WINDOW < now"
    using p(2) assms(2) by (auto dest!: set_takeWhileD)
  ultimately show thesis by (rule that)
qed

text \<open>What the step sees of a bucket whose backoff is over: an empty window.\<close>

lemma in_rel_expired:
  assumes "in_rel acc t b" "t \<le> now" "backoff_until b = Some u" "\<not> now < u"
  shows "in_rel acc now (b\<lparr>backoff_until := None, recent := []\<rparr>)"
  using assms by (fastforce simp: in_rel_def INCOMING_BACKOFF_def INCOMING_WINDOW_def secs_def)

lemma incoming_step_rel:
  assumes r: "in_rel acc t b" and le: "t \<le> now" and st: "incoming_step now b = (ok, b')"
  shows "in_rel (if ok then acc @ [now] else acc) now b' \<and>
    (ok \<longrightarrow> 3 \<le> length acc \<longrightarrow> acc ! (length acc - 3) + (INCOMING_WINDOW + 1) \<le> now)"
proof (cases "case backoff_until b of Some u \<Rightarrow> now < u | None \<Rightarrow> False")
  case True
  with st r le show ?thesis by (fastforce simp: incoming_step_def in_rel_def)
next
  case False
  define b1 where "b1 = (if backoff_until b = None then b else b\<lparr>backoff_until := None, recent := []\<rparr>)"
  define kept where "kept = dropWhile (\<lambda>f. now - f > INCOMING_WINDOW) (recent b1)"
  have r1: "in_rel acc now b1 \<and> backoff_until b1 = None"
  proof (cases "backoff_until b")
    case None
    with r le show ?thesis by (fastforce simp: b1_def in_rel_def)
  next
    case (Some u)
    with False in_rel_expired [OF r le Some] show ?thesis by (simp add: b1_def)
  qed
  obtain pre where pre: "acc = pre @ kept" "\<forall>a\<in>set pre. a + INCOMING_WINDOW < now"
    using in_rel_evict [of acc now b1 now kept] r1 by (auto simp: kept_def)
  have all: "\<forall>a\<in>set acc. a \<le> now" using r1 by (simp add: in_rel_def)
  show ?thesis
  proof (cases "length kept \<ge> INCOMING_MAX_PER_WINDOW")
    case True
    with False st have "ok = False" "b' = b1\<lparr>recent := kept, backoff_until := Some (now + INCOMING_BACKOFF)\<rparr>"
      by (auto simp: incoming_step_def b1_def kept_def Let_def)
    with pre all show ?thesis by (auto simp: in_rel_def)
  next
    case small: False
    with False st have ok: "ok" "b' = b1\<lparr>recent := kept @ [now]\<rparr>"
      by (auto simp: incoming_step_def b1_def kept_def Let_def)
    have "acc ! (length acc - 3) + INCOMING_WINDOW < now" if l: "3 \<le> length acc"
    proof -
      have "length acc - 3 < length pre" using small pre(1) l by (simp add: INCOMING_MAX_PER_WINDOW_def)
      then show ?thesis using pre by (simp add: nth_append)
    qed
    with ok pre all r1 show ?thesis by (fastforce simp: in_rel_def)
  qed
qed

lemma in_rel_later: "in_rel acc t b \<Longrightarrow> t \<le> now \<Longrightarrow> in_rel acc now b"
  unfolding in_rel_def by fastforce

lemma allow_incoming_other:
  "allow_incoming now h m = (ok, m') \<Longrightarrow> j \<noteq> h \<Longrightarrow> bucket_of m' j = bucket_of m j"
  by (auto simp: allow_incoming_def bucket_of_def rmap split: prod.splits)

interpretation inc: keyed_limiter "\<lambda>_. True" allow_incoming bucket_of in_rel 3 "INCOMING_WINDOW + 1"
proof unfold_locales
  fix acc t m j now h ok m'
  assume a: "in_rel acc t (bucket_of m j)" "t \<le> now" "allow_incoming now h m = (ok, m')" "j \<noteq> h"
  then show "in_rel acc now (bucket_of m' j)" by (simp add: allow_incoming_other in_rel_later)
next
  fix acc t m h now m'
  assume a: "in_rel acc t (bucket_of m h)" "t \<le> now" "allow_incoming now h m = (True, m')"
  then obtain b where b: "incoming_step now (bucket_of m h) = (True, b)" "bucket_of m' h = b"
    by (auto simp: allow_incoming_def bucket_of_def rmap split: prod.splits)
  then show "in_rel (acc @ [now]) now (bucket_of m' h) \<and>
      (3 \<le> length acc \<longrightarrow> acc ! (length acc - 3) + (INCOMING_WINDOW + 1) \<le> now)"
    using incoming_step_rel [OF a(1,2) b(1)] by simp
next
  fix acc t m h now m'
  assume a: "in_rel acc t (bucket_of m h)" "t \<le> now" "allow_incoming now h m = (False, m')"
  then obtain b where b: "incoming_step now (bucket_of m h) = (False, b)" "bucket_of m' h = b"
    by (auto simp: allow_incoming_def bucket_of_def rmap split: prod.splits)
  then show "in_rel acc now (bucket_of m' h)"
    using incoming_step_rel [OF a(1,2) b(1)] by simp
qed simp

lemma backoff_rejects:
  "backoff_until (bucket_of l h) = Some u \<Longrightarrow> now < u \<Longrightarrow>
     fst (allow_incoming now h l) = False \<and> bucket_of (snd (allow_incoming now h l)) h = bucket_of l h"
  by (simp add: allow_incoming_def incoming_step_def bucket_of_def rmap)

section \<open>Properties\<close>

text \<open>C32: Over any sequence of incoming KEYREQs at non-decreasing times, from any peers in any
  interleaving, the limiter accepts at most three of one peer in any 60 seconds: the third next
  accepted call after an accepted one comes more than 60 s later.\<close>

theorem incoming_rate_bounded:
  assumes "sorted (map fst evs)"
  shows "spaced 3 (INCOMING_WINDOW + 1) (accepted_times h (limiter_run allow_incoming limiter_new evs))"
  by (rule inc.run_spaced_fresh [where t = 0])
    (simp_all add: assms in_rel_def bucket_of_def limiter_new_def)

theorem incoming_rate_bounded_witness:
  "spaced 3 (INCOMING_WINDOW + 1)
     (accepted_times ''~m@evil'' (limiter_run allow_incoming limiter_new
        [(secs 1, ''~m@evil''), (secs 2, ''~b@ok''), (secs 3, ''~m@evil''), (secs 4, ''~m@evil''),
         (secs 5, ''~m@evil'')]))
   \<and> limiter_run allow_incoming limiter_new
        [(1, ''m''), (2, ''m''), (3, ''b''), (4, ''m''), (5, ''m''), (6, ''b'')]
      = [(1, ''m''), (2, ''m''), (3, ''b''), (4, ''m''), (6, ''b'')]"
proof
  show "spaced 3 (INCOMING_WINDOW + 1)
     (accepted_times ''~m@evil'' (limiter_run allow_incoming limiter_new
        [(secs 1, ''~m@evil''), (secs 2, ''~b@ok''), (secs 3, ''~m@evil''), (secs 4, ''~m@evil''),
         (secs 5, ''~m@evil'')]))"
    by (rule incoming_rate_bounded) (simp add: secs_def)
  show "limiter_run allow_incoming limiter_new
        [(1, ''m''), (2, ''m''), (3, ''b''), (4, ''m''), (5, ''m''), (6, ''b'')]
      = [(1, ''m''), (2, ''m''), (3, ''b''), (4, ''m''), (6, ''b'')]"
    by (simp add: limiter_new_def allow_incoming_def bucket_of_def incoming_step_def rmap
        INCOMING_WINDOW_def INCOMING_MAX_PER_WINDOW_def secs_def)
qed

text \<open>A peer that exceeds the window is rejected for the next five minutes, however often it
  calls, and the calls made meanwhile do not prolong the backoff.\<close>

theorem incoming_backoff_holds:
  assumes "\<forall>u. backoff_until (bucket_of l h) = Some u \<longrightarrow> u \<le> t0"
    "allow_incoming t0 h l = (False, l')" "\<forall>e\<in>set evs. fst e < t0 + INCOMING_BACKOFF"
  shows "accepted_times h (limiter_run allow_incoming l' evs) = []"
proof -
  have b: "backoff_until (bucket_of l' h) = Some (t0 + INCOMING_BACKOFF)"
    using assms(1,2)
    by (auto simp: allow_incoming_def incoming_step_def bucket_of_def rmap Let_def
        split: prod.splits option.splits if_splits)
  have "backoff_until (bucket_of m h) = Some (t0 + INCOMING_BACKOFF) \<Longrightarrow>
      accepted_times h (limiter_run allow_incoming m evs) = []" for m
    using assms(3)
  proof (induction evs arbitrary: m)
    case (Cons e es)
    obtain now j where e: "e = (now, j)" by force
    obtain ok m' where st: "allow_incoming now j m = (ok, m')" by force
    have "bucket_of m' h = bucket_of m h \<and> (j = h \<longrightarrow> \<not> ok)"
      using Cons.prems e st backoff_rejects [of m h "t0 + INCOMING_BACKOFF" now] allow_incoming_other [OF st, of h]
      by (cases "j = h") auto
    with Cons st e show ?case by auto
  qed simp
  then show ?thesis using b by blast
qed

theorem incoming_backoff_holds_witness:
  "\<exists>l l'. allow_incoming 5 ''m'' l = (False, l') \<and>
     accepted_times ''m'' (limiter_run allow_incoming l' [(6, ''m''), (secs 200, ''m'')]) = []"
proof -
  let ?l = "\<lparr>last_sent = [], incoming = [(''m'', \<lparr>recent = [1, 2, 4], backoff_until = None\<rparr>)]\<rparr>"
  obtain l' where st: "allow_incoming 5 ''m'' ?l = (False, l')"
    by (simp add: allow_incoming_def bucket_of_def incoming_step_def hm_get_def
        INCOMING_WINDOW_def INCOMING_MAX_PER_WINDOW_def secs_def)
  have "accepted_times ''m'' (limiter_run allow_incoming l' [(6, ''m''), (secs 200, ''m'')]) = []"
    by (rule incoming_backoff_holds [OF _ st])
      (simp_all add: bucket_of_def hm_get_def INCOMING_BACKOFF_def secs_def)
  with st show ?thesis by blast
qed

text \<open>Outgoing KEYREQs to one peer are at least 30 seconds apart, over any sequence of sends to
  any peers at non-decreasing times.\<close>

theorem outgoing_rate_bounded:
  assumes "sorted (map fst evs)"
  shows "spaced 1 RATE_LIMIT_WINDOW (accepted_times h (limiter_run allow_outgoing limiter_new evs))"
  by (rule outgoing.run_spaced_fresh [where t = 0]) (simp_all add: assms out_rel_def limiter_new_def)

theorem outgoing_rate_bounded_witness:
  "spaced 1 RATE_LIMIT_WINDOW (accepted_times ''b''
      (limiter_run allow_outgoing limiter_new [(secs 1, ''b''), (secs 2, ''b''), (secs 31, ''b'')]))
   \<and> accepted_times ''b''
      (limiter_run allow_outgoing limiter_new [(secs 1, ''b''), (secs 2, ''b''), (secs 31, ''b'')])
      = [secs 1, secs 31]"
proof
  show "spaced 1 RATE_LIMIT_WINDOW (accepted_times ''b''
      (limiter_run allow_outgoing limiter_new [(secs 1, ''b''), (secs 2, ''b''), (secs 31, ''b'')]))"
    by (rule outgoing_rate_bounded) (simp add: secs_def)
  show "accepted_times ''b''
      (limiter_run allow_outgoing limiter_new [(secs 1, ''b''), (secs 2, ''b''), (secs 31, ''b'')])
      = [secs 1, secs 31]"
    by (simp add: limiter_new_def allow_outgoing_def rmap RATE_LIMIT_WINDOW_def secs_def)
qed

end
