(* ===== verification/E2e_Handshake.thy ===== *)
theory E2e_Handshake
  imports Crates E2e_Context Rust_Map
begin

text \<open>
  The handshake messages (\<open>src/src/e2e/handshake.rs\<close>): KEYREQ, KEYRSP and REKEY, the payloads
  their signatures cover, their one-line CTCP form and its parser.  The arrays \<open>[u8; N]\<close> are byte
  strings whose lengths the well-formedness predicates fix.
\<close>

section \<open>Messages\<close>

definition CTCP_TAG :: bytes where "CTCP_TAG = ''RPEE2E''"
definition PROTO_VERSION :: nat where "PROTO_VERSION = 1"
definition NONCE_LEN :: nat where "NONCE_LEN = 24"

record key_req =
  kq_channel :: bytes
  kq_pubkey :: bytes
  kq_eph_x25519 :: bytes
  kq_nonce :: bytes
  kq_sig :: bytes

record key_rsp =
  kr_channel :: bytes
  kr_pubkey :: bytes
  kr_ephemeral_pub :: bytes
  kr_wrap_nonce :: bytes
  kr_wrap_ct :: bytes
  kr_nonce :: bytes
  kr_sig :: bytes

record key_rekey =
  rk_channel :: bytes
  rk_pubkey :: bytes
  rk_eph_pub :: bytes
  rk_wrap_nonce :: bytes
  rk_wrap_ct :: bytes
  rk_nonce :: bytes
  rk_sig :: bytes

datatype handshake_msg = Req key_req | Rsp key_rsp | Rekey key_rekey

section \<open>Signed payloads\<close>

definition sig_payload_keyreq :: "bytes \<Rightarrow> bytes \<Rightarrow> bytes \<Rightarrow> bytes \<Rightarrow> bytes" where
  "sig_payload_keyreq channel pubkey eph_x25519 nonce =
     ''KEYREQ:'' @ channel @ '':'' @ pubkey @ '':'' @ eph_x25519 @ '':'' @ nonce"

definition sig_payload_keyrsp ::
  "bytes \<Rightarrow> bytes \<Rightarrow> bytes \<Rightarrow> bytes \<Rightarrow> bytes \<Rightarrow> bytes \<Rightarrow> bytes" where
  "sig_payload_keyrsp channel pubkey eph_pub wrap_nonce wrap_ct nonce =
     ''KEYRSP:'' @ channel @ '':'' @ pubkey @ '':'' @ eph_pub @ '':'' @ wrap_nonce @ '':''
       @ wrap_ct @ '':'' @ nonce"

definition sig_payload_keyrekey ::
  "bytes \<Rightarrow> bytes \<Rightarrow> bytes \<Rightarrow> bytes \<Rightarrow> bytes \<Rightarrow> bytes \<Rightarrow> bytes" where
  "sig_payload_keyrekey channel pubkey eph_pub wrap_nonce wrap_ct nonce =
     ''REKEY:'' @ channel @ '':'' @ pubkey @ '':'' @ eph_pub @ '':'' @ wrap_nonce @ '':''
       @ wrap_ct @ '':'' @ nonce"

section \<open>Encoders\<close>

definition encode_keyreq :: "'x codecs_scheme \<Rightarrow> key_req \<Rightarrow> bytes" where
  "encode_keyreq cr req =
     CTCP_TAG @ '' KEYREQ v='' @ show_nat PROTO_VERSION @ '' c='' @ kq_channel req
       @ '' p='' @ b64u_encode cr (kq_pubkey req) @ '' e='' @ b64u_encode cr (kq_eph_x25519 req)
       @ '' n='' @ b64u_encode cr (kq_nonce req) @ '' s='' @ b64u_encode cr (kq_sig req)"

definition encode_keyrsp :: "'x codecs_scheme \<Rightarrow> key_rsp \<Rightarrow> bytes" where
  "encode_keyrsp cr rsp =
     CTCP_TAG @ '' KEYRSP v='' @ show_nat PROTO_VERSION @ '' c='' @ kr_channel rsp
       @ '' p='' @ b64u_encode cr (kr_pubkey rsp) @ '' e='' @ b64u_encode cr (kr_ephemeral_pub rsp)
       @ '' wn='' @ b64u_encode cr (kr_wrap_nonce rsp) @ '' w='' @ b64u_encode cr (kr_wrap_ct rsp)
       @ '' n='' @ b64u_encode cr (kr_nonce rsp) @ '' s='' @ b64u_encode cr (kr_sig rsp)"

definition encode_keyrekey :: "'x codecs_scheme \<Rightarrow> key_rekey \<Rightarrow> bytes" where
  "encode_keyrekey cr rk =
     CTCP_TAG @ '' REKEY v='' @ show_nat PROTO_VERSION @ '' c='' @ rk_channel rk
       @ '' p='' @ b64u_encode cr (rk_pubkey rk) @ '' e='' @ b64u_encode cr (rk_eph_pub rk)
       @ '' wn='' @ b64u_encode cr (rk_wrap_nonce rk) @ '' w='' @ b64u_encode cr (rk_wrap_ct rk)
       @ '' n='' @ b64u_encode cr (rk_nonce rk) @ '' s='' @ b64u_encode cr (rk_sig rk)"

section \<open>Parser\<close>

text \<open>
  \<open>parse_kv\<close>: fields without \<open>=\<close> are skipped, a repeated key is an error.  The display texts of
  the base64 crate's errors are not modelled.
\<close>

fun parse_kv_loop :: "bytes list \<Rightarrow> (bytes, bytes) hmap \<Rightarrow> e2e_error + (bytes, bytes) hmap" where
  "parse_kv_loop [] out = Inr out"
| "parse_kv_loop (f # fs) out =
     (case split_once (CHR ''='') f of
        None \<Rightarrow> parse_kv_loop fs out
      | Some (k, v) \<Rightarrow>
          if hm_get out k \<noteq> None then Inl (WireErr (''duplicate key: '' @ k))
          else parse_kv_loop fs (hm_put k v out))"

definition parse_kv :: "bytes list \<Rightarrow> e2e_error + (bytes, bytes) hmap" where
  "parse_kv fs = parse_kv_loop fs []"

definition kv_get :: "(bytes, bytes) hmap \<Rightarrow> bytes \<Rightarrow> e2e_error + bytes" where
  "kv_get kv key = ok_or (HandshakeErr key) (hm_get kv key)"

definition b64_decode_hs :: "'x codecs_scheme \<Rightarrow> bytes \<Rightarrow> e2e_error + bytes" where
  "b64_decode_hs cr s = ok_or (HandshakeErr ''bad b64'') (b64u_decode cr s)"

definition b64_fixed :: "'x codecs_scheme \<Rightarrow> nat \<Rightarrow> bytes \<Rightarrow> e2e_error + bytes" where
  "b64_fixed cr n s =
     rbind (b64_decode_hs cr s) (\<lambda>raw.
     if length raw \<noteq> n
     then Inl (HandshakeErr (''expected '' @ show_nat n @ '' bytes, got '' @ show_nat (length raw)))
     else Inr raw)"

definition parse_wrap_nonce :: "'x codecs_scheme \<Rightarrow> (bytes, bytes) hmap \<Rightarrow> e2e_error + bytes" where
  "parse_wrap_nonce cr kv =
     rbind (kv_get kv ''wn'') (\<lambda>s.
     rbind (b64_decode_hs cr s) (\<lambda>raw.
     if length raw \<noteq> NONCE_LEN
     then Inl (HandshakeErr (''wn len '' @ show_nat (length raw) @ '' != '' @ show_nat NONCE_LEN))
     else Inr raw))"

definition parse_wrap_ct :: "'x codecs_scheme \<Rightarrow> (bytes, bytes) hmap \<Rightarrow> e2e_error + bytes" where
  "parse_wrap_ct cr kv =
     rbind (kv_get kv ''w'') (\<lambda>s. ok_or (HandshakeErr ''bad wrap b64'') (b64u_decode cr s))"

definition parse_keyreq :: "'x codecs_scheme \<Rightarrow> (bytes, bytes) hmap \<Rightarrow> e2e_error + key_req" where
  "parse_keyreq cr kv =
     rbind (kv_get kv ''c'') (\<lambda>c.
     rbind (rbind (kv_get kv ''p'') (b64_fixed cr 32)) (\<lambda>p.
     rbind (rbind (kv_get kv ''e'') (b64_fixed cr 32)) (\<lambda>e.
     rbind (rbind (kv_get kv ''n'') (b64_fixed cr 16)) (\<lambda>n.
     rbind (rbind (kv_get kv ''s'') (b64_fixed cr 64)) (\<lambda>s.
     Inr \<lparr>kq_channel = c, kq_pubkey = p, kq_eph_x25519 = e, kq_nonce = n, kq_sig = s\<rparr>)))))"

definition parse_keyrsp :: "'x codecs_scheme \<Rightarrow> (bytes, bytes) hmap \<Rightarrow> e2e_error + key_rsp" where
  "parse_keyrsp cr kv =
     rbind (kv_get kv ''c'') (\<lambda>c.
     rbind (rbind (kv_get kv ''p'') (b64_fixed cr 32)) (\<lambda>p.
     rbind (rbind (kv_get kv ''e'') (b64_fixed cr 32)) (\<lambda>e.
     rbind (parse_wrap_nonce cr kv) (\<lambda>wn.
     rbind (parse_wrap_ct cr kv) (\<lambda>w.
     rbind (rbind (kv_get kv ''n'') (b64_fixed cr 16)) (\<lambda>n.
     rbind (rbind (kv_get kv ''s'') (b64_fixed cr 64)) (\<lambda>s.
     Inr \<lparr>kr_channel = c, kr_pubkey = p, kr_ephemeral_pub = e, kr_wrap_nonce = wn,
          kr_wrap_ct = w, kr_nonce = n, kr_sig = s\<rparr>)))))))"

definition parse_keyrekey :: "'x codecs_scheme \<Rightarrow> (bytes, bytes) hmap \<Rightarrow> e2e_error + key_rekey" where
  "parse_keyrekey cr kv =
     rbind (kv_get kv ''c'') (\<lambda>c.
     rbind (rbind (kv_get kv ''p'') (b64_fixed cr 32)) (\<lambda>p.
     rbind (rbind (kv_get kv ''e'') (b64_fixed cr 32)) (\<lambda>e.
     rbind (parse_wrap_nonce cr kv) (\<lambda>wn.
     rbind (parse_wrap_ct cr kv) (\<lambda>w.
     rbind (rbind (kv_get kv ''n'') (b64_fixed cr 16)) (\<lambda>n.
     rbind (rbind (kv_get kv ''s'') (b64_fixed cr 64)) (\<lambda>s.
     Inr \<lparr>rk_channel = c, rk_pubkey = p, rk_eph_pub = e, rk_wrap_nonce = wn,
          rk_wrap_ct = w, rk_nonce = n, rk_sig = s\<rparr>)))))))"

text \<open>After the type word: the keys, the version, then the message of that type.\<close>

definition parse_typed :: "'x codecs_scheme \<Rightarrow> bytes \<Rightarrow> bytes list \<Rightarrow> e2e_error + handshake_msg option" where
  "parse_typed cr kind rest =
     rbind (parse_kv rest) (\<lambda>kv.
     rbind (ok_or (HandshakeErr ''missing v'') (hm_get kv ''v'')) (\<lambda>vs.
     rbind (map_err (\<lambda>e. HandshakeErr (''bad v: '' @ int_error_text e)) (parse_u8 vs)) (\<lambda>v.
     if v \<noteq> PROTO_VERSION then Inl (HandshakeErr (''unsupported version '' @ show_nat v))
     else if kind = ''KEYREQ'' then rbind (parse_keyreq cr kv) (\<lambda>r. Inr (Some (Req r)))
     else if kind = ''KEYRSP'' then rbind (parse_keyrsp cr kv) (\<lambda>r. Inr (Some (Rsp r)))
     else if kind = ''REKEY'' then rbind (parse_keyrekey cr kv) (\<lambda>r. Inr (Some (Rekey r)))
     else Inl (HandshakeErr (''unknown type '' @ kind)))))"

definition parse_handshake :: "'x codecs_scheme \<Rightarrow> bytes \<Rightarrow> e2e_error + handshake_msg option" where
  "parse_handshake cr body =
     (case split_whitespace body of
        [] \<Rightarrow> Inr None
      | tag # parts \<Rightarrow>
          if tag \<noteq> CTCP_TAG then Inr None
          else (case parts of
                  [] \<Rightarrow> Inl (HandshakeErr ''missing type'')
                | kind # rest \<Rightarrow> parse_typed cr kind rest))"

section \<open>Well-formed messages\<close>

definition req_wf :: "key_req \<Rightarrow> bool" where
  "req_wf r \<longleftrightarrow> length (kq_pubkey r) = 32 \<and> length (kq_eph_x25519 r) = 32
     \<and> length (kq_nonce r) = 16 \<and> length (kq_sig r) = 64"

definition rsp_wf :: "key_rsp \<Rightarrow> bool" where
  "rsp_wf r \<longleftrightarrow> length (kr_pubkey r) = 32 \<and> length (kr_ephemeral_pub r) = 32
     \<and> length (kr_wrap_nonce r) = 24 \<and> length (kr_nonce r) = 16 \<and> length (kr_sig r) = 64"

definition rekey_wf :: "key_rekey \<Rightarrow> bool" where
  "rekey_wf r \<longleftrightarrow> length (rk_pubkey r) = 32 \<and> length (rk_eph_pub r) = 32
     \<and> length (rk_wrap_nonce r) = 24 \<and> length (rk_nonce r) = 16 \<and> length (rk_sig r) = 64"

fun msg_wf :: "handshake_msg \<Rightarrow> bool" where
  "msg_wf (Req r) = req_wf r"
| "msg_wf (Rsp r) = rsp_wf r"
| "msg_wf (Rekey r) = rekey_wf r"

fun msg_channel :: "handshake_msg \<Rightarrow> bytes" where
  "msg_channel (Req r) = kq_channel r"
| "msg_channel (Rsp r) = kr_channel r"
| "msg_channel (Rekey r) = rk_channel r"

fun encode_msg :: "'x codecs_scheme \<Rightarrow> handshake_msg \<Rightarrow> bytes" where
  "encode_msg cr (Req r) = encode_keyreq cr r"
| "encode_msg cr (Rsp r) = encode_keyrsp cr r"
| "encode_msg cr (Rekey r) = encode_keyrekey cr r"

section \<open>Facts about fields\<close>

abbreviation kv_field :: "bytes \<Rightarrow> bytes \<Rightarrow> bytes" where
  "kv_field k v \<equiv> k @ CHR ''='' # v"

lemma split_kv_field: "CHR ''='' \<notin> set k \<Longrightarrow> split_once (CHR ''='') (kv_field k v) = Some (k, v)"
  by (rule split_once_append)

lemma parse_kv_fields:
  "distinct (map fst kvs) \<Longrightarrow> fst ` set kvs \<inter> fst ` set out = {} \<Longrightarrow>
   \<forall>kv\<in>set kvs. CHR ''='' \<notin> set (fst kv) \<Longrightarrow>
     parse_kv_loop (map (\<lambda>(k, v). kv_field k v) kvs) out = Inr (out @ kvs)"
proof (induction kvs arbitrary: out)
  case (Cons kv kvs)
  obtain k v where kv: "kv = (k, v)" by force
  have n: "k \<notin> fst ` set out" using Cons.prems(2) kv by auto
  then have "hm_get out k = None" by (simp add: hm_get_def map_of_eq_None_iff)
  moreover have "hm_put k v out = out @ [(k, v)]" by (rule hm_put_fresh) fact
  ultimately show ?case
    using Cons kv by (auto simp: split_kv_field)
qed simp

lemma split_whitespace_join:
  "\<forall>f\<in>set fs. no_ws f \<and> f \<noteq> [] \<Longrightarrow> split_whitespace (join_with '' '' fs) = fs"
proof (induction "'' ''" fs rule: join_with.induct)
  case 1
  then show ?case by (simp add: split_whitespace_def)
qed (simp_all add: rstr)

lemma no_ws_kv: "graphic k \<Longrightarrow> no_ws v \<Longrightarrow> no_ws (kv_field k v)"
  using no_ws_append_graphic [of v "k @ ''=''"] by (simp add: graphic_def)

lemma parse_handshake_fields:
  assumes "graphic kind" "kind \<noteq> []" "\<forall>kv\<in>set kvs. graphic (fst kv) \<and> no_ws (snd kv)"
  shows "parse_handshake cr (join_with '' '' (CTCP_TAG # kind # map (\<lambda>(k, v). kv_field k v) kvs))
    = parse_typed cr kind (map (\<lambda>(k, v). kv_field k v) kvs)"
proof -
  have "no_ws CTCP_TAG" by (rule graphic_no_ws) (simp add: CTCP_TAG_def)
  then have "\<forall>f\<in>set (CTCP_TAG # kind # map (\<lambda>(k, v). kv_field k v) kvs). no_ws f \<and> f \<noteq> []"
    using assms by (auto simp: graphic_no_ws no_ws_kv CTCP_TAG_def simp del: no_ws.simps)
  then show ?thesis
    by (simp add: parse_handshake_def split_whitespace_join del: join_with.simps)
qed

text \<open>The fields of each message.\<close>

fun msg_kind :: "handshake_msg \<Rightarrow> bytes" where
  "msg_kind (Req r) = ''KEYREQ''"
| "msg_kind (Rsp r) = ''KEYRSP''"
| "msg_kind (Rekey r) = ''REKEY''"

fun msg_fields :: "'x codecs_scheme \<Rightarrow> handshake_msg \<Rightarrow> (bytes \<times> bytes) list" where
  "msg_fields cr (Req r) = [(''v'', show_nat 1), (''c'', kq_channel r),
     (''p'', b64u_encode cr (kq_pubkey r)), (''e'', b64u_encode cr (kq_eph_x25519 r)),
     (''n'', b64u_encode cr (kq_nonce r)), (''s'', b64u_encode cr (kq_sig r))]"
| "msg_fields cr (Rsp r) = [(''v'', show_nat 1), (''c'', kr_channel r),
     (''p'', b64u_encode cr (kr_pubkey r)), (''e'', b64u_encode cr (kr_ephemeral_pub r)),
     (''wn'', b64u_encode cr (kr_wrap_nonce r)), (''w'', b64u_encode cr (kr_wrap_ct r)),
     (''n'', b64u_encode cr (kr_nonce r)), (''s'', b64u_encode cr (kr_sig r))]"
| "msg_fields cr (Rekey r) = [(''v'', show_nat 1), (''c'', rk_channel r),
     (''p'', b64u_encode cr (rk_pubkey r)), (''e'', b64u_encode cr (rk_eph_pub r)),
     (''wn'', b64u_encode cr (rk_wrap_nonce r)), (''w'', b64u_encode cr (rk_wrap_ct r)),
     (''n'', b64u_encode cr (rk_nonce r)), (''s'', b64u_encode cr (rk_sig r))]"

lemma encode_msg_fields:
  "encode_msg cr m
     = join_with '' '' (CTCP_TAG # msg_kind m # map (\<lambda>(k, v). kv_field k v) (msg_fields cr m))"
  by (cases m) (simp_all add: encode_keyreq_def encode_keyrsp_def encode_keyrekey_def PROTO_VERSION_def)

lemma b64_fixed_encode: "b64u_ok cr \<Longrightarrow> length b = n \<Longrightarrow> b64_fixed cr n (b64u_encode cr b) = Inr b"
  by (simp add: b64_fixed_def b64_decode_hs_def b64u_ok_def)

lemma parse_typed_fields:
  assumes "b64u_ok cr" "msg_wf m"
  shows "parse_typed cr (msg_kind m) (map (\<lambda>(k, v). kv_field k v) (msg_fields cr m)) = Inr (Some m)"
proof -
  have "distinct (map fst (msg_fields cr m)) \<and> (\<forall>kv\<in>set (msg_fields cr m). CHR ''='' \<notin> set (fst kv))"
    by (cases m) simp_all
  then have kv: "parse_kv (map (\<lambda>(k, v). kv_field k v) (msg_fields cr m)) = Inr (msg_fields cr m)"
    using parse_kv_fields [of "msg_fields cr m" "[]"] by (simp add: parse_kv_def)
  have wn: "b64u_decode cr (b64u_encode cr b) = Some b" for b
    using assms(1) by (simp add: b64u_ok_def)
  have u8: "parse_u8 (show_nat (Suc 0)) = Inr (Suc 0)" by (rule parse_u8_show) simp
  note fx = b64_fixed_encode [OF assms(1)]
  show ?thesis
    using assms(2) unfolding parse_typed_def kv
    by (cases m) (simp_all add: hm_get_def u8 PROTO_VERSION_def parse_keyreq_def parse_keyrsp_def
        parse_keyrekey_def kv_get_def fx req_wf_def rsp_wf_def rekey_wf_def parse_wrap_nonce_def
        parse_wrap_ct_def b64_decode_hs_def wn NONCE_LEN_def)
qed

lemma parse_encode_msg:
  assumes "b64u_ok cr" "msg_wf m" "no_ws (msg_channel m)"
  shows "parse_handshake cr (encode_msg cr m) = Inr (Some m)"
proof -
  have g: "no_ws (b64u_encode cr b)" for b
    using assms(1) by (simp add: b64u_ok_def graphic_no_ws)
  have "no_ws (show_nat 1)" by (rule graphic_no_ws) simp
  with g assms(3) have "\<forall>kv\<in>set (msg_fields cr m). graphic (fst kv) \<and> no_ws (snd kv)"
    by (cases m) simp_all
  moreover have "graphic (msg_kind m) \<and> msg_kind m \<noteq> []" by (cases m) simp_all
  ultimately show ?thesis
    using parse_handshake_fields [of "msg_kind m" "msg_fields cr m" cr] parse_typed_fields [OF assms(1,2)]
    by (simp add: encode_msg_fields del: join_with.simps)
qed

section \<open>Facts about the parser's results\<close>

lemma b64_fixed_length: "b64_fixed cr n s = Inr b \<Longrightarrow> length b = n"
  by (auto simp: b64_fixed_def rbind_Inr split: if_splits)

lemma parse_wrap_nonce_length: "parse_wrap_nonce cr kv = Inr b \<Longrightarrow> length b = 24"
  by (auto simp: parse_wrap_nonce_def rbind_Inr NONCE_LEN_def split: if_splits)

lemma parse_typed_wf: "parse_typed cr kind rest = Inr (Some m) \<Longrightarrow> msg_wf m \<and> msg_kind m = kind"
  by (auto simp: parse_typed_def parse_keyreq_def parse_keyrsp_def parse_keyrekey_def result_Inr
      req_wf_def rsp_wf_def rekey_wf_def split: if_splits
      dest!: b64_fixed_length parse_wrap_nonce_length)

lemma parse_handshake_wf: "parse_handshake cr body = Inr (Some m) \<Longrightarrow> msg_wf m"
  by (auto simp: parse_handshake_def split: list.splits if_splits dest: parse_typed_wf)

lemma parse_kv_loop_dup:
  "hm_get out k \<noteq> None \<Longrightarrow> kv_field k v \<in> set fs \<Longrightarrow> CHR ''='' \<notin> set k \<Longrightarrow>
     \<exists>e. parse_kv_loop fs out = Inl e"
proof (induction fs arbitrary: out)
  case (Cons f fs)
  show ?case
  proof (cases "f = kv_field k v")
    case True
    with Cons.prems show ?thesis by (simp add: split_kv_field)
  next
    case False
    with Cons show ?thesis
      by (auto simp: rmap split: option.splits prod.splits)
  qed
qed simp

lemma parse_kv_dup:
  "CHR ''='' \<notin> set k \<Longrightarrow> \<exists>e. parse_kv_loop (xs @ kv_field k v # ys @ kv_field k w # zs) out = Inl e"
proof (induction xs arbitrary: out)
  case Nil
  then show ?case
    using parse_kv_loop_dup [of "hm_put k v out" k w "ys @ kv_field k w # zs"]
    by (simp add: split_kv_field rmap)
qed (auto split: option.splits prod.splits)

section \<open>Properties\<close>

text \<open>C30: Round trip of the handshake: every message whose arrays have their lengths and whose
  channel holds no white space is parsed back from its encoding to itself, type included.\<close>

theorem handshake_roundtrip:
  assumes "b64u_ok cr" "msg_wf m" "no_ws (msg_channel m)"
  shows "parse_handshake cr (encode_msg cr m) = Inr (Some m)"
  by (rule parse_encode_msg [OF assms])

definition sample_rsp :: key_rsp where
  "sample_rsp = \<lparr>kr_channel = ''#a=b'', kr_pubkey = replicate 32 (CHR ''p''),
     kr_ephemeral_pub = replicate 32 (CHR ''e''), kr_wrap_nonce = replicate 24 (CHR ''w''),
     kr_wrap_ct = ''ct'', kr_nonce = replicate 16 (CHR ''n''), kr_sig = replicate 64 (CHR ''s'')\<rparr>"

theorem handshake_roundtrip_witness:
  "parse_handshake demo (encode_keyrsp demo sample_rsp) = Inr (Some (Rsp sample_rsp))"
proof -
  have "no_ws ''#a=b''" by (rule graphic_no_ws) simp
  then have "no_ws (msg_channel (Rsp sample_rsp))" by (simp add: sample_rsp_def)
  from handshake_roundtrip [OF demo_codecs(3) _ this] show ?thesis
    by (simp add: rsp_wf_def sample_rsp_def)
qed

text \<open>The parser never yields a malformed message: the keys, nonces and signatures it returns
  have their fixed lengths; a body without the tag is not a handshake; and a key given twice
  (a channel shifted after signing) is an error wherever the duplicate stands.\<close>

theorem handshake_parse_sound:
  "(parse_handshake cr body = Inr (Some m) \<longrightarrow> msg_wf m)
    \<and> (hd (split_whitespace body @ [[]]) \<noteq> CTCP_TAG \<longrightarrow> parse_handshake cr body = Inr None)
    \<and> (split_whitespace body = CTCP_TAG # kind # xs @ kv_field k v # ys @ kv_field k w # zs \<longrightarrow>
        CHR ''='' \<notin> set k \<longrightarrow> (\<exists>e. parse_handshake cr body = Inl e))"
proof (intro conjI impI)
  show "parse_handshake cr body = Inr (Some m) \<Longrightarrow> msg_wf m" by (rule parse_handshake_wf)
  show "hd (split_whitespace body @ [[]]) \<noteq> CTCP_TAG \<Longrightarrow> parse_handshake cr body = Inr None"
    by (cases "split_whitespace body") (simp_all add: parse_handshake_def)
  assume b: "split_whitespace body = CTCP_TAG # kind # xs @ kv_field k v # ys @ kv_field k w # zs"
    and k: "CHR ''='' \<notin> set k"
  from parse_kv_dup [OF k, of xs v ys w zs "[]"] b
  show "\<exists>e. parse_handshake cr body = Inl e"
    by (auto simp: parse_handshake_def parse_typed_def parse_kv_def)
qed

theorem handshake_parse_sound_witness:
  "(\<exists>e. parse_handshake demo ''RPEE2E KEYREQ c=#a c=#b'' = Inl e) \<and> parse_handshake demo ''PING 5'' = Inr None"
proof
  have n: "graphic s \<Longrightarrow> s \<noteq> [] \<Longrightarrow> split_whitespace (s @ '' '' @ t) = s # split_whitespace t" for s t
    by (simp add: graphic_no_ws split_whitespace_field)
  have l: "graphic s \<Longrightarrow> s \<noteq> [] \<Longrightarrow> split_whitespace s = [s]" for s
    by (simp add: graphic_no_ws split_whitespace_last)
  have "split_whitespace ''RPEE2E KEYREQ c=#a c=#b'' = [''RPEE2E'', ''KEYREQ'', ''c=#a'', ''c=#b'']"
    using n [of "''RPEE2E''" "''KEYREQ c=#a c=#b''"] n [of "''KEYREQ''" "''c=#a c=#b''"]
      n [of "''c=#a''" "''c=#b''"] l [of "''c=#b''"] by simp
  then show "\<exists>e. parse_handshake demo ''RPEE2E KEYREQ c=#a c=#b'' = Inl e"
    using handshake_parse_sound [where body = "''RPEE2E KEYREQ c=#a c=#b''" and kind = "''KEYREQ''"
        and xs = "[]" and k = "''c''" and v = "''#a''" and ys = "[]" and w = "''#b''" and zs = "[]"
        and cr = demo]
    by (simp add: CTCP_TAG_def)
  have "split_whitespace ''PING 5'' = [''PING'', ''5'']"
    using n [of "''PING''" "''5''"] l [of "''5''"] by simp
  then show "parse_handshake demo ''PING 5'' = Inr None"
    using handshake_parse_sound [where body = "''PING 5''" and cr = demo] by (simp add: CTCP_TAG_def)
qed

text \<open>C31: A KEYREQ signature covers every field: two KEYREQs have the same signed payload only when
  channel, identity key, ephemeral key and nonce are all equal, whatever the channel name holds; and
  no KEYREQ, KEYRSP or REKEY payload is ever a payload of another type.\<close>

theorem signed_payloads_separate:
  assumes "length p1 = 32" "length p2 = 32" "length e1 = 32" "length e2 = 32"
    "length n1 = 16" "length n2 = 16"
  shows "(sig_payload_keyreq c1 p1 e1 n1 = sig_payload_keyreq c2 p2 e2 n2
      \<longleftrightarrow> c1 = c2 \<and> p1 = p2 \<and> e1 = e2 \<and> n1 = n2)
    \<and> sig_payload_keyreq c1 p1 e1 n1 \<noteq> sig_payload_keyrsp c2 p2 e2 wn w n2
    \<and> sig_payload_keyreq c1 p1 e1 n1 \<noteq> sig_payload_keyrekey c2 p2 e2 wn w n2
    \<and> sig_payload_keyrsp c1 p1 e1 wn w n1 \<noteq> sig_payload_keyrekey c2 p2 e2 wn2 w2 n2"
proof -
  have "c1 = c2 \<and> p1 = p2 \<and> e1 = e2 \<and> n1 = n2"
    if e: "sig_payload_keyreq c1 p1 e1 n1 = sig_payload_keyreq c2 p2 e2 n2"
  proof -
    have "length c1 = length c2" using arg_cong [OF e, of length] assms by (simp add: sig_payload_keyreq_def)
    with e assms show ?thesis by (simp add: sig_payload_keyreq_def)
  qed
  moreover have "sig_payload_keyreq c1 p1 e1 n1 \<noteq> sig_payload_keyrsp c2 p2 e2 wn w n2"
    "sig_payload_keyreq c1 p1 e1 n1 \<noteq> sig_payload_keyrekey c2 p2 e2 wn w n2"
    "sig_payload_keyrsp c1 p1 e1 wn w n1 \<noteq> sig_payload_keyrekey c2 p2 e2 wn2 w2 n2"
    by (simp_all add: sig_payload_keyreq_def sig_payload_keyrsp_def sig_payload_keyrekey_def)
  ultimately show ?thesis by blast
qed

theorem signed_payloads_separate_witness:
  "sig_payload_keyreq ''#a'' (replicate 32 (CHR ''p'')) (replicate 32 (CHR ''e'')) (replicate 16 (CHR ''n''))
    \<noteq> sig_payload_keyreq ''#b'' (replicate 32 (CHR ''p'')) (replicate 32 (CHR ''e'')) (replicate 16 (CHR ''n''))"
  using signed_payloads_separate [of "replicate 32 (CHR ''p'')" "replicate 32 (CHR ''p'')"
      "replicate 32 (CHR ''e'')" "replicate 32 (CHR ''e'')" "replicate 16 (CHR ''n'')"
      "replicate 16 (CHR ''n'')" "''#a''" "''#b''"] by simp

text \<open>A KEYRSP or REKEY signature covers every field when the channel name holds no \<open>:\<close> (no RFC
  2812 channel does): equal payloads then mean equal channel, keys, wrapped key and nonces.\<close>

theorem wrapped_key_payload_injective:
  assumes "length p1 = 32" "length p2 = 32" "length e1 = 32" "length e2 = 32"
    "length wn1 = 24" "length wn2 = 24" "length n1 = 16" "length n2 = 16"
    "CHR '':'' \<notin> set c1" "CHR '':'' \<notin> set c2"
    "sig_payload_keyrsp c1 p1 e1 wn1 w1 n1 = sig_payload_keyrsp c2 p2 e2 wn2 w2 n2
      \<or> sig_payload_keyrekey c1 p1 e1 wn1 w1 n1 = sig_payload_keyrekey c2 p2 e2 wn2 w2 n2"
  shows "c1 = c2 \<and> p1 = p2 \<and> e1 = e2 \<and> wn1 = wn2 \<and> w1 = w2 \<and> n1 = n2"
proof -
  have eq: "c1 @ CHR '':'' # (p1 @ '':'' @ e1 @ '':'' @ wn1 @ '':'' @ w1 @ '':'' @ n1)
      = c2 @ CHR '':'' # (p2 @ '':'' @ e2 @ '':'' @ wn2 @ '':'' @ w2 @ '':'' @ n2)"
    using assms(11) by (auto simp: sig_payload_keyrsp_def sig_payload_keyrekey_def)
  from split_once_append [OF assms(9)] split_once_append [OF assms(10)]
  have c: "c1 = c2" and r: "p1 @ '':'' @ e1 @ '':'' @ wn1 @ '':'' @ w1 @ '':'' @ n1
      = p2 @ '':'' @ e2 @ '':'' @ wn2 @ '':'' @ w2 @ '':'' @ n2"
    by (metis eq option.inject prod.inject)+
  from arg_cong [OF r, of length] assms have "length w1 = length w2" by simp
  with r assms c show ?thesis by simp
qed

theorem wrapped_key_payload_injective_witness:
  "sig_payload_keyrsp ''#a'' (replicate 32 (CHR ''p'')) (replicate 32 (CHR ''e'')) (replicate 24 (CHR ''w'')) ''k1'' (replicate 16 (CHR ''n''))
    \<noteq> sig_payload_keyrsp ''#a'' (replicate 32 (CHR ''p'')) (replicate 32 (CHR ''e'')) (replicate 24 (CHR ''w'')) ''k2'' (replicate 16 (CHR ''n''))"
  using wrapped_key_payload_injective [of "replicate 32 (CHR ''p'')" "replicate 32 (CHR ''p'')"
      "replicate 32 (CHR ''e'')" "replicate 32 (CHR ''e'')" "replicate 24 (CHR ''w'')"
      "replicate 24 (CHR ''w'')" "replicate 16 (CHR ''n'')" "replicate 16 (CHR ''n'')"
      "''#a''" "''#a''" "''k1''" "''k2''"] by auto

end
