(* ===== verification/Storage_Crypto.thy ===== *)
theory Storage_Crypto
  imports Rust_Num
begin

text \<open>
  Secrets at rest (\<open>encrypt_bytes\<close> and \<open>decrypt_bytes\<close> of \<open>src/src/storage/crypto.rs\<close>): a blob is a
  version byte, a 12-byte nonce and the AES-256-GCM ciphertext.  The \<open>aes-gcm\<close> crate under one key
  is a record of its two functions; the nonce the operating system's generator returned for a
  plaintext is the record's third field.
\<close>

record gcm_key =
  gcm_encrypt :: "bytes \<Rightarrow> bytes \<Rightarrow> bytes option"
  gcm_decrypt :: "bytes \<Rightarrow> bytes \<Rightarrow> bytes option"
  gcm_random_nonce :: "bytes \<Rightarrow> bytes"

definition SECRET_BLOB_VERSION :: nat where "SECRET_BLOB_VERSION = 1"

definition encrypt_bytes :: "gcm_key \<Rightarrow> bytes \<Rightarrow> bytes + bytes" where
  "encrypt_bytes key plaintext =
     (let iv = gcm_random_nonce key plaintext in
      case gcm_encrypt key iv plaintext of
        None \<Rightarrow> Inl ''encryption failed''
      | Some ct \<Rightarrow> Inr (byte_of SECRET_BLOB_VERSION # iv @ ct))"

definition decrypt_bytes :: "gcm_key \<Rightarrow> bytes \<Rightarrow> bytes + bytes" where
  "decrypt_bytes key blob =
     (if length blob < 13 then Inl ''ciphertext too short''
      else if hd blob \<noteq> byte_of SECRET_BLOB_VERSION
      then Inl (''unsupported secret blob version '' @ show_nat (bval (hd blob)))
      else case gcm_decrypt key (take 12 (drop 1 blob)) (drop 13 blob) of
             None \<Rightarrow> Inl ''decryption failed''
           | Some pt \<Rightarrow> Inr pt)"

text \<open>
  What is relied on of the crate: decryption inverts encryption under the same nonce, the
  ciphertext carries a 16-byte tag, nonces have 12 bytes.
\<close>

definition gcm_ok :: "gcm_key \<Rightarrow> bool" where
  "gcm_ok key \<longleftrightarrow>
     (\<forall>iv pt ct. gcm_encrypt key iv pt = Some ct \<longrightarrow>
        gcm_decrypt key iv ct = Some pt \<and> length ct = length pt + 16) \<and>
     (\<forall>pt. length (gcm_random_nonce key pt) = 12)"

lemma decrypt_encrypt_bytes:
  "gcm_ok key \<Longrightarrow> encrypt_bytes key pt = Inr blob \<Longrightarrow>
     decrypt_bytes key blob = Inr pt \<and> length blob = length pt + 29"
  by (auto simp: encrypt_bytes_def decrypt_bytes_def gcm_ok_def Let_def split: option.splits)

text \<open>An instance: the identity with a tag of zero bytes.\<close>

definition demo_gcm :: gcm_key where
  "demo_gcm = \<lparr>gcm_encrypt = (\<lambda>iv pt. Some (pt @ replicate 16 (byte_of 0))),
     gcm_decrypt = (\<lambda>iv ct. Some (take (length ct - 16) ct)),
     gcm_random_nonce = (\<lambda>_. replicate 12 (byte_of 0))\<rparr>"

lemma demo_gcm_ok [simp]: "gcm_ok demo_gcm"
  by (simp add: gcm_ok_def demo_gcm_def)

end
