(* ===== verification/Sql_Table.thy ===== *)
theory Sql_Table
  imports Main
begin

text \<open>
  The SQL statements of the keyring over a table as the list of its rows.  \<open>key\<close> reads a row's
  primary key.  The order of the rows is SQLite's scan order, which is unspecified where the
  statement has no \<open>ORDER BY\<close>: no property depends on it.
\<close>

named_theorems sql "facts about tables"

definition keys_ok :: "('r \<Rightarrow> 'k) \<Rightarrow> 'r list \<Rightarrow> bool" where
  "keys_ok key rows \<longleftrightarrow> distinct (map key rows)"

text \<open>\<open>SELECT ... WHERE key = k\<close>.\<close>

definition select_key :: "('r \<Rightarrow> 'k) \<Rightarrow> 'k \<Rightarrow> 'r list \<Rightarrow> 'r option" where
  "select_key key k rows = List.find (\<lambda>r. key r = k) rows"

text \<open>\<open>INSERT OR REPLACE\<close>, \<open>INSERT OR IGNORE\<close>, and \<open>INSERT ... ON CONFLICT DO UPDATE\<close>.\<close>

definition insert_or_replace :: "('r \<Rightarrow> 'k) \<Rightarrow> 'r \<Rightarrow> 'r list \<Rightarrow> 'r list" where
  "insert_or_replace key r rows = filter (\<lambda>x. key x \<noteq> key r) rows @ [r]"

definition insert_or_ignore :: "('r \<Rightarrow> 'k) \<Rightarrow> 'r \<Rightarrow> 'r list \<Rightarrow> 'r list" where
  "insert_or_ignore key r rows = (if key r \<in> set (map key rows) then rows else rows @ [r])"

definition upsert :: "('r \<Rightarrow> 'k) \<Rightarrow> ('r \<Rightarrow> 'r) \<Rightarrow> 'r \<Rightarrow> 'r list \<Rightarrow> 'r list" where
  "upsert key on_conflict r rows =
     (if key r \<in> set (map key rows)
      then map (\<lambda>x. if key x = key r then on_conflict x else x) rows
      else rows @ [r])"

text \<open>\<open>UPDATE ... WHERE\<close>, \<open>UPDATE OR IGNORE\<close> of key columns, \<open>DELETE ... WHERE\<close>.\<close>

definition update_where :: "('r \<Rightarrow> bool) \<Rightarrow> ('r \<Rightarrow> 'r) \<Rightarrow> 'r list \<Rightarrow> 'r list" where
  "update_where P f rows = map (\<lambda>r. if P r then f r else r) rows"

definition update_or_ignore :: "('r \<Rightarrow> 'k) \<Rightarrow> ('r \<Rightarrow> bool) \<Rightarrow> ('r \<Rightarrow> 'r) \<Rightarrow> 'r list \<Rightarrow> 'r list" where
  "update_or_ignore key P f rows =
     map (\<lambda>r. if P r \<and> key (f r) \<notin> set (map key rows) then f r else r) rows"

definition delete_where :: "('r \<Rightarrow> bool) \<Rightarrow> 'r list \<Rightarrow> 'r list" where
  "delete_where P rows = filter (\<lambda>r. \<not> P r) rows"

text \<open>\<open>SELECT ... ORDER BY m DESC LIMIT 1\<close>.\<close>

fun select_latest :: "('r \<Rightarrow> int) \<Rightarrow> 'r list \<Rightarrow> 'r option" where
  "select_latest m [] = None"
| "select_latest m (r # rs) =
     (case select_latest m rs of
        None \<Rightarrow> Some r
      | Some x \<Rightarrow> if m r \<ge> m x then Some r else Some x)"

section \<open>Laws\<close>

lemma keys_ok_Nil [simp]: "keys_ok key []"
  by (simp add: keys_ok_def)

lemma select_key_Some: "select_key key k rows = Some r \<Longrightarrow> r \<in> set rows \<and> key r = k"
  by (auto simp: select_key_def find_Some_iff)

lemma select_key_None: "select_key key k rows = None \<longleftrightarrow> k \<notin> key ` set rows"
  by (auto simp: select_key_def find_None_iff)

lemma select_key_iff:
  "keys_ok key rows \<Longrightarrow> select_key key k rows = Some r \<longleftrightarrow> r \<in> set rows \<and> key r = k"
proof
  assume ok: "keys_ok key rows" and r: "r \<in> set rows \<and> key r = k"
  then obtain x where x: "select_key key k rows = Some x"
    using select_key_None [of key k rows] by (cases "select_key key k rows") auto
  from select_key_Some [OF x] r ok have "x = r" by (auto simp: keys_ok_def distinct_map inj_on_def)
  with x show "select_key key k rows = Some r" by simp
qed (rule select_key_Some)

lemma find_append: "List.find P (xs @ ys) = (case List.find P xs of None \<Rightarrow> List.find P ys | Some x \<Rightarrow> Some x)"
  by (induction xs) auto

lemma find_filter_other: "(\<And>x. P x \<Longrightarrow> Q x) \<Longrightarrow> List.find P (filter Q xs) = List.find P xs"
  by (induction xs) auto

lemma find_none: "(\<And>x. x \<in> set xs \<Longrightarrow> \<not> P x) \<Longrightarrow> List.find P xs = None"
  by (simp add: find_None_iff)

lemma select_insert_or_replace [sql]:
  "select_key key k (insert_or_replace key r rows) = (if k = key r then Some r else select_key key k rows)"
proof (cases "k = key r")
  case True
  then have "List.find (\<lambda>x. key x = k) (filter (\<lambda>x. key x \<noteq> key r) rows) = None"
    by (intro find_none) auto
  with True show ?thesis by (simp add: select_key_def insert_or_replace_def find_append)
next
  case False
  then have "List.find (\<lambda>x. key x = k) (filter (\<lambda>x. key x \<noteq> key r) rows) = List.find (\<lambda>x. key x = k) rows"
    by (intro find_filter_other) auto
  with False show ?thesis
    by (auto simp: select_key_def insert_or_replace_def find_append split: option.splits)
qed

lemma keys_ok_insert_or_replace [sql]: "keys_ok key rows \<Longrightarrow> keys_ok key (insert_or_replace key r rows)"
  by (auto simp: keys_ok_def insert_or_replace_def distinct_map_filter)

lemma set_insert_or_replace [sql]:
  "set (insert_or_replace key r rows) = insert r {x \<in> set rows. key x \<noteq> key r}"
  by (auto simp: insert_or_replace_def)

lemma set_insert_or_ignore [sql]:
  "set (insert_or_ignore key r rows) = (if key r \<in> key ` set rows then set rows else insert r (set rows))"
  by (auto simp: insert_or_ignore_def)

lemma keys_ok_insert_or_ignore [sql]: "keys_ok key rows \<Longrightarrow> keys_ok key (insert_or_ignore key r rows)"
  by (auto simp: keys_ok_def insert_or_ignore_def)

lemma find_map_upd:
  "(\<And>x. key (f x) = key x) \<Longrightarrow>
   List.find (\<lambda>x. key x = k) (map (\<lambda>x. if P x then f x else x) rows)
     = map_option (\<lambda>x. if P x then f x else x) (List.find (\<lambda>x. key x = k) rows)"
  by (induction rows) auto

lemma select_update_where [sql]:
  "(\<And>x. key (f x) = key x) \<Longrightarrow>
     select_key key k (update_where P f rows) = map_option (\<lambda>x. if P x then f x else x) (select_key key k rows)"
  by (simp add: select_key_def update_where_def find_map_upd)

lemma keys_ok_update_where [sql]:
  "(\<And>x. key (f x) = key x) \<Longrightarrow> keys_ok key (update_where P f rows) = keys_ok key rows"
  by (simp add: keys_ok_def update_where_def comp_def if_distrib cong: if_cong)

lemma set_update_where [sql]:
  "set (update_where P f rows) = {x \<in> set rows. \<not> P x} \<union> f ` {x \<in> set rows. P x}"
  by (auto simp: update_where_def)

lemma select_upsert [sql]:
  "(\<And>x. key (f x) = key x) \<Longrightarrow>
   select_key key k (upsert key f r rows) =
     (if k = key r then (case select_key key k rows of None \<Rightarrow> Some r | Some x \<Rightarrow> Some (f x))
      else select_key key k rows)"
proof (cases "key r \<in> key ` set rows")
  case True
  assume f: "\<And>x. key (f x) = key x"
  from True obtain y where "select_key key (key r) rows = Some y"
    using select_key_None [of key "key r" rows] by (cases "select_key key (key r) rows") auto
  moreover have "upsert key f r rows = update_where (\<lambda>x. key x = key r) f rows"
    using True by (auto simp: upsert_def update_where_def)
  moreover have "key y = key r" using calculation(1) select_key_Some by metis
  moreover have "key x = k" if "select_key key k rows = Some x" for x
    using select_key_Some [OF that] by simp
  ultimately show ?thesis
    using f by (cases "k = key r"; cases "select_key key k rows") (simp_all add: select_update_where)
next
  case False
  then have "upsert key f r rows = rows @ [r]" and n: "select_key key (key r) rows = None"
    by (simp_all add: upsert_def select_key_None)
  moreover have "select_key key k (rows @ [r]) =
      (case select_key key k rows of None \<Rightarrow> if key r = k then Some r else None | Some x \<Rightarrow> Some x)"
    by (simp add: select_key_def find_append split: option.split)
  ultimately show ?thesis
    by (cases "k = key r") (auto split: option.splits)
qed

lemma keys_ok_upsert [sql]:
  "(\<And>x. key (f x) = key x) \<Longrightarrow> keys_ok key rows \<Longrightarrow> keys_ok key (upsert key f r rows)"
  by (auto simp: keys_ok_def upsert_def comp_def if_distrib cong: if_cong)

lemma set_upsert [sql]:
  "x \<in> set (upsert key f r rows) \<Longrightarrow> x = r \<or> x \<in> set rows \<or> (\<exists>y\<in>set rows. key y = key r \<and> x = f y)"
  by (auto simp: upsert_def split: if_splits)

lemma set_delete_where [sql]: "set (delete_where P rows) = {x \<in> set rows. \<not> P x}"
  by (auto simp: delete_where_def)

lemma keys_ok_delete_where [sql]: "keys_ok key rows \<Longrightarrow> keys_ok key (delete_where P rows)"
  by (simp add: keys_ok_def delete_where_def distinct_map_filter)

lemma select_delete_where [sql]:
  "keys_ok key rows \<Longrightarrow> select_key key k (delete_where P rows) =
     (case select_key key k rows of None \<Rightarrow> None | Some x \<Rightarrow> if P x then None else Some x)"
proof -
  assume ok: "keys_ok key rows"
  show ?thesis
  proof (cases "select_key key k rows")
    case None
    then have "select_key key k (delete_where P rows) = None" by (auto simp: select_key_None set_delete_where)
    with None show ?thesis by simp
  next
    case (Some x)
    then have x: "x \<in> set rows \<and> key x = k" by (rule select_key_Some)
    show ?thesis
    proof (cases "P x")
      case True
      with Some x ok have "k \<notin> key ` set (delete_where P rows)"
        by (auto simp: set_delete_where keys_ok_def distinct_map dest: inj_onD)
      with Some True show ?thesis by (simp add: select_key_None)
    next
      case False
      with x ok have "select_key key k (delete_where P rows) = Some x"
        by (simp add: select_key_iff keys_ok_delete_where set_delete_where)
      with Some False show ?thesis by simp
    qed
  qed
qed

lemma keys_ok_update_or_ignore:
  assumes "keys_ok key rows" "\<And>x y. x \<in> set rows \<Longrightarrow> y \<in> set rows \<Longrightarrow> P x \<Longrightarrow> P y \<Longrightarrow> key (f x) = key (f y) \<Longrightarrow> x = y"
  shows "keys_ok key (update_or_ignore key P f rows)"
proof -
  let ?g = "\<lambda>r. if P r \<and> key (f r) \<notin> set (map key rows) then f r else r"
  have d: "distinct rows" "inj_on key (set rows)" using assms(1) by (auto simp: keys_ok_def distinct_map)
  have "inj_on (\<lambda>r. key (?g r)) (set rows)"
  proof (rule inj_onI)
    fix x y assume x: "x \<in> set rows" and y: "y \<in> set rows" and e: "key (?g x) = key (?g y)"
    have kx: "key x \<in> set (map key rows)" "key y \<in> set (map key rows)" using x y by auto
    define cx cy where "cx \<longleftrightarrow> P x \<and> key (f x) \<notin> set (map key rows)"
      and "cy \<longleftrightarrow> P y \<and> key (f y) \<notin> set (map key rows)"
    then have e': "key (if cx then f x else x) = key (if cy then f y else y)" and
      c: "cx \<longrightarrow> P x \<and> key (f x) \<notin> set (map key rows)" "cy \<longrightarrow> P y \<and> key (f y) \<notin> set (map key rows)"
      using e by blast+
    show "x = y"
    proof (cases cx; cases cy)
      assume "cx" "cy" with e' c assms(2) [OF x y] show ?thesis by auto
    next
      assume "cx" "\<not> cy" with e' c(1) kx(2) show ?thesis by (metis (full_types))
    next
      assume "\<not> cx" "cy" with e' c(2) kx(1) show ?thesis by (metis (full_types))
    next
      assume "\<not> cx" "\<not> cy" with e' inj_onD [OF d(2) _ x y] show ?thesis by simp
    qed
  qed
  with d(1) show ?thesis by (simp add: keys_ok_def update_or_ignore_def distinct_map comp_def)
qed

lemma select_latest_None [simp]: "select_latest m rows = None \<longleftrightarrow> rows = []"
  by (cases rows) (auto split: option.splits)

lemma select_latest_Some:
  "select_latest m rows = Some r \<Longrightarrow> r \<in> set rows \<and> (\<forall>x\<in>set rows. m x \<le> m r)"
proof (induction rows arbitrary: r)
  case (Cons a rs)
  show ?case
  proof (cases "select_latest m rs")
    case None
    with Cons.prems show ?thesis by simp
  next
    case (Some x)
    with Cons.IH [OF Some] Cons.prems show ?thesis
      by (cases "m x \<le> m a") (auto intro: order_trans)
  qed
qed simp

end
