(* ===== verification/E2e_Keyring.thy ===== *)
theory E2e_Keyring
  imports Sql_Table Glob E2e_Context Crates Storage_Crypto
begin

text \<open>
  The keyring (\<open>src/src/e2e/keyring.rs\<close>) over its SQLite tables (\<open>src/src/storage/db.rs\<close>): the
  typed records, the rows they are stored as, and every operation.  A statement that SQLite itself
  fails (disk errors) is not modelled, so an operation whose only error is SQLite's is total.  The
  clock of \<open>now_unix\<close> is an argument.
\<close>

section \<open>Trust status and channel mode\<close>

datatype trust_status = Pending | Trusted | Revoked

fun status_as_str :: "trust_status \<Rightarrow> bytes" where
  "status_as_str Pending = ''pending''"
| "status_as_str Trusted = ''trusted''"
| "status_as_str Revoked = ''revoked''"

definition status_parse :: "bytes \<Rightarrow> trust_status" where
  "status_parse s = (if s = ''trusted'' then Trusted else if s = ''revoked'' then Revoked else Pending)"

datatype channel_mode = AutoAccept | Normal | Quiet

fun mode_as_str :: "channel_mode \<Rightarrow> bytes" where
  "mode_as_str AutoAccept = ''auto-accept''"
| "mode_as_str Normal = ''normal''"
| "mode_as_str Quiet = ''quiet''"

definition mode_parse :: "bytes \<Rightarrow> channel_mode" where
  "mode_parse s = (if s = ''auto-accept'' \<or> s = ''auto'' then AutoAccept
     else if s = ''quiet'' then Quiet else Normal)"

lemma status_parse_str [simp]: "status_parse (status_as_str s) = s"
  by (cases s) (simp_all add: status_parse_def)

lemma mode_parse_str [simp]: "mode_parse (mode_as_str m) = m"
  by (cases m) (simp_all add: mode_parse_def)

lemma status_str_trusted [simp]: "status_as_str s = ''trusted'' \<longleftrightarrow> s = Trusted"
  by (cases s) simp_all

interpretation status_codec: codec status_as_str "\<lambda>s. Inr (status_parse s)" "\<lambda>_. True"
  by unfold_locales simp

interpretation mode_codec: codec mode_as_str "\<lambda>s. Inr (mode_parse s)" "\<lambda>_. True"
  by unfold_locales simp

section \<open>Records\<close>

record peer_record =
  p_fingerprint :: bytes
  p_pubkey :: bytes
  p_last_handle :: "bytes option"
  p_last_nick :: "bytes option"
  p_first_seen :: int
  p_last_seen :: int
  p_global_status :: trust_status

record incoming_session =
  i_handle :: bytes
  i_channel :: bytes
  i_fingerprint :: bytes
  i_sk :: bytes
  i_status :: trust_status
  i_created_at :: int

record outgoing_session =
  o_channel :: bytes
  o_sk :: bytes
  o_created_at :: int
  o_pending_rotation :: bool

record channel_config =
  c_channel :: bytes
  c_enabled :: bool
  c_mode :: channel_mode

section \<open>Rows\<close>

record identity_row =
  ir_pubkey :: bytes
  ir_privkey :: bytes
  ir_fingerprint :: bytes
  ir_created_at :: int

record peer_row =
  pr_fingerprint :: bytes
  pr_pubkey :: bytes
  pr_last_handle :: "bytes option"
  pr_last_nick :: "bytes option"
  pr_first_seen :: int
  pr_last_seen :: int
  pr_global_status :: bytes

record outgoing_row =
  or_channel :: bytes
  or_sk :: bytes
  or_created_at :: int
  or_pending_rotation :: int

record incoming_row =
  nr_handle :: bytes
  nr_channel :: bytes
  nr_fingerprint :: bytes
  nr_sk :: bytes
  nr_status :: bytes
  nr_created_at :: int
  nr_prev_sk :: "bytes option"
  nr_prev_created_at :: "int option"

record config_row =
  cr_channel :: bytes
  cr_enabled :: int
  cr_mode :: bytes

record recipient_row =
  rr_channel :: bytes
  rr_handle :: bytes
  rr_fingerprint :: bytes
  rr_first_sent_at :: int

record autotrust_row =
  ar_scope :: bytes
  ar_pattern :: bytes
  ar_created_at :: int

record rekey_row =
  sr_fingerprint :: bytes
  sr_channel :: bytes
  sr_nonce :: bytes
  sr_seen_at :: int

record dm_row =
  dr_network :: bytes
  dr_nick :: bytes
  dr_handle :: bytes

text \<open>\<open>k_configured_networks\<close> is a \<open>HashSet\<close>: a list without repetitions.\<close>

record keyring =
  k_secret_key :: "gcm_key option"
  k_configured_networks :: "bytes list"
  k_identity :: "identity_row option"
  k_peers :: "peer_row list"
  k_outgoing :: "outgoing_row list"
  k_incoming :: "incoming_row list"
  k_rekeys :: "rekey_row list"
  k_config :: "config_row list"
  k_autotrust :: "autotrust_row list"
  k_recipients :: "recipient_row list"
  k_dm_cache :: "dm_row list"

definition keyring_new :: keyring where
  "keyring_new = \<lparr>k_secret_key = None, k_configured_networks = [], k_identity = None, k_peers = [],
     k_outgoing = [], k_incoming = [], k_rekeys = [], k_config = [], k_autotrust = [],
     k_recipients = [], k_dm_cache = []\<rparr>"

abbreviation in_key :: "incoming_row \<Rightarrow> bytes \<times> bytes" where
  "in_key r \<equiv> (nr_handle r, nr_channel r)"

abbreviation rec_key :: "recipient_row \<Rightarrow> bytes \<times> bytes" where
  "rec_key r \<equiv> (rr_channel r, rr_handle r)"

abbreviation rekey_key :: "rekey_row \<Rightarrow> bytes \<times> bytes \<times> bytes" where
  "rekey_key r \<equiv> (sr_fingerprint r, sr_channel r, sr_nonce r)"

abbreviation auto_key :: "autotrust_row \<Rightarrow> bytes \<times> bytes" where
  "auto_key r \<equiv> (ar_scope r, ar_pattern r)"

text \<open>The \<open>nick\<close> column has collation NOCASE.\<close>

abbreviation dm_key :: "dm_row \<Rightarrow> bytes \<times> bytes" where
  "dm_key r \<equiv> (dr_network r, to_ascii_lowercase (dr_nick r))"

definition keyring_ok :: "keyring \<Rightarrow> bool" where
  "keyring_ok k \<longleftrightarrow> keys_ok pr_fingerprint (k_peers k) \<and> keys_ok or_channel (k_outgoing k)
     \<and> keys_ok in_key (k_incoming k) \<and> keys_ok rekey_key (k_rekeys k)
     \<and> keys_ok cr_channel (k_config k) \<and> keys_ok auto_key (k_autotrust k)
     \<and> keys_ok rec_key (k_recipients k) \<and> keys_ok dm_key (k_dm_cache k)"

text \<open>\<open>ORDER BY\<close> a text column: a stable insertion sort by the column's bytes.\<close>

fun bytes_le :: "bytes \<Rightarrow> bytes \<Rightarrow> bool" where
  "bytes_le [] ys = True"
| "bytes_le (x # xs) [] = False"
| "bytes_le (x # xs) (y # ys) = (bval x < bval y \<or> (x = y \<and> bytes_le xs ys))"

fun insert_by :: "('r \<Rightarrow> bytes) \<Rightarrow> 'r \<Rightarrow> 'r list \<Rightarrow> 'r list" where
  "insert_by col r [] = [r]"
| "insert_by col r (x # xs) = (if bytes_le (col r) (col x) then r # x # xs else x # insert_by col r xs)"

definition order_by :: "('r \<Rightarrow> bytes) \<Rightarrow> 'r list \<Rightarrow> 'r list" where
  "order_by col rows = foldr (insert_by col) rows []"

section \<open>Secrets at rest\<close>

definition encode_secret :: "keyring \<Rightarrow> bytes \<Rightarrow> e2e_error + bytes" where
  "encode_secret k b =
     (case k_secret_key k of
        None \<Rightarrow> Inr b
      | Some key \<Rightarrow> map_err KeyringErr (encrypt_bytes key b))"

definition decode_secret :: "keyring \<Rightarrow> nat \<Rightarrow> bytes \<Rightarrow> bytes \<Rightarrow> e2e_error + bytes" where
  "decode_secret k n b field =
     rbind (case k_secret_key k of
              Some key \<Rightarrow> if length b \<noteq> n then map_err KeyringErr (decrypt_bytes key b) else Inr b
            | None \<Rightarrow> Inr b) (\<lambda>decoded.
     if length decoded \<noteq> n
     then Inl (KeyringErr (field @ '' has unexpected length '' @ show_nat (length decoded)))
     else Inr decoded)"

lemma decode_secret_length: "decode_secret k n b field = Inr d \<Longrightarrow> length d = n"
  by (auto simp: decode_secret_def rbind_Inr split: if_splits)

section \<open>Identity\<close>

definition save_identity ::
  "bytes \<Rightarrow> bytes \<Rightarrow> bytes \<Rightarrow> int \<Rightarrow> keyring \<Rightarrow> e2e_error + keyring" where
  "save_identity pubkey privkey fingerprint created_at k =
     rbind (encode_secret k privkey) (\<lambda>enc.
     Inr (k\<lparr>k_identity := Some \<lparr>ir_pubkey = pubkey, ir_privkey = enc, ir_fingerprint = fingerprint,
                               ir_created_at = created_at\<rparr>\<rparr>))"

definition load_identity ::
  "keyring \<Rightarrow> e2e_error + (bytes \<times> bytes \<times> bytes \<times> int) option" where
  "load_identity k =
     (case k_identity k of
        None \<Rightarrow> Inr None
      | Some r \<Rightarrow>
          if length (ir_pubkey r) \<noteq> 32 \<or> length (ir_fingerprint r) \<noteq> 16
          then Inl (KeyringErr (''e2e_identity row has unexpected blob lengths (pk=''
                 @ show_nat (length (ir_pubkey r)) @ '', fp='' @ show_nat (length (ir_fingerprint r)) @ '')''))
          else rbind (decode_secret k 32 (ir_privkey r) ''e2e_identity privkey'') (\<lambda>sk.
               Inr (Some (ir_pubkey r, sk, ir_fingerprint r, ir_created_at r))))"

section \<open>Peers\<close>

definition peer_to_row :: "peer_record \<Rightarrow> peer_row" where
  "peer_to_row rec = \<lparr>pr_fingerprint = p_fingerprint rec, pr_pubkey = p_pubkey rec,
     pr_last_handle = p_last_handle rec, pr_last_nick = p_last_nick rec,
     pr_first_seen = p_first_seen rec, pr_last_seen = p_last_seen rec,
     pr_global_status = status_as_str (p_global_status rec)\<rparr>"

definition peer_of_row :: "peer_row \<Rightarrow> peer_record" where
  "peer_of_row r = \<lparr>p_fingerprint = pr_fingerprint r, p_pubkey = pr_pubkey r,
     p_last_handle = pr_last_handle r, p_last_nick = pr_last_nick r,
     p_first_seen = pr_first_seen r, p_last_seen = pr_last_seen r,
     p_global_status = status_parse (pr_global_status r)\<rparr>"

definition upsert_peer :: "peer_record \<Rightarrow> keyring \<Rightarrow> keyring" where
  "upsert_peer rec k =
     k\<lparr>k_peers := upsert pr_fingerprint
         (\<lambda>x. x\<lparr>pr_last_handle := p_last_handle rec, pr_last_nick := p_last_nick rec,
                pr_last_seen := p_last_seen rec,
                pr_global_status := status_as_str (p_global_status rec)\<rparr>)
         (peer_to_row rec) (k_peers k)\<rparr>"

definition get_peer_by_fingerprint :: "bytes \<Rightarrow> keyring \<Rightarrow> e2e_error + peer_record option" where
  "get_peer_by_fingerprint fp k =
     (case select_key pr_fingerprint fp (k_peers k) of
        None \<Rightarrow> Inr None
      | Some r \<Rightarrow>
          if length (pr_pubkey r) \<noteq> 32
          then Inl (KeyringErr (''e2e_peers row pubkey has unexpected length ''
                                @ show_nat (length (pr_pubkey r))))
          else Inr (Some (peer_of_row r)))"

definition get_peer_by_handle :: "bytes \<Rightarrow> keyring \<Rightarrow> e2e_error + peer_record option" where
  "get_peer_by_handle handle k =
     (case select_latest pr_last_seen (filter (\<lambda>r. pr_last_handle r = Some handle) (k_peers k)) of
        None \<Rightarrow> Inr None
      | Some r \<Rightarrow>
          if length (pr_fingerprint r) \<noteq> 16 \<or> length (pr_pubkey r) \<noteq> 32
          then Inl (KeyringErr (''e2e_peers row has unexpected blob lengths (fp=''
                 @ show_nat (length (pr_fingerprint r)) @ '', pk='' @ show_nat (length (pr_pubkey r)) @ '')''))
          else Inr (Some (peer_of_row r)))"

definition detach_other_peers_from_handle :: "bytes \<Rightarrow> bytes \<Rightarrow> keyring \<Rightarrow> keyring" where
  "detach_other_peers_from_handle handle keep k =
     k\<lparr>k_peers := update_where (\<lambda>r. pr_last_handle r = Some handle \<and> pr_fingerprint r \<noteq> keep)
                    (\<lambda>r. r\<lparr>pr_last_handle := None\<rparr>) (k_peers k)\<rparr>"

definition delete_peer_by_fingerprint :: "bytes \<Rightarrow> keyring \<Rightarrow> keyring" where
  "delete_peer_by_fingerprint fp k =
     k\<lparr>k_peers := delete_where (\<lambda>r. pr_fingerprint r = fp) (k_peers k)\<rparr>"

fun rows_to_peers :: "peer_row list \<Rightarrow> e2e_error + peer_record list" where
  "rows_to_peers [] = Inr []"
| "rows_to_peers (r # rs) =
     (if length (pr_fingerprint r) \<noteq> 16 \<or> length (pr_pubkey r) \<noteq> 32
      then Inl (KeyringErr (''e2e_peers row has unexpected blob lengths (fp=''
             @ show_nat (length (pr_fingerprint r)) @ '', pk='' @ show_nat (length (pr_pubkey r)) @ '')''))
      else rbind (rows_to_peers rs) (\<lambda>ps. Inr (peer_of_row r # ps)))"

definition list_all_peers :: "keyring \<Rightarrow> e2e_error + peer_record list" where
  "list_all_peers k = rows_to_peers (sort_key pr_first_seen (k_peers k))"

section \<open>Legacy contexts\<close>

definition set_configured_networks :: "bytes list \<Rightarrow> keyring \<Rightarrow> keyring" where
  "set_configured_networks labels k = k\<lparr>k_configured_networks := remdups labels\<rparr>"

definition legacy_adoption_allowed :: "keyring \<Rightarrow> bool" where
  "legacy_adoption_allowed k \<longleftrightarrow> length (k_configured_networks k) \<le> 1"

definition legacy_fallback :: "keyring \<Rightarrow> bytes \<Rightarrow> bytes option" where
  "legacy_fallback k channel =
     (case legacy_wire_fallback channel of
        None \<Rightarrow> None
      | Some wire \<Rightarrow> if legacy_adoption_allowed k then Some wire else None)"

text \<open>The read rule of every scoped lookup: the scoped row, else the legacy row where allowed.\<close>

definition with_fallback ::
  "keyring \<Rightarrow> bytes \<Rightarrow> (bytes \<Rightarrow> e2e_error + 'a option) \<Rightarrow> e2e_error + 'a option" where
  "with_fallback k channel get =
     rbind (get channel) (\<lambda>x.
     case x of
       Some s \<Rightarrow> Inr (Some s)
     | None \<Rightarrow> (case legacy_fallback k channel of None \<Rightarrow> Inr None | Some wire \<Rightarrow> get wire))"

section \<open>Outgoing sessions\<close>

definition set_outgoing_session :: "bytes \<Rightarrow> bytes \<Rightarrow> int \<Rightarrow> keyring \<Rightarrow> e2e_error + keyring" where
  "set_outgoing_session channel sk created_at k =
     rbind (encode_secret k sk) (\<lambda>enc.
     Inr (k\<lparr>k_outgoing := insert_or_replace or_channel
            \<lparr>or_channel = channel, or_sk = enc, or_created_at = created_at, or_pending_rotation = 0\<rparr>
            (k_outgoing k)\<rparr>))"

definition outgoing_of_row :: "keyring \<Rightarrow> outgoing_row \<Rightarrow> e2e_error + outgoing_session" where
  "outgoing_of_row k r =
     rbind (decode_secret k 32 (or_sk r) ''e2e_outgoing_sessions sk'') (\<lambda>sk.
     Inr \<lparr>o_channel = or_channel r, o_sk = sk, o_created_at = or_created_at r,
          o_pending_rotation = (or_pending_rotation r \<noteq> 0)\<rparr>)"

definition get_outgoing_session_exact :: "keyring \<Rightarrow> bytes \<Rightarrow> e2e_error + outgoing_session option" where
  "get_outgoing_session_exact k channel =
     (case select_key or_channel channel (k_outgoing k) of
        None \<Rightarrow> Inr None
      | Some r \<Rightarrow> rbind (outgoing_of_row k r) (\<lambda>s. Inr (Some s)))"

definition get_outgoing_session :: "bytes \<Rightarrow> keyring \<Rightarrow> e2e_error + outgoing_session option" where
  "get_outgoing_session channel k = with_fallback k channel (get_outgoing_session_exact k)"

definition set_pending_rotation :: "int \<Rightarrow> bytes \<Rightarrow> keyring \<Rightarrow> keyring" where
  "set_pending_rotation v channel k =
     k\<lparr>k_outgoing := update_where (\<lambda>r. or_channel r = channel \<or> or_channel r = wire_context channel)
                       (\<lambda>r. r\<lparr>or_pending_rotation := v\<rparr>) (k_outgoing k)\<rparr>"

definition mark_outgoing_pending_rotation :: "bytes \<Rightarrow> keyring \<Rightarrow> keyring" where
  "mark_outgoing_pending_rotation = set_pending_rotation 1"

definition clear_outgoing_pending_rotation :: "bytes \<Rightarrow> keyring \<Rightarrow> keyring" where
  "clear_outgoing_pending_rotation = set_pending_rotation 0"

fun rows_to_outgoing :: "keyring \<Rightarrow> outgoing_row list \<Rightarrow> e2e_error + outgoing_session list" where
  "rows_to_outgoing k [] = Inr []"
| "rows_to_outgoing k (r # rs) =
     rbind (outgoing_of_row k r) (\<lambda>s. rbind (rows_to_outgoing k rs) (\<lambda>ss. Inr (s # ss)))"

definition list_all_outgoing_sessions :: "keyring \<Rightarrow> e2e_error + outgoing_session list" where
  "list_all_outgoing_sessions k = rows_to_outgoing k (order_by or_channel (k_outgoing k))"

section \<open>Incoming sessions\<close>

definition incoming_to_row :: "incoming_session \<Rightarrow> bytes \<Rightarrow> (bytes \<times> int) option \<Rightarrow> incoming_row" where
  "incoming_to_row s enc prev = \<lparr>nr_handle = i_handle s, nr_channel = i_channel s,
     nr_fingerprint = i_fingerprint s, nr_sk = enc, nr_status = status_as_str (i_status s),
     nr_created_at = i_created_at s, nr_prev_sk = map_option fst prev,
     nr_prev_created_at = map_option snd prev\<rparr>"

definition set_incoming_session :: "incoming_session \<Rightarrow> keyring \<Rightarrow> e2e_error + keyring" where
  "set_incoming_session s k =
     rbind (encode_secret k (i_sk s)) (\<lambda>enc.
     Inr (k\<lparr>k_incoming := insert_or_replace in_key (incoming_to_row s enc None) (k_incoming k)\<rparr>))"

text \<open>The key an install supersedes, when it is worth keeping.\<close>

definition superseded_key :: "keyring \<Rightarrow> incoming_session \<Rightarrow> int \<Rightarrow> incoming_row option \<Rightarrow> (bytes \<times> int) option" where
  "superseded_key k s now existing =
     (case existing of
        None \<Rightarrow> None
      | Some r \<Rightarrow>
          if nr_status r \<noteq> status_as_str Trusted then None
          else (case decode_secret k 32 (nr_sk r) ''e2e_incoming_sessions sk'' of
                  Inl _ \<Rightarrow> None
                | Inr old_sk \<Rightarrow>
                    if old_sk = i_sk s \<or> old_sk = replicate 32 (byte_of 0) then None
                    else Some (nr_sk r, now)))"

definition existing_incoming :: "keyring \<Rightarrow> bytes \<Rightarrow> bytes \<Rightarrow> incoming_row option" where
  "existing_incoming k handle channel =
     (case select_key in_key (handle, channel) (k_incoming k) of
        Some r \<Rightarrow> Some r
      | None \<Rightarrow> (case legacy_fallback k channel of
                  None \<Rightarrow> None
                | Some wire \<Rightarrow> select_key in_key (handle, wire) (k_incoming k)))"

definition install_incoming_session_strict ::
  "'x codecs_scheme \<Rightarrow> int \<Rightarrow> incoming_session \<Rightarrow> keyring \<Rightarrow> e2e_error + keyring" where
  "install_incoming_session_strict cr now s k =
     rbind (encode_secret k (i_sk s)) (\<lambda>enc.
     let existing = existing_incoming k (i_handle s) (i_channel s) in
     if (case existing of Some r \<Rightarrow> nr_fingerprint r \<noteq> i_fingerprint s | None \<Rightarrow> False)
     then Inl (HandleMismatch (''fp='' @ hex_encode cr (nr_fingerprint (the existing)))
                              (''fp='' @ hex_encode cr (i_fingerprint s)))
     else Inr (k\<lparr>k_incoming := insert_or_replace in_key
                 (incoming_to_row s enc (superseded_key k s now existing)) (k_incoming k)\<rparr>))"

definition get_incoming_prev_key_exact :: "keyring \<Rightarrow> bytes \<Rightarrow> bytes \<Rightarrow> e2e_error + (bytes \<times> int) option" where
  "get_incoming_prev_key_exact k handle channel =
     (case select_key in_key (handle, channel) (k_incoming k) of
        None \<Rightarrow> Inr None
      | Some r \<Rightarrow>
          (case (nr_prev_sk r, nr_prev_created_at r) of
             (Some enc, Some replaced_at) \<Rightarrow>
               rbind (decode_secret k 32 enc ''e2e_incoming_sessions prev_sk'') (\<lambda>sk.
               Inr (Some (sk, replaced_at)))
           | _ \<Rightarrow> Inr None))"

definition get_incoming_prev_key :: "bytes \<Rightarrow> bytes \<Rightarrow> keyring \<Rightarrow> e2e_error + (bytes \<times> int) option" where
  "get_incoming_prev_key handle channel k =
     with_fallback k channel (get_incoming_prev_key_exact k handle)"

definition record_rekey_nonce :: "bytes \<Rightarrow> bytes \<Rightarrow> bytes \<Rightarrow> int \<Rightarrow> keyring \<Rightarrow> bool \<times> keyring" where
  "record_rekey_nonce fingerprint channel nonce now k =
     (let r = \<lparr>sr_fingerprint = fingerprint, sr_channel = channel, sr_nonce = nonce, sr_seen_at = now\<rparr> in
      (rekey_key r \<notin> set (map rekey_key (k_rekeys k)),
       k\<lparr>k_rekeys := insert_or_ignore rekey_key r (k_rekeys k)\<rparr>))"

definition incoming_of_row :: "keyring \<Rightarrow> incoming_row \<Rightarrow> e2e_error + incoming_session" where
  "incoming_of_row k r =
     (if length (nr_fingerprint r) \<noteq> 16
      then Inl (KeyringErr (''e2e_incoming_sessions row has unexpected blob lengths (fp=''
                            @ show_nat (length (nr_fingerprint r)) @ '')''))
      else rbind (decode_secret k 32 (nr_sk r) ''e2e_incoming_sessions sk'') (\<lambda>sk.
           Inr \<lparr>i_handle = nr_handle r, i_channel = nr_channel r, i_fingerprint = nr_fingerprint r,
                i_sk = sk, i_status = status_parse (nr_status r), i_created_at = nr_created_at r\<rparr>))"

definition get_incoming_session_exact :: "keyring \<Rightarrow> bytes \<Rightarrow> bytes \<Rightarrow> e2e_error + incoming_session option" where
  "get_incoming_session_exact k handle channel =
     (case select_key in_key (handle, channel) (k_incoming k) of
        None \<Rightarrow> Inr None
      | Some r \<Rightarrow> rbind (incoming_of_row k r) (\<lambda>s. Inr (Some s)))"

definition get_incoming_session :: "bytes \<Rightarrow> bytes \<Rightarrow> keyring \<Rightarrow> e2e_error + incoming_session option" where
  "get_incoming_session handle channel k = with_fallback k channel (get_incoming_session_exact k handle)"

definition update_incoming_status :: "bytes \<Rightarrow> bytes \<Rightarrow> trust_status \<Rightarrow> keyring \<Rightarrow> keyring" where
  "update_incoming_status handle channel status k =
     k\<lparr>k_incoming := update_where
         (\<lambda>r. nr_handle r = handle \<and> (nr_channel r = channel \<or> nr_channel r = wire_context channel))
         (\<lambda>r. r\<lparr>nr_status := status_as_str status\<rparr>) (k_incoming k)\<rparr>"

definition delete_incoming_session :: "bytes \<Rightarrow> bytes \<Rightarrow> keyring \<Rightarrow> keyring" where
  "delete_incoming_session handle channel k =
     k\<lparr>k_incoming := delete_where
         (\<lambda>r. nr_handle r = handle \<and> (nr_channel r = channel \<or> nr_channel r = wire_context channel))
         (k_incoming k)\<rparr>"

text \<open>The two deletions by handle also return how many rows went.\<close>

definition delete_incoming_sessions_for_handle :: "bytes \<Rightarrow> keyring \<Rightarrow> nat \<times> keyring" where
  "delete_incoming_sessions_for_handle handle k =
     (length (filter (\<lambda>r. nr_handle r = handle) (k_incoming k)),
      k\<lparr>k_incoming := delete_where (\<lambda>r. nr_handle r = handle) (k_incoming k)\<rparr>)"

definition delete_outgoing_recipients_for_handle :: "bytes \<Rightarrow> keyring \<Rightarrow> nat \<times> keyring" where
  "delete_outgoing_recipients_for_handle handle k =
     (length (filter (\<lambda>r. rr_handle r = handle) (k_recipients k)),
      k\<lparr>k_recipients := delete_where (\<lambda>r. rr_handle r = handle) (k_recipients k)\<rparr>)"

fun rows_to_sessions :: "keyring \<Rightarrow> incoming_row list \<Rightarrow> e2e_error + incoming_session list" where
  "rows_to_sessions k [] = Inr []"
| "rows_to_sessions k (r # rs) =
     rbind (incoming_of_row k r) (\<lambda>s. rbind (rows_to_sessions k rs) (\<lambda>ss. Inr (s # ss)))"

definition list_all_incoming_sessions :: "keyring \<Rightarrow> e2e_error + incoming_session list" where
  "list_all_incoming_sessions k =
     rows_to_sessions k (order_by nr_channel (order_by nr_handle (k_incoming k)))"

definition list_trusted_peers_for_channel_exact ::
  "keyring \<Rightarrow> bytes \<Rightarrow> e2e_error + incoming_session list" where
  "list_trusted_peers_for_channel_exact k channel =
     rows_to_sessions k (filter (\<lambda>r. nr_channel r = channel \<and> nr_status r = ''trusted'') (k_incoming k))"

text \<open>The union with the legacy rows: appended unless the handle is there already.\<close>

fun union_by :: "('a \<Rightarrow> 'k) \<Rightarrow> 'a list \<Rightarrow> 'a list \<Rightarrow> 'a list" where
  "union_by key acc [] = acc"
| "union_by key acc (x # xs) =
     union_by key (if key x \<in> set (map key acc) then acc else acc @ [x]) xs"

definition list_trusted_peers_for_channel :: "bytes \<Rightarrow> keyring \<Rightarrow> e2e_error + incoming_session list" where
  "list_trusted_peers_for_channel channel k =
     rbind (list_trusted_peers_for_channel_exact k channel) (\<lambda>peers.
     case legacy_fallback k channel of
       None \<Rightarrow> Inr peers
     | Some wire \<Rightarrow> rbind (list_trusted_peers_for_channel_exact k wire) (\<lambda>legacy.
                    Inr (union_by i_handle peers legacy)))"

section \<open>Channel configuration\<close>

definition config_to_row :: "channel_config \<Rightarrow> config_row" where
  "config_to_row cfg = \<lparr>cr_channel = c_channel cfg, cr_enabled = (if c_enabled cfg then 1 else 0),
     cr_mode = mode_as_str (c_mode cfg)\<rparr>"

definition config_of_row :: "config_row \<Rightarrow> channel_config" where
  "config_of_row r = \<lparr>c_channel = cr_channel r, c_enabled = (cr_enabled r \<noteq> 0),
     c_mode = mode_parse (cr_mode r)\<rparr>"

definition set_channel_config :: "channel_config \<Rightarrow> keyring \<Rightarrow> keyring" where
  "set_channel_config cfg k = k\<lparr>k_config := insert_or_replace cr_channel (config_to_row cfg) (k_config k)\<rparr>"

definition get_channel_config_exact :: "keyring \<Rightarrow> bytes \<Rightarrow> channel_config option" where
  "get_channel_config_exact k channel =
     map_option config_of_row (select_key cr_channel channel (k_config k))"

text \<open>The scoped rows whose part after the first separator is \<open>wire\<close>; one or none.\<close>

definition unique_scoped_config_sibling :: "keyring \<Rightarrow> bytes \<Rightarrow> bytes option" where
  "unique_scoped_config_sibling k wire =
     (case remdups (map cr_channel (filter (\<lambda>r.
             case split_once CONTEXT_NET_SEPARATOR (cr_channel r) of
               None \<Rightarrow> False | Some (_, w) \<Rightarrow> w = wire) (k_config k))) of
        [only] \<Rightarrow> Some only
      | _ \<Rightarrow> None)"

definition network_of :: "bytes \<Rightarrow> bytes" where
  "network_of ctx = (case split_once CONTEXT_NET_SEPARATOR ctx of None \<Rightarrow> [] | Some (net, _) \<Rightarrow> net)"

definition get_channel_config :: "bytes \<Rightarrow> keyring \<Rightarrow> channel_config option" where
  "get_channel_config channel k =
     (case get_channel_config_exact k channel of
        Some cfg \<Rightarrow> Some cfg
      | None \<Rightarrow>
         (case legacy_wire_fallback channel of
            None \<Rightarrow> None
          | Some wire \<Rightarrow>
             (case (if legacy_adoption_allowed k then get_channel_config_exact k wire else None) of
                Some cfg \<Rightarrow> Some cfg
              | None \<Rightarrow>
                 (case unique_scoped_config_sibling k wire of
                    None \<Rightarrow> None
                  | Some healed \<Rightarrow>
                      if k_configured_networks k \<noteq> [] \<and>
                         network_of healed \<notin> set (k_configured_networks k) \<and>
                         \<not> is_bouncer_scope (network_of healed)
                      then get_channel_config_exact k healed else None))))"

definition list_all_channel_configs :: "keyring \<Rightarrow> channel_config list" where
  "list_all_channel_configs k = map config_of_row (order_by cr_channel (k_config k))"

definition set_channel_configs_if_unchanged ::
  "channel_config list \<Rightarrow> channel_config list \<Rightarrow> keyring \<Rightarrow> e2e_error + keyring" where
  "set_channel_configs_if_unchanged expected updates k =
     (if list_all_channel_configs k \<noteq> expected
      then Inl (KeyringErr ''Encryption settings changed elsewhere. Reopen the wizard before saving.'')
      else Inr (fold set_channel_config updates k))"

text \<open>\<open>WHERE channel = ?1 COLLATE NOCASE ORDER BY (channel = ?1) DESC LIMIT 1\<close>.\<close>

definition canonical_channel_context :: "keyring \<Rightarrow> bytes \<Rightarrow> bytes option" where
  "canonical_channel_context k context =
     (case select_key cr_channel context (k_config k) of
        Some r \<Rightarrow> Some (cr_channel r)
      | None \<Rightarrow> map_option cr_channel
                  (List.find (\<lambda>r. eq_ignore_ascii_case (cr_channel r) context) (k_config k)))"

definition has_enabled_previous_context :: "keyring \<Rightarrow> bytes \<Rightarrow> bool" where
  "has_enabled_previous_context k wire =
     list_ex (\<lambda>network. \<not> is_bouncer_scope network \<or> network \<notin> set (k_configured_networks k))
       (remdups (map (\<lambda>r. network_of (cr_channel r)) (filter (\<lambda>r. cr_enabled r = 1 \<and>
          (case split_once CONTEXT_NET_SEPARATOR (cr_channel r) of
             None \<Rightarrow> False | Some (_, w) \<Rightarrow> eq_ignore_ascii_case w wire)) (k_config k))))"

section \<open>Legacy migration\<close>

definition legacy_context_values :: "keyring \<Rightarrow> bytes list" where
  "legacy_context_values k =
     filter (\<lambda>ctx. strip_prefix ''@'' ctx \<noteq> None \<or> is_channel_target ctx)
       (filter (\<lambda>ctx. CONTEXT_NET_SEPARATOR \<notin> set ctx)
         (remdups (map cr_channel (k_config k) @ map or_channel (k_outgoing k)
            @ map nr_channel (k_incoming k) @ map rr_channel (k_recipients k)
            @ filter (\<lambda>s. s \<noteq> ''global'') (map ar_scope (k_autotrust k)))))"

definition attribute_legacy_context :: "keyring \<Rightarrow> bytes \<Rightarrow> bytes list \<Rightarrow> bytes option" where
  "attribute_legacy_context k wire configured =
     (case strip_prefix ''@'' wire of
        None \<Rightarrow> None
      | Some handle \<Rightarrow>
          (case remdups (map dr_network (filter (\<lambda>r. dr_handle r = handle) (k_dm_cache k))) of
             [only] \<Rightarrow> if only \<in> set configured then Some only else None
           | _ \<Rightarrow> None))"

text \<open>\<open>UPDATE OR IGNORE ... SET column = scoped\<close> followed by \<open>DELETE ... WHERE column = wire\<close>.\<close>

definition rename_column ::
  "('r \<Rightarrow> 'k) \<Rightarrow> ('r \<Rightarrow> bytes) \<Rightarrow> (bytes \<Rightarrow> 'r \<Rightarrow> 'r) \<Rightarrow> bytes \<Rightarrow> bytes \<Rightarrow> 'r list \<Rightarrow> 'r list" where
  "rename_column key col set_col wire scoped rows =
     delete_where (\<lambda>r. col r = wire)
       (update_or_ignore key (\<lambda>r. col r = wire) (set_col scoped) rows)"

definition migrate_legacy_context :: "bytes \<Rightarrow> bytes \<Rightarrow> keyring \<Rightarrow> keyring" where
  "migrate_legacy_context wire network k =
     (let scoped = scoped_context network wire in
      k\<lparr>k_config := rename_column cr_channel cr_channel (\<lambda>c r. r\<lparr>cr_channel := c\<rparr>) wire scoped (k_config k),
        k_outgoing := rename_column or_channel or_channel (\<lambda>c r. r\<lparr>or_channel := c\<rparr>) wire scoped (k_outgoing k),
        k_incoming := rename_column in_key nr_channel (\<lambda>c r. r\<lparr>nr_channel := c\<rparr>) wire scoped (k_incoming k),
        k_recipients := rename_column rec_key rr_channel (\<lambda>c r. r\<lparr>rr_channel := c\<rparr>) wire scoped (k_recipients k),
        k_autotrust := rename_column auto_key ar_scope (\<lambda>c r. r\<lparr>ar_scope := c\<rparr>) wire scoped (k_autotrust k)\<rparr>)"

fun adopt_loop :: "bytes list \<Rightarrow> bytes list \<Rightarrow> bytes list \<Rightarrow> keyring \<Rightarrow> bytes list \<times> keyring" where
  "adopt_loop configured [] unattributed k = (unattributed, k)"
| "adopt_loop configured (wire # rest) unattributed k =
     (let owner = (case configured of [only] \<Rightarrow> Some only
                   | _ \<Rightarrow> attribute_legacy_context k wire configured) in
      case owner of
        Some network \<Rightarrow>
          if \<not> is_bouncer_scope network
          then adopt_loop configured rest unattributed (migrate_legacy_context wire network k)
          else adopt_loop configured rest (unattributed @ [wire]) k
      | None \<Rightarrow> adopt_loop configured rest (unattributed @ [wire]) k)"

definition adopt_legacy_contexts :: "keyring \<Rightarrow> bytes list \<times> keyring" where
  "adopt_legacy_contexts k =
     (if k_configured_networks k = [] then ([], k)
      else adopt_loop (k_configured_networks k) (legacy_context_values k) [] k)"

definition list_scoped_networks :: "keyring \<Rightarrow> bytes list" where
  "list_scoped_networks k =
     remdups (map network_of (filter (\<lambda>c. CONTEXT_NET_SEPARATOR \<in> set c)
       (map cr_channel (k_config k) @ map or_channel (k_outgoing k) @ map nr_channel (k_incoming k))))"

section \<open>Autotrust\<close>

definition add_autotrust :: "bytes \<Rightarrow> bytes \<Rightarrow> int \<Rightarrow> keyring \<Rightarrow> keyring" where
  "add_autotrust scope pattern created_at k =
     k\<lparr>k_autotrust := insert_or_ignore auto_key
         \<lparr>ar_scope = scope, ar_pattern = pattern, ar_created_at = created_at\<rparr> (k_autotrust k)\<rparr>"

definition list_autotrust :: "keyring \<Rightarrow> (bytes \<times> bytes) list" where
  "list_autotrust k = map auto_key (k_autotrust k)"

text \<open>The matcher is total on inputs without a star; a run that does not end is no match.\<close>

definition autotrust_matches :: "(bytes \<Rightarrow> bytes list) \<Rightarrow> bytes \<Rightarrow> bytes \<Rightarrow> keyring \<Rightarrow> bool" where
  "autotrust_matches lowc handle channel k =
     (let legacy_scope = (case legacy_fallback k channel of None \<Rightarrow> channel | Some w \<Rightarrow> w) in
      list_ex (\<lambda>r. glob_matches_ci lowc (ar_pattern r) handle = Some True)
        (filter (\<lambda>r. ar_scope r = ''global'' \<or> ar_scope r = channel \<or> ar_scope r = legacy_scope)
          (k_autotrust k)))"

definition remove_autotrust :: "bytes \<Rightarrow> keyring \<Rightarrow> keyring" where
  "remove_autotrust pattern k =
     k\<lparr>k_autotrust := delete_where (\<lambda>r. ar_pattern r = pattern) (k_autotrust k)\<rparr>"

section \<open>Outgoing recipients\<close>

definition record_outgoing_recipient :: "bytes \<Rightarrow> bytes \<Rightarrow> bytes \<Rightarrow> int \<Rightarrow> keyring \<Rightarrow> keyring" where
  "record_outgoing_recipient channel handle fingerprint first_sent_at k =
     k\<lparr>k_recipients := upsert rec_key (\<lambda>x. x\<lparr>rr_fingerprint := fingerprint\<rparr>)
         \<lparr>rr_channel = channel, rr_handle = handle, rr_fingerprint = fingerprint,
          rr_first_sent_at = first_sent_at\<rparr> (k_recipients k)\<rparr>"

definition remove_outgoing_recipient :: "bytes \<Rightarrow> bytes \<Rightarrow> keyring \<Rightarrow> keyring" where
  "remove_outgoing_recipient channel handle k =
     k\<lparr>k_recipients := delete_where
         (\<lambda>r. (rr_channel r = channel \<or> rr_channel r = wire_context channel) \<and> rr_handle r = handle)
         (k_recipients k)\<rparr>"

fun rows_to_recipients :: "recipient_row list \<Rightarrow> e2e_error + (bytes \<times> bytes) list" where
  "rows_to_recipients [] = Inr []"
| "rows_to_recipients (r # rs) =
     (if length (rr_fingerprint r) \<noteq> 16
      then Inl (KeyringErr (''e2e_outgoing_recipients row fingerprint has unexpected length ''
                            @ show_nat (length (rr_fingerprint r))))
      else rbind (rows_to_recipients rs) (\<lambda>ps. Inr ((rr_handle r, rr_fingerprint r) # ps)))"

definition list_outgoing_recipients_exact :: "keyring \<Rightarrow> bytes \<Rightarrow> e2e_error + (bytes \<times> bytes) list" where
  "list_outgoing_recipients_exact k channel =
     rows_to_recipients (sort_key rr_first_sent_at (filter (\<lambda>r. rr_channel r = channel) (k_recipients k)))"

definition list_outgoing_recipients :: "bytes \<Rightarrow> keyring \<Rightarrow> e2e_error + (bytes \<times> bytes) list" where
  "list_outgoing_recipients channel k =
     rbind (list_outgoing_recipients_exact k channel) (\<lambda>rs.
     case legacy_fallback k channel of
       None \<Rightarrow> Inr rs
     | Some wire \<Rightarrow> rbind (list_outgoing_recipients_exact k wire) (\<lambda>legacy.
                    Inr (union_by fst rs legacy)))"

section \<open>The handle cache of private conversations\<close>

definition cached_dm_handle :: "keyring \<Rightarrow> bytes \<Rightarrow> bytes \<Rightarrow> bytes option" where
  "cached_dm_handle k nick network =
     map_option dr_handle (select_key dm_key (network, to_ascii_lowercase nick) (k_dm_cache k))"

definition legacy_handle_for_nick :: "keyring \<Rightarrow> bytes \<Rightarrow> bytes option" where
  "legacy_handle_for_nick k nick =
     (case select_latest pr_last_seen (filter (\<lambda>r.
             (case pr_last_nick r of None \<Rightarrow> False | Some n \<Rightarrow> eq_ignore_ascii_case n nick)
             \<and> pr_last_handle r \<noteq> None) (k_peers k)) of
        None \<Rightarrow> None
      | Some r \<Rightarrow> pr_last_handle r)"

definition last_handle_for_nick :: "keyring \<Rightarrow> bytes \<Rightarrow> bytes \<Rightarrow> bytes option" where
  "last_handle_for_nick k nick network =
     (let cached = cached_dm_handle k nick network in
      if cached \<noteq> None \<or> is_bouncer_scope network then cached
      else legacy_handle_for_nick k nick)"

definition cache_dm_handle :: "bytes \<Rightarrow> bytes \<Rightarrow> bytes \<Rightarrow> keyring \<Rightarrow> keyring" where
  "cache_dm_handle network nick handle k =
     k\<lparr>k_dm_cache := upsert dm_key (\<lambda>x. x\<lparr>dr_handle := handle\<rparr>)
         \<lparr>dr_network = network, dr_nick = nick, dr_handle = handle\<rparr> (k_dm_cache k)\<rparr>"

text \<open>\<open>UPDATE OR REPLACE ... SET nick = new\<close>: a row already under the new nick goes.\<close>

definition rename_dm_nick :: "bytes \<Rightarrow> bytes \<Rightarrow> bytes \<Rightarrow> keyring \<Rightarrow> keyring" where
  "rename_dm_nick network old_nick new_nick k =
     (let old = (network, to_ascii_lowercase old_nick); new = (network, to_ascii_lowercase new_nick) in
      case select_key dm_key old (k_dm_cache k) of
        None \<Rightarrow> k
      | Some _ \<Rightarrow>
          k\<lparr>k_dm_cache := update_where (\<lambda>r. dm_key r = old) (\<lambda>r. r\<lparr>dr_nick := new_nick\<rparr>)
              (delete_where (\<lambda>r. dm_key r = new \<and> new \<noteq> old) (k_dm_cache k))\<rparr>)"

definition previous_handles_for_nick :: "keyring \<Rightarrow> bytes \<Rightarrow> bytes list" where
  "previous_handles_for_nick k nick =
     map dr_handle (filter (\<lambda>r. \<not> is_bouncer_scope (dr_network r)
                                \<or> dr_network r \<notin> set (k_configured_networks k))
       (filter (\<lambda>r. eq_ignore_ascii_case (dr_nick r) nick) (k_dm_cache k)))"

section \<open>Import\<close>

text \<open>
  One transaction, row by row: it is rolled back when a secret cannot be sealed or a row repeats a
  primary key.
\<close>

fun import_rows :: "('r \<Rightarrow> 'k) \<Rightarrow> ('a \<Rightarrow> e2e_error + 'r) \<Rightarrow> 'a list \<Rightarrow> 'r list \<Rightarrow> e2e_error + 'r list" where
  "import_rows key mk [] rows = Inr rows"
| "import_rows key mk (x # xs) rows =
     rbind (mk x) (\<lambda>r.
     if key r \<in> set (map key rows) then Inl SqliteErr else import_rows key mk xs (rows @ [r]))"

definition replace_all_for_import ::
  "bytes \<times> bytes \<times> bytes \<times> int \<Rightarrow> peer_record list \<Rightarrow> incoming_session list \<Rightarrow> outgoing_session list
    \<Rightarrow> channel_config list \<Rightarrow> (bytes \<times> bytes \<times> int) list \<Rightarrow> keyring \<Rightarrow> e2e_error + keyring" where
  "replace_all_for_import ident peers ins outs channels autotrust k =
     (case ident of (pubkey, privkey, fingerprint, created_at) \<Rightarrow>
        rbind (save_identity pubkey privkey fingerprint created_at
                 (k\<lparr>k_recipients := [], k_autotrust := [], k_config := [], k_outgoing := [],
                    k_incoming := [], k_peers := [], k_dm_cache := [], k_identity := None\<rparr>)) (\<lambda>k1.
        rbind (import_rows pr_fingerprint (\<lambda>p. Inr (peer_to_row p)) peers []) (\<lambda>ps.
        rbind (import_rows in_key (\<lambda>s. rbind (encode_secret k (i_sk s)) (\<lambda>enc.
                 Inr (incoming_to_row s enc None))) ins []) (\<lambda>is.
        rbind (import_rows or_channel (\<lambda>s. rbind (encode_secret k (o_sk s)) (\<lambda>enc.
                 Inr \<lparr>or_channel = o_channel s, or_sk = enc, or_created_at = o_created_at s,
                      or_pending_rotation = (if o_pending_rotation s then 1 else 0)\<rparr>)) outs []) (\<lambda>os.
        rbind (import_rows cr_channel (\<lambda>c. Inr (config_to_row c)) channels []) (\<lambda>cs.
        rbind (import_rows auto_key (\<lambda>(s, p, t). Inr \<lparr>ar_scope = s, ar_pattern = p, ar_created_at = t\<rparr>)
                 autotrust []) (\<lambda>as.
        Inr (k1\<lparr>k_peers := ps, k_incoming := is, k_outgoing := os, k_config := cs,
               k_autotrust := as\<rparr>))))))))"

end
