(* ===== verification/Peer_Store.thy ===== *)
theory Peer_Store
  imports E2e_Keyring
begin

text \<open>
  The peer table as the manager sees it: a lookup by fingerprint, a reverse lookup by handle, and
  the updates that pin an identity and bind it to a handle.  The locale states the contract the
  handshake rests on, the interpretation discharges it for the keyring's tables.
\<close>

definition unique_binding :: "('f \<Rightarrow> 'p option) \<Rightarrow> ('p \<Rightarrow> 'h option) \<Rightarrow> bool" where
  "unique_binding look handle \<longleftrightarrow>
     (\<forall>f g p q h. look f = Some p \<longrightarrow> look g = Some q \<longrightarrow> handle p = Some h \<longrightarrow> handle q = Some h \<longrightarrow> f = g)"

locale peer_store =
  fixes put :: "'p \<Rightarrow> 's \<Rightarrow> 's"
    and look :: "'f \<Rightarrow> 's \<Rightarrow> 'p option"
    and at_handle :: "'h \<Rightarrow> 's \<Rightarrow> 'p option"
    and detach :: "'h \<Rightarrow> 'f \<Rightarrow> 's \<Rightarrow> 's"
    and remove :: "'f \<Rightarrow> 's \<Rightarrow> 's"
    and fp :: "'p \<Rightarrow> 'f"
    and handle :: "'p \<Rightarrow> 'h option"
    and unbind :: "'p \<Rightarrow> 'p"
    and merge :: "'p \<Rightarrow> 'p \<Rightarrow> 'p"
    and ok :: "'s \<Rightarrow> bool"
  assumes look_put: "ok s \<Longrightarrow> look f (put p s) =
        (if f = fp p then Some (case look f s of None \<Rightarrow> p | Some q \<Rightarrow> merge q p) else look f s)"
    and look_detach: "ok s \<Longrightarrow> look f (detach h keep s) =
        map_option (\<lambda>p. if handle p = Some h \<and> f \<noteq> keep then unbind p else p) (look f s)"
    and look_remove: "ok s \<Longrightarrow> look f (remove g s) = (if f = g then None else look f s)"
    and look_fp: "look f s = Some p \<Longrightarrow> fp p = f"
    and handle_merge: "handle (merge q p) = handle p"
    and handle_unbind: "handle (unbind p) = None"
    and at_handle_Some: "ok s \<Longrightarrow> at_handle h s = Some p \<Longrightarrow> look (fp p) s = Some p \<and> handle p = Some h"
    and at_handle_None: "ok s \<Longrightarrow> at_handle h s = None \<Longrightarrow> look f s = Some p \<Longrightarrow> handle p \<noteq> Some h"
    and ok_put: "ok s \<Longrightarrow> ok (put p s)"
    and ok_detach: "ok s \<Longrightarrow> ok (detach h keep s)"
    and ok_remove: "ok s \<Longrightarrow> ok (remove f s)"
begin

text \<open>A binding may be written where the handle is free or already the identity's.\<close>

lemma unique_put:
  assumes "ok s" "unique_binding (\<lambda>f. look f s) handle"
    "\<And>h q. handle p = Some h \<Longrightarrow> at_handle h s = Some q \<Longrightarrow> fp q = fp p"
  shows "unique_binding (\<lambda>f. look f (put p s)) handle"
proof -
  have owner: "g = fp p" if "look g s = Some q" "handle q = Some h" "handle p = Some h" for g q h
  proof (cases "at_handle h s")
    case None
    with at_handle_None [OF assms(1) None that(1)] that(2) show ?thesis by simp
  next
    case (Some r)
    with at_handle_Some [OF assms(1) Some] assms(2) that assms(3) [OF that(3) Some]
    show ?thesis unfolding unique_binding_def by metis
  qed
  have h: "handle (case look f s of None \<Rightarrow> p | Some q \<Rightarrow> merge q p) = handle p" for f
    by (simp add: handle_merge split: option.split)
  show ?thesis
    unfolding unique_binding_def
  proof (intro allI impI)
    fix f g p' q h'
    assume l: "look f (put p s) = Some p'" "look g (put p s) = Some q"
      and hh: "handle p' = Some h'" "handle q = Some h'"
    show "f = g"
    proof (cases "f = fp p"; cases "g = fp p")
      assume "f = fp p" "g \<noteq> fp p"
      then have "handle p = Some h'" "look g s = Some q" using l hh h by (auto simp: look_put [OF assms(1)])
      with owner hh(2) \<open>g \<noteq> fp p\<close> show ?thesis by blast
    next
      assume "f \<noteq> fp p" "g = fp p"
      then have "handle p = Some h'" "look f s = Some p'" using l hh h by (auto simp: look_put [OF assms(1)])
      with owner hh(1) \<open>f \<noteq> fp p\<close> show ?thesis by blast
    next
      assume "f \<noteq> fp p" "g \<noteq> fp p"
      with l hh assms(2) show ?thesis
        unfolding unique_binding_def look_put [OF assms(1)] by (metis (full_types))
    qed simp
  qed
qed

lemma unique_detach:
  "ok s \<Longrightarrow> unique_binding (\<lambda>f. look f s) handle \<Longrightarrow> unique_binding (\<lambda>f. look f (detach h keep s)) handle"
  unfolding unique_binding_def look_detach
  by (auto simp: handle_unbind split: if_splits)

lemma unique_remove:
  "ok s \<Longrightarrow> unique_binding (\<lambda>f. look f s) handle \<Longrightarrow> unique_binding (\<lambda>f. look f (remove g s)) handle"
  unfolding unique_binding_def look_remove by (auto split: if_splits)

text \<open>Writing a binding and unbinding the others makes the identity the sole owner, from any state.\<close>

lemma bind_sole:
  assumes "ok s" "handle p = Some h" "look f (detach h (fp p) (put p s)) = Some q" "handle q = Some h"
  shows "f = fp p"
proof (rule ccontr)
  assume ne: "f \<noteq> fp p"
  with assms(3) obtain p0 where "q = (if handle p0 = Some h \<and> f \<noteq> fp p then unbind p0 else p0)"
    by (auto simp: look_detach [OF ok_put [OF assms(1)]])
  with ne assms(4) handle_unbind [of p0] show False by (auto split: if_splits)
qed

lemma bind_owner:
  assumes "ok s" "handle p = Some h"
  shows "\<exists>q. at_handle h (detach h (fp p) (put p s)) = Some q \<and> fp q = fp p"
proof -
  let ?s = "detach h (fp p) (put p s)"
  have ok: "ok ?s" using assms(1) by (simp add: ok_put ok_detach)
  obtain q where q: "look (fp p) ?s = Some q" "handle q = Some h"
    using assms by (auto simp: look_detach look_put ok_put handle_merge split: option.splits)
  show ?thesis
  proof (cases "at_handle h ?s")
    case None
    with at_handle_None [OF ok None q(1)] q(2) show ?thesis by simp
  next
    case (Some r)
    with at_handle_Some [OF ok Some] bind_sole [OF assms] show ?thesis by blast
  qed
qed

lemma unique_bind:
  assumes "ok s" "unique_binding (\<lambda>f. look f s) handle" "handle p = Some h"
  shows "unique_binding (\<lambda>f. look f (detach h (fp p) (put p s))) handle"
  unfolding unique_binding_def
proof (intro allI impI)
  fix f g p' q h'
  assume l: "look f (detach h (fp p) (put p s)) = Some p'" "look g (detach h (fp p) (put p s)) = Some q"
    and hh: "handle p' = Some h'" "handle q = Some h'"
  show "f = g"
  proof (cases "h' = h")
    case True
    with l hh bind_sole [OF assms(1,3)] show ?thesis by blast
  next
    case False
    have "look f s = Some p' \<and> look g s = Some q"
      using l hh False assms(1,3)
      by (auto simp: look_detach look_put ok_put handle_unbind handle_merge split: if_splits option.splits)
    with assms(2) hh show ?thesis unfolding unique_binding_def by metis
  qed
qed

end

section \<open>The keyring's tables keep the contract\<close>

definition peer_at :: "bytes \<Rightarrow> keyring \<Rightarrow> peer_record option" where
  "peer_at fp k = map_option peer_of_row (select_key pr_fingerprint fp (k_peers k))"

definition peer_by_handle :: "bytes \<Rightarrow> keyring \<Rightarrow> peer_record option" where
  "peer_by_handle h k =
     map_option peer_of_row (select_latest pr_last_seen (filter (\<lambda>r. pr_last_handle r = Some h) (k_peers k)))"

definition peers_ok :: "keyring \<Rightarrow> bool" where
  "peers_ok k \<longleftrightarrow> keys_ok pr_fingerprint (k_peers k)"

text \<open>What \<open>ON CONFLICT DO UPDATE\<close> keeps of the old row: the key and the time it was first seen.\<close>

definition merge_peer :: "peer_record \<Rightarrow> peer_record \<Rightarrow> peer_record" where
  "merge_peer old new = new\<lparr>p_fingerprint := p_fingerprint old, p_pubkey := p_pubkey old,
     p_first_seen := p_first_seen old\<rparr>"

lemma peer_of_row_to_row [simp]: "peer_of_row (peer_to_row p) = p"
  by (simp add: peer_of_row_def peer_to_row_def)

lemma p_fields_of_row [simp]:
  "p_fingerprint (peer_of_row r) = pr_fingerprint r" "p_pubkey (peer_of_row r) = pr_pubkey r"
  "p_last_handle (peer_of_row r) = pr_last_handle r" "p_first_seen (peer_of_row r) = pr_first_seen r"
  "p_global_status (peer_of_row r) = status_parse (pr_global_status r)"
  "p_last_nick (peer_of_row r) = pr_last_nick r" "p_last_seen (peer_of_row r) = pr_last_seen r"
  by (simp_all add: peer_of_row_def)

lemma peers_ok_keyring_ok: "keyring_ok k \<Longrightarrow> peers_ok k"
  by (simp add: keyring_ok_def peers_ok_def)

interpretation peers: peer_store upsert_peer peer_at peer_by_handle detach_other_peers_from_handle
  delete_peer_by_fingerprint p_fingerprint p_last_handle "\<lambda>p. p\<lparr>p_last_handle := None\<rparr>" merge_peer peers_ok
proof unfold_locales
  fix k f p
  show "peer_at f (upsert_peer p k) =
      (if f = p_fingerprint p then Some (case peer_at f k of None \<Rightarrow> p | Some q \<Rightarrow> merge_peer q p)
       else peer_at f k)"
    by (auto simp: peer_at_def upsert_peer_def select_upsert peer_to_row_def [of p]
        peer_of_row_to_row [unfolded peer_to_row_def] merge_peer_def peer_of_row_def split: option.splits)
next
  fix k f h keep
  show "peer_at f (detach_other_peers_from_handle h keep k) =
      map_option (\<lambda>p. if p_last_handle p = Some h \<and> f \<noteq> keep then p\<lparr>p_last_handle := None\<rparr> else p) (peer_at f k)"
    using select_key_Some [of pr_fingerprint f "k_peers k"]
    by (cases "select_key pr_fingerprint f (k_peers k)")
      (auto simp: peer_at_def detach_other_peers_from_handle_def select_update_where peer_of_row_def)
next
  fix k f g
  assume "peers_ok k"
  then show "peer_at f (delete_peer_by_fingerprint g k) = (if f = g then None else peer_at f k)"
    using select_key_Some [of pr_fingerprint f "k_peers k"]
    by (cases "select_key pr_fingerprint f (k_peers k)")
      (auto simp: peer_at_def delete_peer_by_fingerprint_def select_delete_where peers_ok_def)
next
  fix f k p
  assume "peer_at f k = Some p"
  then show "p_fingerprint p = f" by (auto simp: peer_at_def dest: select_key_Some)
next
  fix k h p
  assume ok: "peers_ok k" and a: "peer_by_handle h k = Some p"
  then obtain r where r: "select_latest pr_last_seen (filter (\<lambda>r. pr_last_handle r = Some h) (k_peers k)) = Some r"
    "p = peer_of_row r" by (auto simp: peer_by_handle_def)
  from select_latest_Some [OF r(1)] have "r \<in> set (k_peers k)" "pr_last_handle r = Some h" by auto
  with ok r(2) show "peer_at (p_fingerprint p) k = Some p \<and> p_last_handle p = Some h"
    using select_key_iff [of pr_fingerprint "k_peers k" "pr_fingerprint r" r]
    by (simp add: peer_at_def peers_ok_def)
next
  fix k h f p
  assume "peer_by_handle h k = None" "peer_at f k = Some p"
  then show "p_last_handle p \<noteq> Some h"
    by (auto simp: peer_by_handle_def peer_at_def filter_empty_conv dest: select_key_Some)
next
  fix k p assume "peers_ok k"
  then show "peers_ok (upsert_peer p k)"
    unfolding peers_ok_def upsert_peer_def by (simp add: keys_ok_upsert)
next
  fix k h keep assume "peers_ok k"
  then show "peers_ok (detach_other_peers_from_handle h keep k)"
    unfolding peers_ok_def detach_other_peers_from_handle_def by (simp add: keys_ok_update_where)
next
  fix k f assume "peers_ok k"
  then show "peers_ok (delete_peer_by_fingerprint f k)"
    unfolding peers_ok_def delete_peer_by_fingerprint_def by (simp add: keys_ok_delete_where)
qed (simp_all add: merge_peer_def)

lemma get_peer_by_fingerprint_Inr: "get_peer_by_fingerprint fp k = Inr x \<Longrightarrow> peer_at fp k = x"
  by (auto simp: get_peer_by_fingerprint_def peer_at_def split: option.splits if_splits)

lemma get_peer_by_handle_Inr: "get_peer_by_handle h k = Inr x \<Longrightarrow> peer_by_handle h k = x"
  by (auto simp: get_peer_by_handle_def peer_by_handle_def split: option.splits if_splits)

end
