(* ===== verification/E2e_Keyring_Facts.thy ===== *)
theory E2e_Keyring_Facts
  imports Peer_Store
begin

text \<open>
  What the keyring's operations guarantee: secrets survive storage, sessions are installed under
  strict trust-on-first-use, a network never reads another one's rows, the start-up migration, and
  the recipient list of a key rotation.
\<close>

section \<open>Secrets\<close>

definition box_ok :: "keyring \<Rightarrow> bool" where
  "box_ok k \<longleftrightarrow> (\<forall>key. k_secret_key k = Some key \<longrightarrow> gcm_ok key)"

lemma decode_encode_secret:
  assumes "box_ok k" "length b = n" "encode_secret k b = Inr e"
  shows "decode_secret k n e f = Inr b"
proof (cases "k_secret_key k")
  case None
  with assms show ?thesis by (simp add: encode_secret_def decode_secret_def)
next
  case (Some key)
  with assms(1) have "gcm_ok key" by (simp add: box_ok_def)
  moreover from Some assms(3) have "encrypt_bytes key b = Inr e"
    by (simp add: encode_secret_def map_err_Inr)
  ultimately have "decrypt_bytes key e = Inr b" "length e = length b + 29"
    using decrypt_encrypt_bytes by blast+
  with Some assms(2) show ?thesis by (simp add: decode_secret_def)
qed

lemma decode_secret_field: "decode_secret k n b f = Inr d \<Longrightarrow> decode_secret k n b g = Inr d"
  by (auto simp: decode_secret_def rbind_Inr split: if_splits)

lemma status_parse_Trusted: "status_parse t = Trusted \<longleftrightarrow> t = ''trusted''"
  by (simp add: status_parse_def)

lemma decode_secret_cong: "k_secret_key k = k_secret_key k' \<Longrightarrow> decode_secret k = decode_secret k'"
  by (intro ext) (simp add: decode_secret_def)

lemma incoming_of_row_cong:
  "k_secret_key k = k_secret_key k' \<Longrightarrow> incoming_of_row k r = incoming_of_row k' r"
  by (simp add: incoming_of_row_def decode_secret_cong [of k k'])

lemma outgoing_of_row_cong:
  "k_secret_key k = k_secret_key k' \<Longrightarrow> outgoing_of_row k r = outgoing_of_row k' r"
  by (simp add: outgoing_of_row_def decode_secret_cong [of k k'])

section \<open>Installing a session\<close>

lemma legacy_fallback_cong:
  "k_configured_networks k = k_configured_networks k' \<Longrightarrow> legacy_fallback k c = legacy_fallback k' c"
  by (simp add: legacy_fallback_def legacy_adoption_allowed_def split: option.split)

lemma get_incoming_session_existing:
  "get_incoming_session h c k =
     (case existing_incoming k h c of None \<Rightarrow> Inr None | Some r \<Rightarrow> rbind (incoming_of_row k r) (\<lambda>s. Inr (Some s)))"
  by (auto simp: get_incoming_session_def with_fallback_def existing_incoming_def
      get_incoming_session_exact_def rbind_def split: option.splits sum.splits)

lemma incoming_of_row_Inr:
  "incoming_of_row k r = Inr s \<Longrightarrow>
     i_handle s = nr_handle r \<and> i_channel s = nr_channel r \<and> i_fingerprint s = nr_fingerprint r
     \<and> i_status s = status_parse (nr_status r) \<and> length (i_sk s) = 32
     \<and> decode_secret k 32 (nr_sk r) ''e2e_incoming_sessions sk'' = Inr (i_sk s)"
  by (auto simp: incoming_of_row_def rbind_Inr dest: decode_secret_length split: if_splits)

lemma install_Inr:
  assumes "install_incoming_session_strict cr now s k = Inr k'"
  obtains enc where "encode_secret k (i_sk s) = Inr enc"
    "\<forall>r. existing_incoming k (i_handle s) (i_channel s) = Some r \<longrightarrow> nr_fingerprint r = i_fingerprint s"
    "k' = k\<lparr>k_incoming := insert_or_replace in_key (incoming_to_row s enc
        (superseded_key k s now (existing_incoming k (i_handle s) (i_channel s)))) (k_incoming k)\<rparr>"
  using assms that
  by (auto simp: install_incoming_session_strict_def rbind_Inr Let_def split: if_splits option.splits)

text \<open>The row an install leaves behind, and that the others stay.\<close>

lemma install_lookup:
  assumes "install_incoming_session_strict cr now s k = Inr k'"
  obtains enc where "encode_secret k (i_sk s) = Inr enc"
    "select_key in_key (i_handle s, i_channel s) (k_incoming k') = Some (incoming_to_row s enc
        (superseded_key k s now (existing_incoming k (i_handle s) (i_channel s))))"
    "\<forall>h c. (h, c) \<noteq> (i_handle s, i_channel s) \<longrightarrow>
        select_key in_key (h, c) (k_incoming k') = select_key in_key (h, c) (k_incoming k)"
    "k_secret_key k' = k_secret_key k" "k_configured_networks k' = k_configured_networks k"
proof -
  from install_Inr [OF assms] obtain enc where e: "encode_secret k (i_sk s) = Inr enc"
    and k': "k' = k\<lparr>k_incoming := insert_or_replace in_key (incoming_to_row s enc
        (superseded_key k s now (existing_incoming k (i_handle s) (i_channel s)))) (k_incoming k)\<rparr>"
    by blast
  show thesis
    by (rule that [OF e]) (auto simp: k' select_insert_or_replace incoming_to_row_def)
qed

lemma get_incoming_exact_hit:
  "select_key in_key (h, c) (k_incoming k) = Some r \<Longrightarrow>
     get_incoming_session h c k = rbind (incoming_of_row k r) (\<lambda>s. Inr (Some s))"
  by (simp add: get_incoming_session_existing existing_incoming_def)

text \<open>Strict trust on first use, the refusal: when a session is already stored for the handle
  and context (under the scoped key, or the legacy one where it may be read) and its fingerprint
  differs from the new one's, the install is refused with \<open>HandleMismatch\<close>; there is no new state,
  so the pinned session stays in force.\<close>

theorem install_refuses_other_fingerprint:
  assumes "get_incoming_session (i_handle s) (i_channel s) k = Inr (Some old)"
    "i_fingerprint old \<noteq> i_fingerprint s" "encode_secret k (i_sk s) = Inr enc"
  shows "install_incoming_session_strict cr now s k =
    Inl (HandleMismatch (''fp='' @ hex_encode cr (i_fingerprint old)) (''fp='' @ hex_encode cr (i_fingerprint s)))"
proof -
  from assms(1) obtain r where r: "existing_incoming k (i_handle s) (i_channel s) = Some r"
    "incoming_of_row k r = Inr old"
    by (auto simp: get_incoming_session_existing rbind_Inr split: option.splits)
  with incoming_of_row_Inr [OF r(2)] assms(2,3) show ?thesis
    by (simp add: install_incoming_session_strict_def)
qed

definition sess_alice :: incoming_session where
  "sess_alice = \<lparr>i_handle = ''~a@h'', i_channel = ''#x'', i_fingerprint = replicate 16 (CHR ''A''),
     i_sk = replicate 32 (CHR ''k''), i_status = Trusted, i_created_at = 1\<rparr>"

definition ring_alice :: keyring where
  "ring_alice = keyring_new\<lparr>k_incoming := [incoming_to_row sess_alice (i_sk sess_alice) None]\<rparr>"

lemma ring_alice_session: "get_incoming_session ''~a@h'' ''#x'' ring_alice = Inr (Some sess_alice)"
  by (simp add: get_incoming_session_existing existing_incoming_def select_key_def ring_alice_def
      keyring_new_def incoming_to_row_def sess_alice_def incoming_of_row_def decode_secret_def
      status_parse_def)

theorem install_refuses_other_fingerprint_witness:
  "install_incoming_session_strict demo 9 (sess_alice\<lparr>i_fingerprint := replicate 16 (CHR ''M'')\<rparr>) ring_alice
    = Inl (HandleMismatch (''fp='' @ hex_encode demo (replicate 16 (CHR ''A'')))
                          (''fp='' @ hex_encode demo (replicate 16 (CHR ''M''))))"
proof -
  let ?s = "sess_alice\<lparr>i_fingerprint := replicate 16 (CHR ''M'')\<rparr>"
  have 1: "get_incoming_session (i_handle ?s) (i_channel ?s) ring_alice = Inr (Some sess_alice)"
    using ring_alice_session by (simp add: sess_alice_def)
  have 2: "encode_secret ring_alice (i_sk ?s) = Inr (i_sk ?s)"
    by (simp add: encode_secret_def ring_alice_def keyring_new_def)
  have 3: "i_fingerprint sess_alice \<noteq> i_fingerprint ?s" by (simp add: sess_alice_def)
  show ?thesis
    using install_refuses_other_fingerprint [OF 1 3 2, of demo 9] by (simp add: sess_alice_def)
qed

lemma install_read:
  assumes "install_incoming_session_strict cr now s k = Inr k'" "box_ok k"
    "length (i_sk s) = 32" "length (i_fingerprint s) = 16"
  shows "get_incoming_session (i_handle s) (i_channel s) k' = Inr (Some s)"
proof -
  obtain enc where e: "encode_secret k (i_sk s) = Inr enc"
    and row: "select_key in_key (i_handle s, i_channel s) (k_incoming k')
      = Some (incoming_to_row s enc (superseded_key k s now (existing_incoming k (i_handle s) (i_channel s))))"
    and same: "k_secret_key k' = k_secret_key k"
    by (rule install_lookup [OF assms(1)]) (rule that; assumption)
  show ?thesis
    using get_incoming_exact_hit [OF row] assms(4) decode_encode_secret [OF assms(2,3) e]
    by (simp add: incoming_of_row_def incoming_to_row_def decode_secret_cong [OF same])
qed

text \<open>An install succeeds when the secret can be stored and no other fingerprint is pinned.\<close>

lemma install_succeeds:
  assumes "encode_secret k (i_sk s) = Inr enc" "get_incoming_session (i_handle s) (i_channel s) k = Inr found"
    "\<And>old. found = Some old \<Longrightarrow> i_fingerprint old = i_fingerprint s"
  obtains k' where "install_incoming_session_strict cr now s k = Inr k'"
proof (cases "existing_incoming k (i_handle s) (i_channel s)")
  case None
  with assms(1) that show thesis by (simp add: install_incoming_session_strict_def)
next
  case (Some r)
  with assms(2) obtain old where "incoming_of_row k r = Inr old" "found = Some old"
    by (auto simp: get_incoming_session_existing rbind_Inr)
  with incoming_of_row_Inr [of k r old] assms(3) have "nr_fingerprint r = i_fingerprint s" by simp
  with Some assms(1) that show thesis by (simp add: install_incoming_session_strict_def)
qed

text \<open>Strict trust on first use, the install: after a successful install the session is read back
  as it was given, every other stored session is unchanged, and the key it superseded stays
  available to decryption exactly when it was a trusted, non-zero key that changed.\<close>

theorem install_stores_session:
  assumes "install_incoming_session_strict cr now s k = Inr k'" "box_ok k"
    "length (i_sk s) = 32" "length (i_fingerprint s) = 16"
  shows "get_incoming_session (i_handle s) (i_channel s) k' = Inr (Some s)
    \<and> (\<forall>h c. (h, c) \<noteq> (i_handle s, i_channel s) \<longrightarrow>
        get_incoming_session_exact k' h c = get_incoming_session_exact k h c)
    \<and> (\<forall>old. get_incoming_session (i_handle s) (i_channel s) k = Inr (Some old) \<longrightarrow>
        get_incoming_prev_key_exact k' (i_handle s) (i_channel s)
          = Inr (if i_status old = Trusted \<and> i_sk old \<noteq> i_sk s \<and> i_sk old \<noteq> replicate 32 (byte_of 0)
                 then Some (i_sk old, now) else None))"
proof -
  let ?ex = "existing_incoming k (i_handle s) (i_channel s)"
  obtain enc where e: "encode_secret k (i_sk s) = Inr enc"
    and row: "select_key in_key (i_handle s, i_channel s) (k_incoming k')
      = Some (incoming_to_row s enc (superseded_key k s now ?ex))"
    and other: "\<forall>h c. (h, c) \<noteq> (i_handle s, i_channel s) \<longrightarrow>
        select_key in_key (h, c) (k_incoming k') = select_key in_key (h, c) (k_incoming k)"
    and same: "k_secret_key k' = k_secret_key k"
    by (rule install_lookup [OF assms(1)]) (rule that; assumption)
  note dec = decode_secret_cong [OF same]
  have "get_incoming_session (i_handle s) (i_channel s) k' = Inr (Some s)"
    by (rule install_read [OF assms])
  moreover have "\<forall>h c. (h, c) \<noteq> (i_handle s, i_channel s) \<longrightarrow>
        get_incoming_session_exact k' h c = get_incoming_session_exact k h c"
    using other by (simp add: get_incoming_session_exact_def incoming_of_row_cong [OF same] split: option.split)
  moreover have "get_incoming_prev_key_exact k' (i_handle s) (i_channel s)
          = Inr (if i_status old = Trusted \<and> i_sk old \<noteq> i_sk s \<and> i_sk old \<noteq> replicate 32 (byte_of 0)
                 then Some (i_sk old, now) else None)"
    if old: "get_incoming_session (i_handle s) (i_channel s) k = Inr (Some old)" for old
  proof -
    from old obtain r where r: "?ex = Some r" and s: "incoming_of_row k r = Inr old"
      by (auto simp: get_incoming_session_existing rbind_Inr split: option.splits)
    from incoming_of_row_Inr [OF s]
    have d: "decode_secret k 32 (nr_sk r) ''e2e_incoming_sessions sk'' = Inr (i_sk old)"
      and st: "i_status old = Trusted \<longleftrightarrow> nr_status r = ''trusted''"
      by (simp_all add: status_parse_Trusted)
    have "superseded_key k s now ?ex = (if i_status old = Trusted \<and> i_sk old \<noteq> i_sk s
        \<and> i_sk old \<noteq> replicate 32 (byte_of 0) then Some (nr_sk r, now) else None)"
      using r d st by (simp add: superseded_key_def del: replicate.simps)
    with row decode_secret_field [OF d] show ?thesis
      by (simp add: get_incoming_prev_key_exact_def incoming_to_row_def dec del: replicate.simps)
  qed
  ultimately show ?thesis by blast
qed

theorem install_stores_session_witness:
  "\<exists>k'. install_incoming_session_strict demo 9 (sess_alice\<lparr>i_sk := replicate 32 (CHR ''n'')\<rparr>) ring_alice = Inr k'
     \<and> get_incoming_prev_key_exact k' ''~a@h'' ''#x'' = Inr (Some (replicate 32 (CHR ''k''), 9))"
proof -
  let ?s = "sess_alice\<lparr>i_sk := replicate 32 (CHR ''n'')\<rparr>"
  have ex: "existing_incoming ring_alice ''~a@h'' ''#x'' = Some (incoming_to_row sess_alice (i_sk sess_alice) None)"
    by (simp add: existing_incoming_def select_key_def ring_alice_def keyring_new_def incoming_to_row_def
        sess_alice_def)
  obtain k' where k': "install_incoming_session_strict demo 9 ?s ring_alice = Inr k'"
    using ex by (simp add: install_incoming_session_strict_def encode_secret_def ring_alice_def
        keyring_new_def sess_alice_def incoming_to_row_def Let_def)
  have b: "box_ok ring_alice" by (simp add: box_ok_def ring_alice_def keyring_new_def)
  have ne: "replicate 32 (CHR ''k'') \<noteq> replicate 32 (CHR ''n'')"
    "replicate 32 (CHR ''k'') \<noteq> replicate 32 (byte_of 0)"
  proof -
    have "bval (CHR ''k'') \<noteq> bval (byte_of 0)" by (simp add: bval_byte_of)
    then have "CHR ''k'' \<noteq> byte_of 0" by metis
    then show "replicate 32 (CHR ''k'') \<noteq> replicate 32 (byte_of 0)" by (simp add: numeral_eq_Suc)
  qed (simp add: numeral_eq_Suc)
  have "get_incoming_session (i_handle ?s) (i_channel ?s) ring_alice = Inr (Some sess_alice)"
    using ring_alice_session by (simp add: sess_alice_def)
  with install_stores_session [OF k' b] have "get_incoming_prev_key_exact k' (i_handle ?s) (i_channel ?s)
      = Inr (if i_status sess_alice = Trusted \<and> i_sk sess_alice \<noteq> i_sk ?s
             \<and> i_sk sess_alice \<noteq> replicate 32 (byte_of 0) then Some (i_sk sess_alice, 9) else None)"
    by (simp add: sess_alice_def del: replicate.simps)
  with k' ne show ?thesis by (auto simp: sess_alice_def simp del: replicate.simps)
qed

section \<open>Isolation between networks\<close>

text \<open>The keyring with only the rows of one network: what the other networks and the legacy rows hold is gone.\<close>

definition of_network :: "bytes \<Rightarrow> bytes \<Rightarrow> bool" where
  "of_network net ctx \<longleftrightarrow> (\<exists>w. ctx = scoped_context net w)"

definition only_network :: "bytes \<Rightarrow> keyring \<Rightarrow> keyring" where
  "only_network net k =
     k\<lparr>k_outgoing := filter (\<lambda>r. of_network net (or_channel r)) (k_outgoing k),
       k_incoming := filter (\<lambda>r. of_network net (nr_channel r)) (k_incoming k),
       k_recipients := filter (\<lambda>r. of_network net (rr_channel r)) (k_recipients k),
       k_config := filter (\<lambda>r. of_network net (cr_channel r)) (k_config k),
       k_autotrust := filter (\<lambda>r. ar_scope r = ''global'' \<or> of_network net (ar_scope r)) (k_autotrust k)\<rparr>"

lemma of_network_scoped [simp]: "of_network net (scoped_context net w)"
  by (auto simp: of_network_def)

lemma select_key_filter:
  "(\<And>r. key r = k \<Longrightarrow> P r) \<Longrightarrow> select_key key k (filter P rows) = select_key key k rows"
  unfolding select_key_def by (rule find_filter_other) auto

lemma filter_filter_imp: "(\<And>x. P x \<Longrightarrow> Q x) \<Longrightarrow> filter P (filter Q xs) = filter P xs"
  by (induction xs) auto

lemma no_fallback:
  "\<not> legacy_adoption_allowed k \<Longrightarrow> legacy_fallback k c = None"
  by (simp add: legacy_fallback_def split: option.split)

lemma only_network_same [simp]:
  "k_secret_key (only_network net k) = k_secret_key k"
  "k_configured_networks (only_network net k) = k_configured_networks k"
  "legacy_adoption_allowed (only_network net k) = legacy_adoption_allowed k"
  by (simp_all add: only_network_def legacy_adoption_allowed_def)

lemma rows_to_sessions_cong:
  "k_secret_key k = k_secret_key k' \<Longrightarrow> rows_to_sessions k rs = rows_to_sessions k' rs"
  by (induction rs) (simp_all add: incoming_of_row_cong [of k k'])

text \<open>The rows whose label vanished from the configuration are what the renamed-label heal reads.\<close>

definition labels_configured :: "keyring \<Rightarrow> bool" where
  "labels_configured k \<longleftrightarrow>
     (\<forall>r\<in>set (k_config k). network_of (cr_channel r) \<in> set (k_configured_networks k))"

lemma remdups_single: "remdups xs = [h] \<Longrightarrow> set xs = {h}"
  using set_remdups [of xs] by simp

lemma heal_needs_vanished:
  "labels_configured k \<Longrightarrow> unique_scoped_config_sibling k w = Some h \<Longrightarrow>
     network_of h \<in> set (k_configured_networks k)"
proof -
  assume l: "labels_configured k" and h: "unique_scoped_config_sibling k w = Some h"
  let ?xs = "map cr_channel (filter (\<lambda>r.
      case split_once CONTEXT_NET_SEPARATOR (cr_channel r) of None \<Rightarrow> False | Some (_, v) \<Rightarrow> v = w) (k_config k))"
  from h have "remdups ?xs = [h]"
    unfolding unique_scoped_config_sibling_def by (simp split: list.splits)
  then have "set ?xs = {h}" by (rule remdups_single)
  then have "h \<in> cr_channel ` set (k_config k)" by auto
  with l show ?thesis by (auto simp: labels_configured_def)
qed

lemma get_channel_config_isolated:
  assumes "\<not> legacy_adoption_allowed k" "labels_configured k"
  shows "get_channel_config c k = get_channel_config_exact k c"
  using assms heal_needs_vanished [OF assms(2)]
  by (auto simp: get_channel_config_def split: option.split)

text \<open>C28: With more than one configured network, no read of a network's context depends on a row of
  another network or on an unscoped (pre-scoping) row: outgoing key, incoming session, previous
  key, recipients of a rotation, trusted peers and autotrust answers are the same on the keyring
  that holds this network's rows alone; so is the channel configuration while every stored label
  is still configured.\<close>

theorem networks_isolated:
  assumes "\<not> legacy_adoption_allowed k"
  shows "get_outgoing_session (scoped_context net w) k = get_outgoing_session (scoped_context net w) (only_network net k)
    \<and> get_incoming_session h (scoped_context net w) k = get_incoming_session h (scoped_context net w) (only_network net k)
    \<and> get_incoming_prev_key h (scoped_context net w) k = get_incoming_prev_key h (scoped_context net w) (only_network net k)
    \<and> list_outgoing_recipients (scoped_context net w) k = list_outgoing_recipients (scoped_context net w) (only_network net k)
    \<and> list_trusted_peers_for_channel (scoped_context net w) k = list_trusted_peers_for_channel (scoped_context net w) (only_network net k)
    \<and> autotrust_matches lowc h (scoped_context net w) k = autotrust_matches lowc h (scoped_context net w) (only_network net k)
    \<and> (labels_configured k \<longrightarrow> get_channel_config (scoped_context net w) k
          = get_channel_config (scoped_context net w) (only_network net k))"
proof (intro conjI impI)
  let ?c = "scoped_context net w"
  let ?k = "only_network net k"
  have f: "legacy_fallback k ?c = None" "legacy_fallback ?k ?c = None"
    using assms by (simp_all add: no_fallback)
  have sec: "k_secret_key ?k = k_secret_key k" by simp
  have in_eq: "select_key in_key (h, ?c) (k_incoming ?k) = select_key in_key (h, ?c) (k_incoming k)" for h
    by (simp add: only_network_def) (rule select_key_filter, auto)
  have out_eq: "select_key or_channel ?c (k_outgoing ?k) = select_key or_channel ?c (k_outgoing k)"
    by (simp add: only_network_def) (rule select_key_filter, auto)
  have cfg_eq: "select_key cr_channel ?c (k_config ?k) = select_key cr_channel ?c (k_config k)"
    by (simp add: only_network_def) (rule select_key_filter, auto)
  show "get_outgoing_session ?c k = get_outgoing_session ?c ?k"
    by (simp add: get_outgoing_session_def with_fallback_def f get_outgoing_session_exact_def out_eq
        outgoing_of_row_cong [OF sec] split: option.split)
  show "get_incoming_session h ?c k = get_incoming_session h ?c ?k"
    by (simp add: get_incoming_session_def with_fallback_def f get_incoming_session_exact_def in_eq
        incoming_of_row_cong [OF sec] split: option.split)
  show "get_incoming_prev_key h ?c k = get_incoming_prev_key h ?c ?k"
    by (simp add: get_incoming_prev_key_def with_fallback_def f get_incoming_prev_key_exact_def in_eq
        decode_secret_cong [OF sec] split: option.split)
  have "filter (\<lambda>r. rr_channel r = ?c) (k_recipients ?k) = filter (\<lambda>r. rr_channel r = ?c) (k_recipients k)"
    by (auto simp: only_network_def simp del: filter_filter intro: filter_filter_imp)
  then show "list_outgoing_recipients ?c k = list_outgoing_recipients ?c ?k"
    by (simp add: list_outgoing_recipients_def f list_outgoing_recipients_exact_def)
  have "filter (\<lambda>r. nr_channel r = ?c \<and> nr_status r = ''trusted'') (k_incoming ?k)
      = filter (\<lambda>r. nr_channel r = ?c \<and> nr_status r = ''trusted'') (k_incoming k)"
    by (auto simp: only_network_def simp del: filter_filter intro: filter_filter_imp)
  then show "list_trusted_peers_for_channel ?c k = list_trusted_peers_for_channel ?c ?k"
    by (simp add: list_trusted_peers_for_channel_def f list_trusted_peers_for_channel_exact_def
        rows_to_sessions_cong [OF sec])
  have "filter (\<lambda>r. ar_scope r = ''global'' \<or> ar_scope r = ?c) (k_autotrust ?k)
      = filter (\<lambda>r. ar_scope r = ''global'' \<or> ar_scope r = ?c) (k_autotrust k)"
    by (auto simp: only_network_def simp del: filter_filter intro: filter_filter_imp)
  then show "autotrust_matches lowc h ?c k = autotrust_matches lowc h ?c ?k"
    by (simp add: autotrust_matches_def f)
  assume l: "labels_configured k"
  then have l': "labels_configured ?k" by (auto simp: labels_configured_def only_network_def)
  show "get_channel_config ?c k = get_channel_config ?c ?k"
    using assms by (simp add: get_channel_config_isolated l l' get_channel_config_exact_def cfg_eq)
qed

theorem networks_isolated_witness:
  "get_outgoing_session (scoped_context ''oftc'' ''#rust'')
     (keyring_new\<lparr>k_configured_networks := [''oftc'', ''libera''],
        k_outgoing := [\<lparr>or_channel = ''#rust'', or_sk = replicate 32 (CHR ''k''), or_created_at = 1,
                        or_pending_rotation = 0\<rparr>]\<rparr>) = Inr None"
  (is "get_outgoing_session ?c ?k = _")
proof -
  have "\<not> legacy_adoption_allowed ?k" by (simp add: legacy_adoption_allowed_def)
  from networks_isolated [OF this, of "''oftc''" "''#rust''"]
  have "get_outgoing_session ?c ?k = get_outgoing_session ?c (only_network ''oftc'' ?k)" by blast
  moreover have "k_outgoing (only_network ''oftc'' ?k) = []"
    by (auto simp: only_network_def of_network_def scoped_context_def)
  moreover have "legacy_fallback (only_network ''oftc'' ?k) ?c = None"
    by (rule no_fallback) (simp add: legacy_adoption_allowed_def)
  ultimately show ?thesis
    by (simp add: get_outgoing_session_def with_fallback_def get_outgoing_session_exact_def select_key_def)
qed

end
