(* ===== verification/E2e_Migration.thy ===== *)
theory E2e_Migration
  imports E2e_Keyring_Facts
begin

text \<open>
  The start-up migration of unscoped rows (\<open>adopt_legacy_contexts\<close> in \<open>src/src/e2e/keyring.rs\<close>)
  and the import of a whole keyring.
\<close>

section \<open>Renaming one column\<close>

lemma rename_column_cols:
  assumes "\<And>c r. col (set_col c r) = c"
  shows "col ` set (rename_column key col set_col w s rows) \<subseteq> (col ` set rows - {w}) \<union> {s}"
  using assms by (auto simp: rename_column_def set_delete_where update_or_ignore_def)

text \<open>The whole context of every row of the five tables.\<close>

definition contexts :: "keyring \<Rightarrow> bytes set" where
  "contexts k = cr_channel ` set (k_config k) \<union> or_channel ` set (k_outgoing k)
     \<union> nr_channel ` set (k_incoming k) \<union> rr_channel ` set (k_recipients k)
     \<union> (ar_scope ` set (k_autotrust k) - {''global''})"

lemma migrate_fields:
  "k_config (migrate_legacy_context w n k)
     = rename_column cr_channel cr_channel (\<lambda>c r. r\<lparr>cr_channel := c\<rparr>) w (scoped_context n w) (k_config k)"
  "k_outgoing (migrate_legacy_context w n k)
     = rename_column or_channel or_channel (\<lambda>c r. r\<lparr>or_channel := c\<rparr>) w (scoped_context n w) (k_outgoing k)"
  "k_incoming (migrate_legacy_context w n k)
     = rename_column in_key nr_channel (\<lambda>c r. r\<lparr>nr_channel := c\<rparr>) w (scoped_context n w) (k_incoming k)"
  "k_recipients (migrate_legacy_context w n k)
     = rename_column rec_key rr_channel (\<lambda>c r. r\<lparr>rr_channel := c\<rparr>) w (scoped_context n w) (k_recipients k)"
  "k_autotrust (migrate_legacy_context w n k)
     = rename_column auto_key ar_scope (\<lambda>c r. r\<lparr>ar_scope := c\<rparr>) w (scoped_context n w) (k_autotrust k)"
  "k_peers (migrate_legacy_context w n k) = k_peers k" "k_rekeys (migrate_legacy_context w n k) = k_rekeys k"
  "k_dm_cache (migrate_legacy_context w n k) = k_dm_cache k"
  "k_secret_key (migrate_legacy_context w n k) = k_secret_key k"
  "k_configured_networks (migrate_legacy_context w n k) = k_configured_networks k"
  by (simp_all add: migrate_legacy_context_def Let_def)

lemma five_contexts:
  "((A - {w}) \<union> {s}) \<union> ((B - {w}) \<union> {s}) \<union> ((C - {w}) \<union> {s}) \<union> ((D - {w}) \<union> {s})
     \<union> (((E - {w}) \<union> {s}) - {g}) \<subseteq> ((A \<union> B \<union> C \<union> D \<union> (E - {g})) - {w}) \<union> {s}"
  by auto

lemma contexts_migrate:
  "contexts (migrate_legacy_context w n k) \<subseteq> (contexts k - {w}) \<union> {scoped_context n w}"
proof -
  let ?s = "scoped_context n w"
  have c: "cr_channel ` set (rename_column cr_channel cr_channel (\<lambda>c r. r\<lparr>cr_channel := c\<rparr>) w ?s (k_config k))
      \<subseteq> (cr_channel ` set (k_config k) - {w}) \<union> {?s}" by (rule rename_column_cols) simp
  have ou: "or_channel ` set (rename_column or_channel or_channel (\<lambda>c r. r\<lparr>or_channel := c\<rparr>) w ?s (k_outgoing k))
      \<subseteq> (or_channel ` set (k_outgoing k) - {w}) \<union> {?s}" by (rule rename_column_cols) simp
  have ic: "nr_channel ` set (rename_column in_key nr_channel (\<lambda>c r. r\<lparr>nr_channel := c\<rparr>) w ?s (k_incoming k))
      \<subseteq> (nr_channel ` set (k_incoming k) - {w}) \<union> {?s}" by (rule rename_column_cols) simp
  have rc: "rr_channel ` set (rename_column rec_key rr_channel (\<lambda>c r. r\<lparr>rr_channel := c\<rparr>) w ?s (k_recipients k))
      \<subseteq> (rr_channel ` set (k_recipients k) - {w}) \<union> {?s}" by (rule rename_column_cols) simp
  have at: "ar_scope ` set (rename_column auto_key ar_scope (\<lambda>c r. r\<lparr>ar_scope := c\<rparr>) w ?s (k_autotrust k))
      \<subseteq> (ar_scope ` set (k_autotrust k) - {w}) \<union> {?s}" by (rule rename_column_cols) simp
  have "contexts (migrate_legacy_context w n k)
      \<subseteq> ((cr_channel ` set (k_config k) - {w}) \<union> {?s}) \<union> ((or_channel ` set (k_outgoing k) - {w}) \<union> {?s})
      \<union> ((nr_channel ` set (k_incoming k) - {w}) \<union> {?s}) \<union> ((rr_channel ` set (k_recipients k) - {w}) \<union> {?s})
      \<union> (((ar_scope ` set (k_autotrust k) - {w}) \<union> {?s}) - {''global''})"
    unfolding contexts_def migrate_fields by (intro Un_mono Diff_mono c ou ic rc at order_refl)
  also have "\<dots> \<subseteq> (contexts k - {w}) \<union> {?s}"
    unfolding contexts_def by (rule five_contexts)
  finally show ?thesis .
qed

lemma legacy_values_contexts:
  "set (legacy_context_values k) =
     {c \<in> contexts k. CONTEXT_NET_SEPARATOR \<notin> set c \<and> (strip_prefix ''@'' c \<noteq> None \<or> is_channel_target c)}"
  unfolding legacy_context_values_def contexts_def by (simp only: set_filter set_remdups set_append set_map) blast

lemma contexts_fold_migrate:
  "contexts (fold (\<lambda>w. migrate_legacy_context w n) ws k)
     \<subseteq> (contexts k - set ws) \<union> scoped_context n ` set ws \<union> (scoped_context n ` set ws)"
proof (induction ws arbitrary: k)
  case (Cons w ws)
  have "contexts (fold (\<lambda>w. migrate_legacy_context w n) ws (migrate_legacy_context w n k))
      \<subseteq> (contexts (migrate_legacy_context w n k) - set ws) \<union> scoped_context n ` set ws"
    using Cons.IH [of "migrate_legacy_context w n k"] by blast
  also have "\<dots> \<subseteq> (contexts k - set (w # ws)) \<union> scoped_context n ` set (w # ws)"
    using contexts_migrate [of w n k] by auto
  finally show ?case by simp
qed simp

lemma scoped_has_separator: "CONTEXT_NET_SEPARATOR \<in> set (scoped_context n w)"
  by (simp add: scoped_context_def)

section \<open>What becomes of the rows\<close>

lemma keys_ok_rename:
  assumes ok: "keys_ok key rows" and split: "\<And>r. key r = (g r, col r)"
    and g: "\<And>c r. g (set_col c r) = g r"
  shows "keys_ok key (rename_column key col set_col w s rows)"
  unfolding rename_column_def
proof (rule keys_ok_delete_where, rule keys_ok_update_or_ignore [OF ok])
  fix x y assume "x \<in> set rows" "y \<in> set rows" "col x = w" "col y = w" "key (set_col s x) = key (set_col s y)"
  then show "x = y" using ok by (auto simp: split g keys_ok_def distinct_map inj_on_def)
qed

lemma update_or_ignore_mem:
  assumes "col r \<noteq> w"
  shows "(\<exists>q\<in>set rows. r = (if col q = w \<and> key (f q) \<notin> K then f q else q)) \<longleftrightarrow>
    (r \<in> set rows \<or> (\<exists>q\<in>set rows. col q = w \<and> key (f q) \<notin> K \<and> r = f q))" (is "?L = ?R")
proof
  assume ?L
  then obtain q where "q \<in> set rows" "r = (if col q = w \<and> key (f q) \<notin> K then f q else q)" by blast
  then show ?R by (cases "col q = w \<and> key (f q) \<notin> K") auto
next
  assume ?R
  then show ?L
  proof
    assume "r \<in> set rows"
    then show ?L using assms by (intro bexI [of _ r]) simp_all
  next
    assume "\<exists>q\<in>set rows. col q = w \<and> key (f q) \<notin> K \<and> r = f q"
    then obtain q where "q \<in> set rows" "col q = w \<and> key (f q) \<notin> K" "r = f q" by blast
    then show ?L by (intro bexI [of _ q]) simp_all
  qed
qed

lemma rename_mem:
  assumes "w \<noteq> s" "\<And>c r. col (set_col c r) = c"
  shows "r \<in> set (rename_column key col set_col w s rows) \<longleftrightarrow>
    col r \<noteq> w \<and> (r \<in> set rows \<or> (\<exists>q\<in>set rows. col q = w \<and> key (set_col s q) \<notin> key ` set rows \<and> r = set_col s q))"
proof -
  have "r \<in> set (rename_column key col set_col w s rows) \<longleftrightarrow> col r \<noteq> w \<and>
      (\<exists>q\<in>set rows. r = (if col q = w \<and> key (set_col s q) \<notin> key ` set rows then set_col s q else q))"
    unfolding rename_column_def set_delete_where update_or_ignore_def
    by (simp only: set_map mem_Collect_eq Bex_def image_iff [of r]) blast
  then show ?thesis using update_or_ignore_mem [of col r w rows key "set_col s" "key ` set rows"] by blast
qed

lemma select_rename:
  assumes ok: "keys_ok key rows" and split: "\<And>r. key r = (g r, col r)"
    and g: "\<And>c r. g (set_col c r) = g r"
    and col: "\<And>c r. col (set_col c r) = c" and ne: "w \<noteq> s"
  shows "select_key key (h, c) (rename_column key col set_col w s rows) =
    (if c = w then None
     else if c = s then (case select_key key (h, s) rows of Some r \<Rightarrow> Some r
                         | None \<Rightarrow> map_option (set_col s) (select_key key (h, w) rows))
     else select_key key (h, c) rows)"
proof -
  have key: "key (set_col c r) = (g r, c)" for c r by (simp add: split g col)
  have mem: "r \<in> set (rename_column key col set_col w s rows) \<longleftrightarrow>
      col r \<noteq> w \<and> (r \<in> set rows \<or> (\<exists>q\<in>set rows. col q = w \<and> key (set_col s q) \<notin> key ` set rows \<and> r = set_col s q))" for r
    by (rule rename_mem [of w s col set_col r key rows, OF ne col])
  have okr: "keys_ok key (rename_column key col set_col w s rows)"
    by (rule keys_ok_rename [where g = g, OF ok]) (rule split, rule g)
  note sel = select_key_iff [OF okr] select_key_iff [OF ok]
  show ?thesis
  proof (cases "c = w")
    case True
    have "(h, w) \<notin> key ` set (rename_column key col set_col w s rows)"
    proof
      assume "(h, w) \<in> key ` set (rename_column key col set_col w s rows)"
      then obtain x where x: "x \<in> set (rename_column key col set_col w s rows)" "key x = (h, w)" by auto
      from x(1) have "col x \<noteq> w" using mem by blast
      with x(2) show False by (simp add: split)
    qed
    with True show ?thesis by (simp add: select_key_None)
  next
    case cw: False
    show ?thesis
    proof (cases "c = s")
      case False
      have "r \<in> set (rename_column key col set_col w s rows) \<and> key r = (h, c) \<longleftrightarrow> r \<in> set rows \<and> key r = (h, c)" for r
        using cw False by (auto simp: mem split col)
      then have "select_key key (h, c) (rename_column key col set_col w s rows) = Some r
          \<longleftrightarrow> select_key key (h, c) rows = Some r" for r
        by (simp add: sel)
      then have "select_key key (h, c) (rename_column key col set_col w s rows) = select_key key (h, c) rows"
        by (metis not_Some_eq)
      with cw False show ?thesis by simp
    next
      case cs: True
      show ?thesis
      proof (cases "select_key key (h, s) rows")
        case (Some r)
        then have "r \<in> set rows \<and> key r = (h, s)" by (rule select_key_Some)
        then have "r \<in> set (rename_column key col set_col w s rows) \<and> key r = (h, s)"
          using ne by (simp add: mem split)
        then have "select_key key (h, s) (rename_column key col set_col w s rows) = Some r" by (simp add: sel)
        with cw cs Some show ?thesis by simp
      next
        case None
        then have free: "(h, s) \<notin> key ` set rows" by (simp add: select_key_None)
        show ?thesis
        proof (cases "select_key key (h, w) rows")
          case nw: None
          have "(h, s) \<notin> key ` set (rename_column key col set_col w s rows)"
          proof
            assume "(h, s) \<in> key ` set (rename_column key col set_col w s rows)"
            then obtain x where x: "x \<in> set (rename_column key col set_col w s rows)" "key x = (h, s)" by auto
            from x(1) have "x \<in> set rows \<or> (\<exists>q\<in>set rows. col q = w \<and> x = set_col s q)" using mem by blast
            then show False
            proof
              assume "x \<in> set rows"
              with x(2) free show False by (metis image_eqI)
            next
              assume "\<exists>q\<in>set rows. col q = w \<and> x = set_col s q"
              then obtain q where q: "q \<in> set rows" "col q = w" "x = set_col s q" by blast
              with x(2) have "key q = (h, w)" by (simp add: split g)
              with q(1) nw [unfolded select_key_None] show False by (metis image_eqI)
            qed
          qed
          then have "select_key key (h, s) (rename_column key col set_col w s rows) = None"
            by (simp add: select_key_None)
          with cw cs None nw show ?thesis by simp
        next
          case (Some q)
          then have q: "q \<in> set rows \<and> key q = (h, w)" by (rule select_key_Some)
          then have "key (set_col s q) = (h, s)" "col q = w" by (simp_all add: split g col)
          with q free have "\<exists>p\<in>set rows. col p = w \<and> key (set_col s p) \<notin> key ` set rows \<and> set_col s q = set_col s p"
            by (intro bexI [of _ q]) simp_all
          then have "set_col s q \<in> set (rename_column key col set_col w s rows)"
            using ne unfolding mem by (simp add: col)
          with \<open>key (set_col s q) = (h, s)\<close>
          have "select_key key (h, s) (rename_column key col set_col w s rows) = Some (set_col s q)"
            by (simp add: sel)
          with cw cs None Some show ?thesis by simp
        qed
      qed
    qed
  qed
qed

text \<open>The incoming sessions and the outgoing keys after one migration step.\<close>

abbreviation incoming_at :: "keyring \<Rightarrow> bytes \<Rightarrow> bytes \<Rightarrow> incoming_row option" where
  "incoming_at k h c \<equiv> select_key in_key (h, c) (k_incoming k)"

lemma scoped_ne: "CONTEXT_NET_SEPARATOR \<notin> set w \<Longrightarrow> w \<noteq> scoped_context n v"
  using scoped_has_separator by metis

lemma incoming_migrate:
  assumes "keyring_ok k" "CONTEXT_NET_SEPARATOR \<notin> set w"
  shows "incoming_at (migrate_legacy_context w n k) h c =
    (if c = w then None
     else if c = scoped_context n w
     then (case incoming_at k h c of Some r \<Rightarrow> Some r
           | None \<Rightarrow> map_option (\<lambda>r. r\<lparr>nr_channel := scoped_context n w\<rparr>) (incoming_at k h w))
     else incoming_at k h c)"
proof -
  have ok: "keys_ok in_key (k_incoming k)" using assms(1) by (simp add: keyring_ok_def)
  have "incoming_at (migrate_legacy_context w n k) h c =
      select_key in_key (h, c) (rename_column in_key nr_channel (\<lambda>c r. r\<lparr>nr_channel := c\<rparr>) w (scoped_context n w) (k_incoming k))"
    by (simp add: migrate_legacy_context_def Let_def)
  also have "\<dots> = (if c = w then None
     else if c = scoped_context n w
     then (case incoming_at k h (scoped_context n w) of Some r \<Rightarrow> Some r
           | None \<Rightarrow> map_option (\<lambda>r. r\<lparr>nr_channel := scoped_context n w\<rparr>) (incoming_at k h w))
     else incoming_at k h c)"
    by (rule select_rename [where g = nr_handle, OF ok])
      (use scoped_ne [OF assms(2)] in simp_all)
  finally show ?thesis by simp
qed

text \<open>A table keyed by the context alone is one keyed by the unit and the context.\<close>

lemma select_unit_key: "select_key key c rows = select_key (\<lambda>r. ((), key r)) ((), c) rows"
  by (simp add: select_key_def)

lemma rename_unit_key: "rename_column key col sc w s rows = rename_column (\<lambda>r. ((), key r)) col sc w s rows"
proof -
  have "x \<in> set (map key rows) \<longleftrightarrow> ((), x) \<in> set (map (\<lambda>r. ((), key r)) rows)" for x by auto
  then show ?thesis by (simp add: rename_column_def update_or_ignore_def)
qed

lemma keys_ok_unit: "keys_ok key rows \<longleftrightarrow> keys_ok (\<lambda>r. ((), key r)) rows"
  by (auto simp: keys_ok_def distinct_map inj_on_def)

abbreviation outgoing_at :: "keyring \<Rightarrow> bytes \<Rightarrow> outgoing_row option" where
  "outgoing_at k c \<equiv> select_key or_channel c (k_outgoing k)"

lemma outgoing_migrate:
  assumes "keyring_ok k" "CONTEXT_NET_SEPARATOR \<notin> set w"
  shows "outgoing_at (migrate_legacy_context w n k) c =
    (if c = w then None
     else if c = scoped_context n w
     then (case outgoing_at k c of Some r \<Rightarrow> Some r
           | None \<Rightarrow> map_option (\<lambda>r. r\<lparr>or_channel := scoped_context n w\<rparr>) (outgoing_at k w))
     else outgoing_at k c)"
proof -
  have ok: "keys_ok (\<lambda>r. ((), or_channel r)) (k_outgoing k)"
    using assms(1) keys_ok_unit by (auto simp: keyring_ok_def)
  have "outgoing_at (migrate_legacy_context w n k) c = select_key (\<lambda>r. ((), or_channel r)) ((), c)
      (rename_column (\<lambda>r. ((), or_channel r)) or_channel (\<lambda>c r. r\<lparr>or_channel := c\<rparr>) w (scoped_context n w) (k_outgoing k))"
    unfolding migrate_fields by (subst select_unit_key, subst rename_unit_key) (rule refl)
  also have "\<dots> = (if c = w then None
     else if c = scoped_context n w
     then (case select_key (\<lambda>r. ((), or_channel r)) ((), scoped_context n w) (k_outgoing k) of Some r \<Rightarrow> Some r
           | None \<Rightarrow> map_option (\<lambda>r. r\<lparr>or_channel := scoped_context n w\<rparr>)
                       (select_key (\<lambda>r. ((), or_channel r)) ((), w) (k_outgoing k)))
     else select_key (\<lambda>r. ((), or_channel r)) ((), c) (k_outgoing k))"
    by (rule select_rename [where g = "\<lambda>_. ()", OF ok])
      (use scoped_ne [OF assms(2)] in simp_all)
  finally show ?thesis unfolding select_unit_key [symmetric]
    by (cases "c = scoped_context n w") simp_all
qed

lemma keys_ok_swap: "keys_ok (\<lambda>r. (f r, g r)) rows \<longleftrightarrow> keys_ok (\<lambda>r. (g r, f r)) rows"
  by (auto simp: keys_ok_def distinct_map inj_on_def)

lemma rename_swap_key:
  "rename_column (\<lambda>r. (f r, g r)) col sc w s rows = rename_column (\<lambda>r. (g r, f r)) col sc w s rows"
proof -
  have "(x, y) \<in> set (map (\<lambda>r. (f r, g r)) rows) \<longleftrightarrow> (y, x) \<in> set (map (\<lambda>r. (g r, f r)) rows)" for x y
    by auto
  then show ?thesis by (simp add: rename_column_def update_or_ignore_def)
qed

lemma keyring_ok_migrate: "keyring_ok k \<Longrightarrow> keyring_ok (migrate_legacy_context w n k)"
proof -
  assume ok: "keyring_ok k"
  let ?s = "scoped_context n w"
  have c: "keys_ok cr_channel (rename_column cr_channel cr_channel (\<lambda>c r. r\<lparr>cr_channel := c\<rparr>) w ?s (k_config k))"
    unfolding rename_unit_key [of cr_channel] keys_ok_unit [of cr_channel]
    by (rule keys_ok_rename [where g = "\<lambda>_. ()"]) (use ok keys_ok_unit in \<open>auto simp: keyring_ok_def\<close>)
  have ou: "keys_ok or_channel (rename_column or_channel or_channel (\<lambda>c r. r\<lparr>or_channel := c\<rparr>) w ?s (k_outgoing k))"
    unfolding rename_unit_key [of or_channel] keys_ok_unit [of or_channel]
    by (rule keys_ok_rename [where g = "\<lambda>_. ()"]) (use ok keys_ok_unit in \<open>auto simp: keyring_ok_def\<close>)
  have ic: "keys_ok in_key (rename_column in_key nr_channel (\<lambda>c r. r\<lparr>nr_channel := c\<rparr>) w ?s (k_incoming k))"
    by (rule keys_ok_rename [where g = nr_handle]) (use ok in \<open>auto simp: keyring_ok_def\<close>)
  have rc: "keys_ok rec_key (rename_column rec_key rr_channel (\<lambda>c r. r\<lparr>rr_channel := c\<rparr>) w ?s (k_recipients k))"
    unfolding rename_swap_key [of rr_channel] keys_ok_swap [of rr_channel]
    by (rule keys_ok_rename [where g = rr_handle])
      (use ok keys_ok_swap [of rr_channel rr_handle] in \<open>auto simp: keyring_ok_def\<close>)
  have at: "keys_ok auto_key (rename_column auto_key ar_scope (\<lambda>c r. r\<lparr>ar_scope := c\<rparr>) w ?s (k_autotrust k))"
    unfolding rename_swap_key [of ar_scope] keys_ok_swap [of ar_scope]
    by (rule keys_ok_rename [where g = ar_pattern])
      (use ok keys_ok_swap [of ar_scope ar_pattern] in \<open>auto simp: keyring_ok_def\<close>)
  show ?thesis
    using ok c ou ic rc at by (simp add: keyring_ok_def migrate_fields)
qed

section \<open>All contexts\<close>

lemma scoped_context_inj: "scoped_context n v = scoped_context n w \<longleftrightarrow> v = w"
  by (simp add: scoped_context_def)

lemma fold_migrate_other:
  assumes "keyring_ok k" "\<forall>v\<in>set ws. CONTEXT_NET_SEPARATOR \<notin> set v" "c \<notin> set ws" "c \<notin> scoped_context n ` set ws"
  shows "incoming_at (fold (\<lambda>w. migrate_legacy_context w n) ws k) h c = incoming_at k h c
    \<and> outgoing_at (fold (\<lambda>w. migrate_legacy_context w n) ws k) c = outgoing_at k c"
  using assms
  by (induction ws arbitrary: k) (simp_all add: incoming_migrate outgoing_migrate keyring_ok_migrate)

lemma fold_migrate_scoped:
  assumes "keyring_ok k" "\<forall>v\<in>set ws. CONTEXT_NET_SEPARATOR \<notin> set v" "distinct ws" "w \<in> set ws"
  shows "incoming_at (fold (\<lambda>w. migrate_legacy_context w n) ws k) h (scoped_context n w) =
      (case incoming_at k h (scoped_context n w) of Some r \<Rightarrow> Some r
       | None \<Rightarrow> map_option (\<lambda>r. r\<lparr>nr_channel := scoped_context n w\<rparr>) (incoming_at k h w))
    \<and> outgoing_at (fold (\<lambda>w. migrate_legacy_context w n) ws k) (scoped_context n w) =
      (case outgoing_at k (scoped_context n w) of Some r \<Rightarrow> Some r
       | None \<Rightarrow> map_option (\<lambda>r. r\<lparr>or_channel := scoped_context n w\<rparr>) (outgoing_at k w))"
  using assms
proof (induction ws arbitrary: k)
  case (Cons v ws)
  have nv: "CONTEXT_NET_SEPARATOR \<notin> set v" using Cons.prems(2) by simp
  have sv: "scoped_context n w \<noteq> v" using scoped_ne [OF nv] by metis
  note ok = keyring_ok_migrate [OF Cons.prems(1), of v n]
  note im = incoming_migrate [OF Cons.prems(1) nv] and om = outgoing_migrate [OF Cons.prems(1) nv]
  show ?case
  proof (cases "w = v")
    case True
    then have "scoped_context n w \<notin> set ws" "scoped_context n w \<notin> scoped_context n ` set ws"
      using Cons.prems scoped_has_separator [of n w] by (auto simp: scoped_context_inj)
    with fold_migrate_other [OF ok, of ws "scoped_context n w" n h] Cons.prems(2) sv
    show ?thesis unfolding True by (simp add: im om)
  next
    case False
    have "w \<noteq> scoped_context n v" using Cons.prems(2,4) scoped_ne by (metis set_ConsD)
    with Cons.IH [OF ok] Cons.prems False sv show ?thesis
      by (simp add: im om scoped_context_inj cong: option.case_cong)
  qed
qed simp

lemma adopt_loop_single:
  "\<not> is_bouncer_scope n \<Longrightarrow>
     adopt_loop [n] ws un k = (un, fold (\<lambda>w. migrate_legacy_context w n) ws k)"
  by (induction ws arbitrary: k) simp_all

text \<open>With one configured network the start-up migration loses no key: it attributes every
  legacy context, leaves none behind, and every incoming session and outgoing key of a legacy
  context is found under the scoped one afterwards, except where a scoped row existed already,
  which is kept.\<close>

theorem adopt_single_network:
  assumes "keyring_ok k" "k_configured_networks k = [n]" "\<not> is_bouncer_scope n"
  shows "fst (adopt_legacy_contexts k) = []
    \<and> legacy_context_values (snd (adopt_legacy_contexts k)) = []
    \<and> (\<forall>h w. w \<in> set (legacy_context_values k) \<longrightarrow>
        incoming_at (snd (adopt_legacy_contexts k)) h (scoped_context n w) =
          (case incoming_at k h (scoped_context n w) of Some r \<Rightarrow> Some r
           | None \<Rightarrow> map_option (\<lambda>r. r\<lparr>nr_channel := scoped_context n w\<rparr>) (incoming_at k h w))
      \<and> outgoing_at (snd (adopt_legacy_contexts k)) (scoped_context n w) =
          (case outgoing_at k (scoped_context n w) of Some r \<Rightarrow> Some r
           | None \<Rightarrow> map_option (\<lambda>r. r\<lparr>or_channel := scoped_context n w\<rparr>) (outgoing_at k w)))"
proof -
  let ?ws = "legacy_context_values k"
  let ?k = "fold (\<lambda>w. migrate_legacy_context w n) ?ws k"
  have a: "adopt_legacy_contexts k = ([], ?k)"
    using assms(2,3) by (simp add: adopt_legacy_contexts_def adopt_loop_single)
  have sep: "\<forall>v\<in>set ?ws. CONTEXT_NET_SEPARATOR \<notin> set v" and dist: "distinct ?ws"
    by (auto simp: legacy_context_values_def)
  have "set (legacy_context_values ?k) \<subseteq> {}"
  proof
    fix c assume c: "c \<in> set (legacy_context_values ?k)"
    then have "c \<in> contexts ?k" "CONTEXT_NET_SEPARATOR \<notin> set c"
      "strip_prefix ''@'' c \<noteq> None \<or> is_channel_target c" by (auto simp: legacy_values_contexts)
    with contexts_fold_migrate [of n ?ws k] scoped_has_separator [of n] have "c \<in> contexts k - set ?ws"
      by blast
    with c show "c \<in> {}" by (auto simp: legacy_values_contexts)
  qed
  with a fold_migrate_scoped [OF assms(1) sep dist] show ?thesis by simp
qed

definition legacy_ring :: keyring where
  "legacy_ring = ring_alice\<lparr>k_configured_networks := [''libera'']\<rparr>"

theorem adopt_single_network_witness:
  "fst (adopt_legacy_contexts legacy_ring) = []
    \<and> incoming_at (snd (adopt_legacy_contexts legacy_ring)) ''~a@h'' (scoped_context ''libera'' ''#x'')
      = Some (incoming_to_row (sess_alice\<lparr>i_channel := scoped_context ''libera'' ''#x''\<rparr>) (i_sk sess_alice) None)"
proof -
  have ok: "keyring_ok legacy_ring"
    by (simp add: keyring_ok_def legacy_ring_def ring_alice_def keyring_new_def keys_ok_def)
  have n: "\<not> is_bouncer_scope ''libera''"
    by (simp add: is_bouncer_scope_def BOUNCER_SCOPE_PREFIX_def CONTEXT_NET_SEPARATOR_def Let_def)
  have w: "''#x'' \<in> set (legacy_context_values legacy_ring)"
    by (simp add: legacy_context_values_def legacy_ring_def ring_alice_def keyring_new_def
        incoming_to_row_def sess_alice_def CONTEXT_NET_SEPARATOR_def is_channel_target_def)
  have c: "k_configured_networks legacy_ring = [''libera'']" by (simp add: legacy_ring_def)
  have "incoming_at legacy_ring ''~a@h'' (scoped_context ''libera'' ''#x'') = None"
    "incoming_at legacy_ring ''~a@h'' ''#x'' = Some (incoming_to_row sess_alice (i_sk sess_alice) None)"
    by (simp_all add: select_key_def legacy_ring_def ring_alice_def keyring_new_def
        incoming_to_row_def sess_alice_def scoped_context_def)
  with adopt_single_network [OF ok c n] w show ?thesis by (simp add: incoming_to_row_def)
qed

end
