(* ===== verification/Result_State.thy ===== *)
theory Result_State
  imports E2e_Context
begin

text \<open>
  Operations that update a state and may fail: a step from a state to a result and the state it
  leaves, so that what was changed before an early return stays changed, as in the code.  And a
  small calculus to prove what such operations keep.
\<close>

type_synonym ('s, 'a) op = "'s \<Rightarrow> (e2e_error + 'a) \<times> 's"

definition ret :: "'a \<Rightarrow> ('s, 'a) op" where "ret x = (\<lambda>s. (Inr x, s))"

definition fail :: "e2e_error \<Rightarrow> ('s, 'a) op" where "fail e = (\<lambda>s. (Inl e, s))"

definition lift :: "(e2e_error + 'a) \<Rightarrow> ('s, 'a) op" where "lift r = (\<lambda>s. (r, s))"

definition reads :: "('s \<Rightarrow> 'a) \<Rightarrow> ('s, 'a) op" where "reads f = (\<lambda>s. (Inr (f s), s))"

definition changes :: "('s \<Rightarrow> 's) \<Rightarrow> ('s, unit) op" where "changes f = (\<lambda>s. (Inr (), f s))"

text \<open>A call that returns a value beside the new state.\<close>

definition calls :: "('s \<Rightarrow> 'a \<times> 's) \<Rightarrow> ('s, 'a) op" where
  "calls f = (\<lambda>s. case f s of (x, s') \<Rightarrow> (Inr x, s'))"

definition chain :: "('s, 'a) op \<Rightarrow> ('a \<Rightarrow> ('s, 'b) op) \<Rightarrow> ('s, 'b) op" where
  "chain f g = (\<lambda>s. case f s of (Inl e, s') \<Rightarrow> (Inl e, s') | (Inr x, s') \<Rightarrow> g x s')"

text \<open>A failure that the code logs and goes on from.\<close>

definition attempt :: "('s, unit) op \<Rightarrow> ('s, unit) op" where
  "attempt f = (\<lambda>s. case f s of (_, s') \<Rightarrow> (Inr (), s'))"

section \<open>Evaluation\<close>

named_theorems ops "evaluation of operations"

lemma op_simps [ops, simp]:
  "ret x s = (Inr x, s)" "fail e s = (Inl e, s)" "lift r s = (r, s)"
  "reads f s = (Inr (f s), s)" "changes g s = (Inr (), g s)"
  by (simp_all add: ret_def fail_def lift_def reads_def changes_def)

lemma chain_Inr: "f s = (Inr x, s') \<Longrightarrow> chain f g s = g x s'"
  by (simp add: chain_def)

lemma chain_Inl: "f s = (Inl e, s') \<Longrightarrow> chain f g s = (Inl e, s')"
  by (simp add: chain_def)

lemma chain_simps [ops, simp]:
  "chain (ret x) g s = g x s" "chain (fail e) g s = (Inl e, s)"
  "chain (reads h) g s = g (h s) s" "chain (changes u) k s = k () (u s)"
  by (simp_all add: chain_def)

lemma chain_lift [ops, simp]:
  "chain (lift r) g s = (case r of Inl e \<Rightarrow> (Inl e, s) | Inr x \<Rightarrow> g x s)"
  by (simp add: chain_def split: sum.split)

lemma chain_assoc: "chain (chain f g) h s = chain f (\<lambda>x. chain (g x) h) s"
  by (simp add: chain_def split: prod.split sum.split)

lemma chain_elim:
  assumes "chain f g s = (r, s2)"
  obtains (err) e where "f s = (Inl e, s2)" "r = Inl e"
    | (ok) x s1 where "f s = (Inr x, s1)" "g x s1 = (r, s2)"
  using assms by (auto simp: chain_def split: prod.splits sum.splits)

lemma chain_okE:
  assumes "chain f g s = (Inr y, s2)"
  obtains x s1 where "f s = (Inr x, s1)" "g x s1 = (Inr y, s2)"
  using assms by (auto simp: chain_def split: prod.splits sum.splits)

section \<open>What an operation keeps\<close>

text \<open>\<open>after P f Q\<close>: from a state in \<open>P\<close>, the result and the state left satisfy \<open>Q\<close>.\<close>

definition after :: "('s \<Rightarrow> bool) \<Rightarrow> ('s, 'a) op \<Rightarrow> (e2e_error + 'a \<Rightarrow> 's \<Rightarrow> bool) \<Rightarrow> bool" where
  "after P f Q \<longleftrightarrow> (\<forall>s. P s \<longrightarrow> Q (fst (f s)) (snd (f s)))"

definition keeps :: "('s \<Rightarrow> bool) \<Rightarrow> ('s, 'a) op \<Rightarrow> bool" where
  "keeps I f \<longleftrightarrow> after I f (\<lambda>_. I)"

lemma keepsI: "(\<And>s r s'. I s \<Longrightarrow> f s = (r, s') \<Longrightarrow> I s') \<Longrightarrow> keeps I f"
  unfolding keeps_def after_def by (metis prod.collapse)

lemma keepsD: "keeps I f \<Longrightarrow> I s \<Longrightarrow> f s = (r, s') \<Longrightarrow> I s'"
  unfolding keeps_def after_def by (metis snd_conv)

lemma keeps_snd: "keeps I f \<Longrightarrow> I s \<Longrightarrow> I (snd (f s))"
  by (simp add: keeps_def after_def)

lemma keeps_basic [intro, simp]:
  "keeps I (ret x)" "keeps I (fail e)" "keeps I (lift r)" "keeps I (reads h)"
  by (auto intro!: keepsI)

lemma keeps_Pair [intro, simp]: "keeps I (Pair r)"
  by (auto intro!: keepsI)

lemma keeps_changes [intro]: "(\<And>s. I s \<Longrightarrow> I (u s)) \<Longrightarrow> keeps I (changes u)"
  by (auto intro!: keepsI)

lemma keeps_calls [intro]: "(\<And>s. I s \<Longrightarrow> I (snd (f s))) \<Longrightarrow> keeps I (calls f)"
  unfolding keeps_def after_def calls_def by (simp split: prod.split) (metis snd_conv)

lemma keeps_chain [intro]: "keeps I f \<Longrightarrow> (\<And>x. keeps I (g x)) \<Longrightarrow> keeps I (chain f g)"
  by (rule keepsI) (auto elim!: chain_elim dest: keepsD)

lemma keeps_attempt [intro]: "keeps I f \<Longrightarrow> keeps I (attempt f)"
  by (rule keepsI) (auto simp: attempt_def dest: keepsD split: prod.splits)

lemma keeps_if [intro]: "keeps I f \<Longrightarrow> keeps I g \<Longrightarrow> keeps I (if b then f else g)"
  by simp

lemma keeps_case_option [intro]:
  "keeps I f \<Longrightarrow> (\<And>x. keeps I (g x)) \<Longrightarrow> keeps I (case v of None \<Rightarrow> f | Some x \<Rightarrow> g x)"
  by (simp split: option.split)

lemma keeps_case_sum [intro]:
  "(\<And>x. keeps I (f x)) \<Longrightarrow> (\<And>x. keeps I (g x)) \<Longrightarrow> keeps I (case v of Inl x \<Rightarrow> f x | Inr x \<Rightarrow> g x)"
  by (simp split: sum.split)

lemma keeps_case_prod [intro]: "(\<And>x y. keeps I (f x y)) \<Longrightarrow> keeps I (case p of (x, y) \<Rightarrow> f x y)"
  by (simp split: prod.split)

lemma keeps_conj: "keeps I f \<Longrightarrow> keeps J f \<Longrightarrow> keeps (\<lambda>s. I s \<and> J s) f"
  by (auto simp: keeps_def after_def)

text \<open>A chain whose continuation needs to know what the first operation returned.\<close>

lemma keeps_chain_after:
  assumes "\<And>s r s'. I s \<Longrightarrow> f s = (r, s') \<Longrightarrow> I s' \<and> (\<forall>x. r = Inr x \<longrightarrow> R x s')"
    and "\<And>x s r s'. I s \<Longrightarrow> R x s \<Longrightarrow> g x s = (r, s') \<Longrightarrow> I s'"
  shows "keeps I (chain f g)"
proof (rule keepsI)
  fix s r s' assume "I s" "chain f g s = (r, s')"
  from this(2) show "I s'"
  proof (cases rule: chain_elim)
    case (err e)
    with assms(1) [OF \<open>I s\<close> err(1)] show ?thesis by simp
  next
    case (ok x s1)
    from assms(1) [OF \<open>I s\<close> ok(1)] have "I s1" "R x s1" by auto
    from assms(2) [OF this ok(2)] show ?thesis .
  qed
qed

end
