(* ===== verification/E2e_Crypto.thy ===== *)
theory E2e_Crypto
  imports Crates E2e_Handshake
begin

text \<open>
  The cryptographic helpers of the encryption module (\<open>src/src/e2e/crypto/\<close>): fingerprints,
  signatures, the AEAD wrapper, key conversion, and the labels the key exchange derives its wrap
  keys under (end of \<open>src/src/e2e/manager.rs\<close>).
\<close>

section \<open>Model\<close>

definition fingerprint :: "'x crypto_scheme \<Rightarrow> bytes \<Rightarrow> bytes" where
  "fingerprint cr pubkey = take 16 (sha256 cr (''RPE2E01-FP:'' @ pubkey))"

definition fingerprint_hex :: "'x crypto_scheme \<Rightarrow> bytes \<Rightarrow> bytes" where
  "fingerprint_hex cr fp = hex_encode cr fp"

text \<open>The nonce \<open>encrypt\<close> draws is an argument and returned, as the code returns it.\<close>

definition aead_encrypt ::
  "'x crypto_scheme \<Rightarrow> bytes \<Rightarrow> bytes \<Rightarrow> bytes \<Rightarrow> bytes \<Rightarrow> e2e_error + bytes \<times> bytes" where
  "aead_encrypt cr n key aad plaintext =
     (case aead_seal cr key n aad plaintext of
        None \<Rightarrow> Inl (Crypto ''aead encrypt'')
      | Some ct \<Rightarrow> Inr (n, ct))"

definition aead_decrypt ::
  "'x crypto_scheme \<Rightarrow> bytes \<Rightarrow> bytes \<Rightarrow> bytes \<Rightarrow> bytes \<Rightarrow> e2e_error + bytes" where
  "aead_decrypt cr key n aad ct =
     (case aead_open cr key n aad ct of
        None \<Rightarrow> Inl (Crypto ''aead decrypt'')
      | Some pt \<Rightarrow> Inr pt)"

text \<open>A key that is no curve point and a signature that does not verify are the same error here.\<close>

definition sig_verify :: "'x crypto_scheme \<Rightarrow> bytes \<Rightarrow> bytes \<Rightarrow> bytes \<Rightarrow> e2e_error + unit" where
  "sig_verify cr pubkey message sig =
     (if ed_verify cr pubkey message sig then Inr () else Inl (Crypto ''signature verify''))"

definition ed25519_pub_to_x25519 :: "'x crypto_scheme \<Rightarrow> bytes \<Rightarrow> e2e_error + bytes" where
  "ed25519_pub_to_x25519 cr ed_pub = ok_or (Crypto ''invalid ed25519 pub'') (ed_pub_to_x cr ed_pub)"

definition wrap_info :: "bytes \<Rightarrow> bytes" where
  "wrap_info channel = ''RPE2E01-WRAP:'' @ channel"

definition rekey_info :: "bytes \<Rightarrow> bytes" where
  "rekey_info channel = ''RPE2E01-REKEY:'' @ channel"

definition derive_wrap_key :: "'x crypto_scheme \<Rightarrow> bytes \<Rightarrow> bytes \<Rightarrow> bytes \<Rightarrow> bytes" where
  "derive_wrap_key cr secret peer_pub info = hkdf cr ''RPE2E01-WRAP'' (x_dh cr secret peer_pub) info"

section \<open>What is relied on of the crates\<close>

text \<open>
  RFC 7748: both sides of a Diffie-Hellman exchange compute one secret, and the birational map
  takes an Ed25519 key pair to an X25519 key pair.  RFC 8032: a signature verifies under its
  signer's key.  The AEAD opens what it sealed, under the same key, nonce and data.
\<close>

definition dh_ok :: "'x crypto_scheme \<Rightarrow> bool" where
  "dh_ok cr \<longleftrightarrow> (\<forall>a b. x_dh cr a (x_public cr b) = x_dh cr b (x_public cr a)) \<and>
     (\<forall>seed. ed_pub_to_x cr (ed_public cr seed) = Some (x_public cr (ed_seed_to_x cr seed)))"

definition sig_ok :: "'x crypto_scheme \<Rightarrow> bool" where
  "sig_ok cr \<longleftrightarrow> (\<forall>seed msg. ed_verify cr (ed_public cr seed) msg (ed_sign cr seed msg))"

definition aead_ok :: "'x crypto_scheme \<Rightarrow> bool" where
  "aead_ok cr \<longleftrightarrow> (\<forall>key n aad pt. \<exists>ct. aead_seal cr key n aad pt = Some ct) \<and>
     (\<forall>key n aad pt ct. aead_seal cr key n aad pt = Some ct \<longrightarrow> aead_open cr key n aad ct = Some pt)"

lemma aead_encrypt_ok:
  assumes "aead_ok cr"
  shows "aead_encrypt cr n key ad pt = Inr (n, the (aead_seal cr key n ad pt))"
proof -
  from assms obtain ct where "aead_seal cr key n ad pt = Some ct" unfolding aead_ok_def by blast
  then show ?thesis by (simp add: aead_encrypt_def)
qed

lemma aead_roundtrip:
  assumes "aead_ok cr"
  shows "aead_decrypt cr key n ad (the (aead_seal cr key n ad pt)) = Inr pt"
proof -
  from assms obtain ct where "aead_seal cr key n ad pt = Some ct" unfolding aead_ok_def by blast
  moreover from this assms have "aead_open cr key n ad ct = Some pt" unfolding aead_ok_def by blast
  ultimately show ?thesis by (simp add: aead_decrypt_def)
qed

text \<open>The sizes of the fixed arrays.\<close>

definition sizes_ok :: "'x crypto_scheme \<Rightarrow> bool" where
  "sizes_ok cr \<longleftrightarrow> (\<forall>b. length (sha256 cr b) = 32) \<and>
     (\<forall>s. length s = 32 \<longrightarrow> length (ed_public cr s) = 32 \<and> length (x_public cr s) = 32) \<and>
     (\<forall>s m. length (ed_sign cr s m) = 64)"

lemma fingerprint_length: "sizes_ok cr \<Longrightarrow> length (fingerprint cr pk) = 16"
  by (simp add: sizes_ok_def fingerprint_def)

lemma wrap_labels_separate: "wrap_info c \<noteq> rekey_info d"
  by (simp add: wrap_info_def rekey_info_def)

lemma map2_commute: "(\<And>a b. f a b = f b a) \<Longrightarrow> map2 f xs ys = map2 f ys xs"
proof (induction xs arbitrary: ys)
  case (Cons x xs)
  then show ?case by (cases ys) auto
qed simp

lemma length_pad: "length (pad n b) = n"
  unfolding pad_def by (simp add: min_def)

lemma demo_crypto [simp]: "dh_ok demo" "sig_ok demo" "aead_ok demo" "sizes_ok demo"
proof -
  have "map2 (\<lambda>a b. byte_of (bval a + bval b)) s p = map2 (\<lambda>a b. byte_of (bval a + bval b)) p s" for s p
    by (rule map2_commute) (simp add: add.commute)
  then show "dh_ok demo" by (simp add: dh_ok_def demo_def)
  show "sig_ok demo" by (simp add: sig_ok_def demo_def)
  have "demo_open k n ad (be_bytes 4 (length k) @ k @ be_bytes 4 (length n) @ n
      @ be_bytes 4 (length ad) @ ad @ p) = Some p" for k n ad p
    unfolding demo_open_def
    using strip_prefix_append [of "be_bytes 4 (length k) @ k @ be_bytes 4 (length n) @ n
      @ be_bytes 4 (length ad) @ ad" p] by simp
  then show "aead_ok demo" by (simp add: aead_ok_def demo_def demo_seal_def)
  show "sizes_ok demo" by (simp add: sizes_ok_def demo_def length_pad)
qed

end
