(* ===== verification/E2e_Manager.thy ===== *)
theory E2e_Manager
  imports E2e_Keyring_Facts E2e_Rate_Limiter E2e_Crypto Result_State E2e_Wire
begin

text \<open>
  The state of the end-to-end controller (\<open>E2eManager\<close> in \<open>src/src/e2e/manager.rs\<close>), its pending
  queues with their time limits, the trust classification of an arriving identity, and the list of
  unresolved warnings.

  An operation reads the wall clock once (\<open>now\<close>) and the monotonic clock once (\<open>inst\<close>); the bytes
  of the operating system's generator come from the stream \<open>m_rng\<close>, of which \<open>m_draws\<close> draws were
  taken.  The mutexes are never held across operations, so an operation is one step.
\<close>

section \<open>State\<close>

definition PENDING_KEYREQ_TTL_SECS :: int where "PENDING_KEYREQ_TTL_SECS = 900"
definition PENDING_INBOUND_TTL_SECS :: int where "PENDING_INBOUND_TTL_SECS = 21600"
definition REKEY_PREV_KEY_GRACE_SECS :: int where "REKEY_PREV_KEY_GRACE_SECS = 300"
definition MAX_UNRESOLVED_TRUST_CHANGES :: nat where "MAX_UNRESOLVED_TRUST_CHANGES = 64"

record pending_handshake =
  ph_channel :: bytes
  ph_peer_handle :: "bytes option"
  ph_eph_x25519_secret :: bytes
  ph_created_at :: int

record pending_inbound_keyreq =
  pi_req :: key_req
  pi_created_at :: int

record pending_rekey_send =
  rs_target_handle :: bytes
  rs_notice_text :: bytes

record pending_outbound_keyreq =
  oq_peer_handle :: bytes
  oq_channel :: bytes
  oq_req :: key_req

record pending_accept_request =
  aq_nick :: "bytes option"
  aq_handle :: bytes
  aq_channel :: bytes

text \<open>\<open>TrustChange\<close>: \<open>HandleChanged old_handle new_handle fingerprint\<close>,
  \<open>FingerprintChanged handle old_fp new_fp\<close>; its \<open>Revoked handle fingerprint\<close> is \<open>RevokedPeer\<close>.\<close>

datatype trust_change =
    New
  | Known
  | HandleChanged bytes bytes bytes
  | FingerprintChanged bytes bytes bytes
  | RevokedPeer bytes bytes

record trust_notice =
  tn_handle :: bytes
  tn_channel :: bytes
  tn_change :: trust_change
  tn_new_pubkey :: "bytes option"

record manager =
  m_identity :: bytes
  m_keyring :: keyring
  m_limiter :: rate_limiter
  m_ts_tolerance_secs :: int
  m_pending :: "(bytes \<times> bytes, pending_handshake) hmap"
  m_trust_change :: "trust_notice list"
  m_unresolved :: "trust_notice list"
  m_rekey_sends :: "pending_rekey_send list"
  m_outbound :: "pending_outbound_keyreq list"
  m_inbound :: "(bytes \<times> bytes, pending_inbound_keyreq) hmap"
  m_accepts :: "pending_accept_request list"
  m_rng :: "nat \<Rightarrow> nat \<Rightarrow> bytes"
  m_draws :: nat

definition with_identity :: "keyring \<Rightarrow> bytes \<Rightarrow> int \<Rightarrow> (nat \<Rightarrow> nat \<Rightarrow> bytes) \<Rightarrow> manager" where
  "with_identity k seed tol rng = \<lparr>m_identity = seed, m_keyring = k, m_limiter = limiter_new,
     m_ts_tolerance_secs = tol, m_pending = [], m_trust_change = [], m_unresolved = [],
     m_rekey_sends = [], m_outbound = [], m_inbound = [], m_accepts = [], m_rng = rng, m_draws = 0\<rparr>"

text \<open>\<open>getrandom::fill\<close> of \<open>n\<close> bytes.\<close>

definition draw :: "nat \<Rightarrow> (manager, bytes) op" where
  "draw n = calls (\<lambda>m. (m_rng m (m_draws m) n, m\<lparr>m_draws := m_draws m + 1\<rparr>))"

text \<open>Calls on the keyring.\<close>

definition kr_get :: "(keyring \<Rightarrow> e2e_error + 'a) \<Rightarrow> (manager, 'a) op" where
  "kr_get f = (\<lambda>m. (f (m_keyring m), m))"

definition kr_upd :: "(keyring \<Rightarrow> keyring) \<Rightarrow> (manager, unit) op" where
  "kr_upd f = changes (\<lambda>m. m\<lparr>m_keyring := f (m_keyring m)\<rparr>)"

definition kr_try :: "(keyring \<Rightarrow> e2e_error + keyring) \<Rightarrow> (manager, unit) op" where
  "kr_try f = (\<lambda>m. case f (m_keyring m) of
     Inl e \<Rightarrow> (Inl e, m) | Inr k \<Rightarrow> (Inr (), m\<lparr>m_keyring := k\<rparr>))"

definition kr_call :: "(keyring \<Rightarrow> 'a \<times> keyring) \<Rightarrow> (manager, 'a) op" where
  "kr_call f = calls (\<lambda>m. case f (m_keyring m) of (x, k) \<Rightarrow> (x, m\<lparr>m_keyring := k\<rparr>))"

lemma manager_ops [ops, simp]:
  "draw n m = (Inr (m_rng m (m_draws m) n), m\<lparr>m_draws := m_draws m + 1\<rparr>)"
  "chain (draw n) g m = g (m_rng m (m_draws m) n) (m\<lparr>m_draws := m_draws m + 1\<rparr>)"
  "kr_get f m = (f (m_keyring m), m)"
  "chain (kr_get f) gg m = (case f (m_keyring m) of Inl e \<Rightarrow> (Inl e, m) | Inr x \<Rightarrow> gg x m)"
  "kr_upd u m = (Inr (), m\<lparr>m_keyring := u (m_keyring m)\<rparr>)"
  "chain (kr_upd u) h m = h () (m\<lparr>m_keyring := u (m_keyring m)\<rparr>)"
  "kr_try w m = (case w (m_keyring m) of Inl e \<Rightarrow> (Inl e, m) | Inr k \<Rightarrow> (Inr (), m\<lparr>m_keyring := k\<rparr>))"
  "chain (kr_try w) h m = (case w (m_keyring m) of Inl e \<Rightarrow> (Inl e, m)
     | Inr k \<Rightarrow> h () (m\<lparr>m_keyring := k\<rparr>))"
  "kr_call c m = (case c (m_keyring m) of (x, k) \<Rightarrow> (Inr x, m\<lparr>m_keyring := k\<rparr>))"
  by (simp_all add: draw_def kr_get_def kr_upd_def kr_try_def kr_call_def calls_def chain_def
      split: sum.split prod.split)

text \<open>The generator fills the buffer it is given.\<close>

definition rng_ok :: "manager \<Rightarrow> bool" where
  "rng_ok m \<longleftrightarrow> (\<forall>i n. length (m_rng m i n) = n)"

lemma keeps_draw [intro]: "(\<And>m i. I m \<Longrightarrow> I (m\<lparr>m_draws := i\<rparr>)) \<Longrightarrow> keeps I (draw n)"
  by (auto intro!: keepsI)

lemma keeps_kr_get [intro, simp]: "keeps I (kr_get f)"
  by (auto intro!: keepsI)

lemma keeps_kr_upd [intro]: "(\<And>m. I m \<Longrightarrow> I (m\<lparr>m_keyring := u (m_keyring m)\<rparr>)) \<Longrightarrow> keeps I (kr_upd u)"
  by (auto intro!: keepsI)

lemma keeps_kr_try [intro]:
  "(\<And>m k. I m \<Longrightarrow> w (m_keyring m) = Inr k \<Longrightarrow> I (m\<lparr>m_keyring := k\<rparr>)) \<Longrightarrow> keeps I (kr_try w)"
  by (auto intro!: keepsI split: sum.splits)

lemma keeps_kr_call [intro]:
  "(\<And>m x k. I m \<Longrightarrow> c (m_keyring m) = (x, k) \<Longrightarrow> I (m\<lparr>m_keyring := k\<rparr>)) \<Longrightarrow> keeps I (kr_call c)"
  by (auto intro!: keepsI split: prod.splits)

section \<open>Start-up\<close>

definition public_bytes :: "'x crypto_scheme \<Rightarrow> bytes \<Rightarrow> bytes" where
  "public_bytes cr seed = ed_public cr seed"

text \<open>The end of both messages, with the UTF-8 bytes of its dash.\<close>

definition corrupted :: bytes where
  "corrupted = [CHR 0xE2, CHR 0x80, CHR 0x94] @ '' keyring may be corrupted''"

definition load_or_init ::
  "'x crypto_scheme \<Rightarrow> (nat \<Rightarrow> nat \<Rightarrow> bytes) \<Rightarrow> int \<Rightarrow> int \<Rightarrow> keyring \<Rightarrow> e2e_error + manager" where
  "load_or_init cr rng now tol k =
     rbind (load_identity k) (\<lambda>row.
     case row of
       Some (stored_pk, sk, stored_fp, _) \<Rightarrow>
         if public_bytes cr sk \<noteq> stored_pk
         then Inl (Crypto (''stored identity public key does not match secret '' @ corrupted))
         else if fingerprint cr (public_bytes cr sk) \<noteq> stored_fp
         then Inl (Crypto (''stored identity fingerprint does not match pubkey '' @ corrupted))
         else Inr (with_identity k sk tol rng)
     | None \<Rightarrow>
         let seed = rng 0 32; pk = public_bytes cr seed in
         rbind (save_identity pk seed (fingerprint cr pk) now k) (\<lambda>k'.
         Inr ((with_identity k' seed tol rng)\<lparr>m_draws := 1\<rparr>)))"

definition own_fingerprint :: "'x crypto_scheme \<Rightarrow> manager \<Rightarrow> bytes" where
  "own_fingerprint cr m = fingerprint cr (public_bytes cr (m_identity m))"

section \<open>Pending state\<close>

definition prune_expired_pending :: "int \<Rightarrow> manager \<Rightarrow> manager" where
  "prune_expired_pending now m =
     m\<lparr>m_pending := hm_retain (\<lambda>(_, ph). now - ph_created_at ph \<le> PENDING_KEYREQ_TTL_SECS) (m_pending m),
       m_inbound := hm_retain (\<lambda>(_, p). now - pi_created_at p \<le> PENDING_INBOUND_TTL_SECS) (m_inbound m)\<rparr>"

text \<open>The number of entries dropped and the state without them.\<close>

definition clear_pending_state_for_handle :: "bytes \<Rightarrow> manager \<Rightarrow> nat \<times> manager" where
  "clear_pending_state_for_handle handle m =
     (let p = hm_retain (\<lambda>(_, ph). ph_peer_handle ph \<noteq> Some handle) (m_pending m);
          i = hm_retain (\<lambda>((h, _), _). h \<noteq> handle) (m_inbound m);
          a = filter (\<lambda>r. aq_handle r \<noteq> handle) (m_accepts m);
          q = filter (\<lambda>r. oq_peer_handle r \<noteq> handle) (m_outbound m)
      in ((length (m_pending m) - length p) + (length (m_inbound m) - length i)
            + (length (m_accepts m) - length a) + (length (m_outbound m) - length q),
          m\<lparr>m_pending := p, m_inbound := i, m_accepts := a, m_outbound := q\<rparr>))"

definition take_pending_trust_changes :: "manager \<Rightarrow> trust_notice list \<times> manager" where
  "take_pending_trust_changes m = (m_trust_change m, m\<lparr>m_trust_change := []\<rparr>)"

definition take_pending_rekey_sends :: "manager \<Rightarrow> pending_rekey_send list \<times> manager" where
  "take_pending_rekey_sends m = (m_rekey_sends m, m\<lparr>m_rekey_sends := []\<rparr>)"

definition take_pending_outbound_keyreqs :: "manager \<Rightarrow> pending_outbound_keyreq list \<times> manager" where
  "take_pending_outbound_keyreqs m = (m_outbound m, m\<lparr>m_outbound := []\<rparr>)"

definition take_pending_accept_requests :: "manager \<Rightarrow> pending_accept_request list \<times> manager" where
  "take_pending_accept_requests m = (m_accepts m, m\<lparr>m_accepts := []\<rparr>)"

definition has_pending_keyreq :: "bytes \<Rightarrow> manager \<Rightarrow> bool" where
  "has_pending_keyreq channel m = list_ex (\<lambda>((c, _), _). c = channel) (m_pending m)"

definition allow_keyreq :: "nat \<Rightarrow> bytes \<Rightarrow> manager \<Rightarrow> bool \<times> manager" where
  "allow_keyreq inst peer_handle m =
     (case allow_outgoing inst peer_handle (m_limiter m) of (ok, l) \<Rightarrow> (ok, m\<lparr>m_limiter := l\<rparr>))"

definition allow_incoming_keyreq :: "nat \<Rightarrow> bytes \<Rightarrow> manager \<Rightarrow> bool \<times> manager" where
  "allow_incoming_keyreq inst peer_handle m =
     (case allow_incoming inst peer_handle (m_limiter m) of (ok, l) \<Rightarrow> (ok, m\<lparr>m_limiter := l\<rparr>))"

section \<open>Trust classification\<close>

definition classify_peer_change :: "bytes \<Rightarrow> bytes \<Rightarrow> keyring \<Rightarrow> e2e_error + trust_change" where
  "classify_peer_change fp handle k =
     rbind (get_peer_by_fingerprint fp k) (\<lambda>known.
     case known of
       Some existing \<Rightarrow>
         if p_global_status existing = Revoked then Inr (RevokedPeer handle fp)
         else if p_last_handle existing \<noteq> Some handle
         then Inr (HandleChanged (case p_last_handle existing of None \<Rightarrow> [] | Some h \<Rightarrow> h) handle fp)
         else Inr Known
     | None \<Rightarrow>
         rbind (get_peer_by_handle handle k) (\<lambda>owner.
         case owner of
           Some existing \<Rightarrow> Inr (FingerprintChanged handle (p_fingerprint existing) fp)
         | None \<Rightarrow> Inr New))"

fun handle_mismatch_for :: "'x codecs_scheme \<Rightarrow> trust_change \<Rightarrow> bytes \<Rightarrow> e2e_error" where
  "handle_mismatch_for cr (HandleChanged old _ _) got = HandleMismatch old got"
| "handle_mismatch_for cr (FingerprintChanged h old _) got =
     HandleMismatch (h @ '' (fp='' @ hex_encode cr old @ '')'') got"
| "handle_mismatch_for cr (RevokedPeer h f) got =
     HandleMismatch (h @ '' (revoked, fp='' @ hex_encode cr f @ '')'') got"
| "handle_mismatch_for cr _ got = HandleMismatch [] got"

section \<open>Warnings\<close>

definition same_warning :: "trust_notice \<Rightarrow> trust_notice \<Rightarrow> bool" where
  "same_warning a b \<longleftrightarrow> tn_handle a = tn_handle b \<and> tn_change a = tn_change b"

definition record_trust_change :: "trust_notice \<Rightarrow> manager \<Rightarrow> manager" where
  "record_trust_change notice m =
     (let kept = filter (\<lambda>n. \<not> same_warning n notice) (m_unresolved m);
          room = (if length kept \<ge> MAX_UNRESOLVED_TRUST_CHANGES then drop 1 kept else kept)
      in m\<lparr>m_unresolved := room @ [notice], m_trust_change := m_trust_change m @ [notice]\<rparr>)"

definition drop_trust_notices :: "trust_notice list \<Rightarrow> manager \<Rightarrow> manager" where
  "drop_trust_notices resolved m =
     (let open_notice = (\<lambda>n. \<not> list_ex (same_warning n) resolved) in
      m\<lparr>m_trust_change := filter open_notice (m_trust_change m),
        m_unresolved := filter open_notice (m_unresolved m)\<rparr>)"

definition clear_trust_notices_for_handle :: "bytes \<Rightarrow> manager \<Rightarrow> nat \<times> manager" where
  "clear_trust_notices_for_handle handle m =
     (let kept = filter (\<lambda>n. tn_handle n \<noteq> handle) (m_unresolved m) in
      (length (m_unresolved m) - length kept,
       m\<lparr>m_trust_change := filter (\<lambda>n. tn_handle n \<noteq> handle) (m_trust_change m),
         m_unresolved := kept\<rparr>))"

text \<open>The pubkey is carried on a fingerprint change only.\<close>

definition offered_pubkey :: "trust_change \<Rightarrow> bytes \<Rightarrow> bytes option" where
  "offered_pubkey change pubkey =
     (case change of FingerprintChanged _ _ _ \<Rightarrow> Some pubkey | _ \<Rightarrow> None)"

text \<open>What every handler does with a change that is neither new nor known.\<close>

definition refuse_change ::
  "'x codecs_scheme \<Rightarrow> bytes \<Rightarrow> bytes \<Rightarrow> trust_change \<Rightarrow> bytes \<Rightarrow> (manager, 'a) op" where
  "refuse_change cr sender_handle channel change pubkey =
     chain (changes (record_trust_change \<lparr>tn_handle = sender_handle, tn_channel = channel,
              tn_change = change, tn_new_pubkey = offered_pubkey change pubkey\<rparr>))
       (\<lambda>_. fail (handle_mismatch_for cr change sender_handle))"

section \<open>Facts\<close>

lemma classify_New:
  assumes "classify_peer_change fp h k = Inr New"
  shows "peer_at fp k = None \<and> peer_by_handle h k = None"
proof -
  from assms obtain x where x: "get_peer_by_fingerprint fp k = Inr x"
    by (auto simp: classify_peer_change_def rbind_Inr)
  with assms have "x = None" by (cases x) (simp_all add: classify_peer_change_def split: if_splits)
  moreover from assms x this obtain y where y: "get_peer_by_handle h k = Inr y"
    by (auto simp: classify_peer_change_def rbind_Inr)
  with assms x \<open>x = None\<close> have "y = None" by (cases y) (simp_all add: classify_peer_change_def)
  ultimately show ?thesis
    using get_peer_by_fingerprint_Inr [OF x] get_peer_by_handle_Inr [OF y] by simp
qed

lemma classify_Known:
  assumes "classify_peer_change fp h k = Inr Known"
  shows "\<exists>p. peer_at fp k = Some p \<and> p_last_handle p = Some h \<and> p_global_status p \<noteq> Revoked"
proof -
  from assms obtain x where x: "get_peer_by_fingerprint fp k = Inr x"
    by (auto simp: classify_peer_change_def rbind_Inr)
  note at = get_peer_by_fingerprint_Inr [OF x]
  show ?thesis
  proof (cases x)
    case None
    with assms x show ?thesis
      by (auto simp: classify_peer_change_def rbind_Inr split: option.splits)
  next
    case (Some p)
    with assms x at show ?thesis by (auto simp: classify_peer_change_def split: if_splits)
  qed
qed

lemma classify_revoked:
  assumes "peer_at fp k = Some p" "p_global_status p = Revoked" "classify_peer_change fp h k = Inr c"
  shows "c = RevokedPeer h fp"
  using assms by (auto simp: classify_peer_change_def rbind_Inr dest!: get_peer_by_fingerprint_Inr)

definition warnings_ok :: "manager \<Rightarrow> bool" where
  "warnings_ok m \<longleftrightarrow> length (m_unresolved m) \<le> MAX_UNRESOLVED_TRUST_CHANGES
     \<and> distinct (map (\<lambda>n. (tn_handle n, tn_change n)) (m_unresolved m))"

lemma drop_one_distinct:
  "distinct (map f xs) \<Longrightarrow> y \<notin> set (map f xs) \<Longrightarrow>
     distinct (map f (drop 1 xs)) \<and> y \<notin> set (map f (drop 1 xs))"
  by (cases xs) auto

lemma warnings_record: "warnings_ok m \<Longrightarrow> warnings_ok (record_trust_change n m)"
proof -
  assume ok: "warnings_ok m"
  let ?key = "\<lambda>n. (tn_handle n, tn_change n)"
  let ?kept = "filter (\<lambda>x. \<not> same_warning x n) (m_unresolved m)"
  have d: "distinct (map ?key ?kept)" "?key n \<notin> set (map ?key ?kept)"
    using ok by (auto simp: warnings_ok_def distinct_map_filter same_warning_def)
  have l: "length ?kept \<le> MAX_UNRESOLVED_TRUST_CHANGES"
    using ok le_trans [OF length_filter_le] by (auto simp: warnings_ok_def)
  have "distinct (map ?key (drop 1 ?kept))" "?key n \<notin> set (map ?key (drop 1 ?kept))"
    using drop_one_distinct [OF d] by blast+
  with d l show ?thesis
    by (auto simp: warnings_ok_def record_trust_change_def Let_def MAX_UNRESOLVED_TRUST_CHANGES_def)
qed

lemma warnings_filter:
  "warnings_ok m \<Longrightarrow> m_unresolved m' = filter P (m_unresolved m) \<Longrightarrow> warnings_ok m'"
  by (auto simp: warnings_ok_def distinct_map_filter intro: le_trans [OF length_filter_le])

end
