(* ===== verification/E2e_Sessions.thy ===== *)
theory E2e_Sessions
  imports E2e_Manager E2e_Chunker
begin

text \<open>
  Encryption and decryption of messages (\<open>encrypt_outgoing\<close>, \<open>decrypt_incoming\<close> and the lazy
  rotation in \<open>src/src/e2e/manager.rs\<close>).
\<close>

section \<open>Rotation\<close>

definition sig_sign :: "'x crypto_scheme \<Rightarrow> bytes \<Rightarrow> bytes \<Rightarrow> bytes" where
  "sig_sign cr seed message = ed_sign cr seed message"

text \<open>\<open>generate_session_key\<close> is 32 drawn bytes, an ephemeral secret likewise.\<close>

definition build_rekey_for_peer ::
  "'x crypto_scheme \<Rightarrow> bytes \<Rightarrow> peer_record \<Rightarrow> bytes \<Rightarrow> (manager, key_rekey) op" where
  "build_rekey_for_peer cr channel peer new_sk =
     chain (draw 32) (\<lambda>eph_sk.
     chain (lift (ed25519_pub_to_x25519 cr (p_pubkey peer))) (\<lambda>peer_x.
     let wire_channel = wire_context channel;
         info = rekey_info wire_channel;
         wrap_key = hkdf cr ''RPE2E01-WRAP'' (x_dh cr eph_sk peer_x) info in
     chain (draw 24) (\<lambda>n.
     chain (lift (aead_encrypt cr n wrap_key info new_sk)) (\<lambda>(wrap_nonce, wrap_ct).
     chain (draw 16) (\<lambda>nonce.
     chain (reads m_identity) (\<lambda>seed.
     let pubkey = public_bytes cr seed;
         eph_pub = x_public cr eph_sk in
     ret \<lparr>rk_channel = wire_channel, rk_pubkey = pubkey, rk_eph_pub = eph_pub,
          rk_wrap_nonce = wrap_nonce, rk_wrap_ct = wrap_ct, rk_nonce = nonce,
          rk_sig = sig_sign cr seed (sig_payload_keyrekey wire_channel pubkey eph_pub
                                       wrap_nonce wrap_ct nonce)\<rparr>))))))"

definition encode_keyrekey_ctcp :: "'x codecs_scheme \<Rightarrow> key_rekey \<Rightarrow> bytes" where
  "encode_keyrekey_ctcp cr rk = [CHR 0x01] @ encode_keyrekey cr rk @ [CHR 0x01]"

text \<open>A recipient without a peer row, or whose REKEY cannot be built, is skipped with a warning.\<close>

definition push_rekey ::
  "'x crypto_scheme \<Rightarrow> bytes \<Rightarrow> bytes \<Rightarrow> bytes \<Rightarrow> peer_record \<Rightarrow> (manager, unit) op" where
  "push_rekey cr channel fresh handle peer =
     attempt (chain (build_rekey_for_peer cr channel peer fresh) (\<lambda>rk.
       changes (\<lambda>m. m\<lparr>m_rekey_sends := m_rekey_sends m
         @ [\<lparr>rs_target_handle = handle, rs_notice_text = encode_keyrekey_ctcp cr rk\<rparr>]\<rparr>)))"

fun distribute_rekey ::
  "'x crypto_scheme \<Rightarrow> bytes \<Rightarrow> bytes \<Rightarrow> (bytes \<times> bytes) list \<Rightarrow> (manager, unit) op" where
  "distribute_rekey cr channel fresh [] = ret ()"
| "distribute_rekey cr channel fresh ((handle, fp) # rest) =
     chain (kr_get (get_peer_by_fingerprint fp)) (\<lambda>found.
     chain (case found of None \<Rightarrow> ret () | Some peer \<Rightarrow> push_rekey cr channel fresh handle peer) (\<lambda>_.
     distribute_rekey cr channel fresh rest))"

definition get_or_generate_outgoing_key ::
  "'x crypto_scheme \<Rightarrow> int \<Rightarrow> bytes \<Rightarrow> (manager, bytes) op" where
  "get_or_generate_outgoing_key cr now channel =
     chain (kr_get (get_outgoing_session channel)) (\<lambda>cur.
     if (case cur of Some s \<Rightarrow> \<not> o_pending_rotation s | None \<Rightarrow> False) then ret (o_sk (the cur))
     else
       chain (kr_get (get_outgoing_session channel)) (\<lambda>again.
       let had_pending_rotation = (case again of Some s \<Rightarrow> o_pending_rotation s | None \<Rightarrow> False) in
       chain (draw 32) (\<lambda>fresh.
       chain (kr_try (set_outgoing_session channel fresh now)) (\<lambda>_.
       chain (if had_pending_rotation
              then chain (kr_get (list_outgoing_recipients channel)) (distribute_rekey cr channel fresh)
              else ret ()) (\<lambda>_.
       ret fresh)))))"

section \<open>Encryption\<close>

fun encrypt_chunks ::
  "'x crypto_scheme \<Rightarrow> bytes \<Rightarrow> bytes \<Rightarrow> bytes \<Rightarrow> int \<Rightarrow> nat \<Rightarrow> nat \<Rightarrow> bytes list \<Rightarrow> (manager, bytes list) op" where
  "encrypt_chunks cr sk wire mid t tot idx [] = ret []"
| "encrypt_chunks cr sk wire mid t tot idx (plain # rest) =
     chain (draw 24) (\<lambda>n.
     chain (lift (aead_encrypt cr n sk (build_aad wire mid t (idx + 1) tot) plain)) (\<lambda>(nonce, ct).
     chain (lift (encode cr \<lparr>w_msgid = mid, w_ts = t, w_part = idx + 1, w_total = tot, w_nonce = nonce,
                             w_ciphertext = ct\<rparr>)) (\<lambda>line.
     chain (encrypt_chunks cr sk wire mid t tot (idx + 1) rest) (\<lambda>lines.
     ret (line # lines)))))"

text \<open>The chunker returns at most 16 chunks and at least one, so the two guards after it never fire.\<close>

definition encrypt_outgoing ::
  "'x crypto_scheme \<Rightarrow> int \<Rightarrow> bytes \<Rightarrow> bytes \<Rightarrow> (manager, bytes list) op" where
  "encrypt_outgoing cr now channel plaintext =
     chain (get_or_generate_outgoing_key cr now channel) (\<lambda>sk.
     chain (lift (split_plaintext plaintext)) (\<lambda>chunks.
     if length chunks > 255 then fail (ChunkLimit 255)
     else if length chunks = 0 then fail (WireErr ''chunker produced zero chunks'')
     else
       chain (draw 8) (\<lambda>mid.
       encrypt_chunks cr sk (wire_context channel) mid now (length chunks) 0 chunks)))"

definition ACTION_PREFIX :: bytes where "ACTION_PREFIX = CHR 0x01 # ''ACTION ''"

fun encrypt_pieces ::
  "'x crypto_scheme \<Rightarrow> int \<Rightarrow> bytes \<Rightarrow> bytes list \<Rightarrow> (manager, bytes list) op" where
  "encrypt_pieces cr now channel [] = ret []"
| "encrypt_pieces cr now channel (piece # rest) =
     (if \<not> utf8_valid piece then fail (WireErr ''chunker split off a UTF-8 boundary'')
      else
        chain (encrypt_outgoing cr now channel (ACTION_PREFIX @ piece @ [CHR 0x01])) (\<lambda>lines.
        chain (encrypt_pieces cr now channel rest) (\<lambda>more.
        ret (lines @ more))))"

definition encrypt_outgoing_ctcp ::
  "'x crypto_scheme \<Rightarrow> int \<Rightarrow> bytes \<Rightarrow> bytes \<Rightarrow> (manager, bytes list) op" where
  "encrypt_outgoing_ctcp cr now channel frame =
     (if length frame \<le> MAX_PLAINTEXT_PER_CHUNK then encrypt_outgoing cr now channel frame
      else
        chain (lift (ok_or (WireErr ''CTCP frame exceeds one encrypted chunk and cannot be split'')
                 (case strip_prefix ACTION_PREFIX frame of
                    None \<Rightarrow> None | Some f \<Rightarrow> strip_suffix [CHR 0x01] f))) (\<lambda>body.
        chain (lift (split_plaintext_budget body
                 (MAX_PLAINTEXT_PER_CHUNK - (length ACTION_PREFIX + 1)))) (\<lambda>pieces.
        encrypt_pieces cr now channel pieces)))"

section \<open>Decryption\<close>

datatype decrypt_outcome = Plaintext bytes | MissingKey bytes bytes | Rejected bytes

fun status_debug :: "trust_status \<Rightarrow> bytes" where
  "status_debug Pending = ''Pending''"
| "status_debug Trusted = ''Trusted''"
| "status_debug Revoked = ''Revoked''"

definition utf8_or_reject :: "bytes \<Rightarrow> decrypt_outcome" where
  "utf8_or_reject pt = (if utf8_valid pt then Plaintext pt else Rejected ''utf8'')"

text \<open>
  \<open>(now - wire.ts).abs()\<close> on \<open>i64\<close>: the release profile does not check overflow, so both steps
  wrap around.
\<close>

definition ts_skew :: "int \<Rightarrow> int \<Rightarrow> int" where
  "ts_skew now t = i64_abs (i64_wrap (now - t))"

definition chunk_aad :: "bytes \<Rightarrow> wire_chunk \<Rightarrow> bytes" where
  "chunk_aad channel w = build_aad (wire_context channel) (w_msgid w) (w_ts w) (w_part w) (w_total w)"

definition decrypt_with_prev ::
  "'x crypto_scheme \<Rightarrow> int \<Rightarrow> bytes \<Rightarrow> wire_chunk \<Rightarrow> (bytes \<times> int) option \<Rightarrow> decrypt_outcome \<Rightarrow> decrypt_outcome" where
  "decrypt_with_prev cr now channel w prev otherwise =
     (case prev of
        None \<Rightarrow> otherwise
      | Some (prev_sk, replaced_at) \<Rightarrow>
          if now - replaced_at \<le> REKEY_PREV_KEY_GRACE_SECS
          then (case aead_decrypt cr prev_sk (w_nonce w) (chunk_aad channel w) (w_ciphertext w) of
                  Inr pt \<Rightarrow> utf8_or_reject pt
                | Inl _ \<Rightarrow> otherwise)
          else otherwise)"

definition decrypt_chunk ::
  "'x crypto_scheme \<Rightarrow> int \<Rightarrow> int \<Rightarrow> bytes \<Rightarrow> bytes \<Rightarrow> wire_chunk \<Rightarrow> keyring \<Rightarrow> e2e_error + decrypt_outcome" where
  "decrypt_chunk cr now tol sender_handle channel w k =
     (if ts_skew now (w_ts w) > tol
      then Inr (Rejected (''ts outside tolerance window ('' @ show_int (ts_skew now (w_ts w)) @ ''s skew)''))
      else
        rbind (get_incoming_session sender_handle channel k) (\<lambda>found.
        case found of
          None \<Rightarrow> Inr (MissingKey sender_handle channel)
        | Some sess \<Rightarrow>
            if i_status sess \<noteq> Trusted
            then Inr (Rejected (''peer not trusted (status='' @ status_debug (i_status sess) @ '')''))
            else case aead_decrypt cr (i_sk sess) (w_nonce w) (chunk_aad channel w) (w_ciphertext w) of
                   Inr pt \<Rightarrow> Inr (utf8_or_reject pt)
                 | Inl e \<Rightarrow>
                     rbind (get_incoming_prev_key sender_handle channel k) (\<lambda>prev.
                     Inr (decrypt_with_prev cr now channel w prev
                            (Rejected (''aead failed: '' @ show_error e))))))"

definition decrypt_incoming ::
  "'x crypto_scheme \<Rightarrow> int \<Rightarrow> bytes \<Rightarrow> bytes \<Rightarrow> bytes \<Rightarrow> manager \<Rightarrow> e2e_error + decrypt_outcome" where
  "decrypt_incoming cr now sender_handle channel wire_line m =
     rbind (parse cr wire_line) (\<lambda>parsed.
     case parsed of
       None \<Rightarrow> Inr (Plaintext wire_line)
     | Some w \<Rightarrow> decrypt_chunk cr now (m_ts_tolerance_secs m) sender_handle channel w (m_keyring m))"

section \<open>What decryption accepts\<close>

definition opens :: "'x crypto_scheme \<Rightarrow> bytes \<Rightarrow> bytes \<Rightarrow> wire_chunk \<Rightarrow> bytes \<Rightarrow> bool" where
  "opens cr key channel w pt \<longleftrightarrow> aead_open cr key (w_nonce w) (chunk_aad channel w) (w_ciphertext w) = Some pt"

lemma aead_decrypt_Inr: "aead_decrypt cr k n ad ct = Inr pt \<longleftrightarrow> aead_open cr k n ad ct = Some pt"
  by (simp add: aead_decrypt_def split: option.split)

lemma utf8_or_reject_Plaintext: "utf8_or_reject b = Plaintext pt \<longleftrightarrow> b = pt \<and> utf8_valid pt"
  by (auto simp: utf8_or_reject_def)

lemma decrypt_chunk_Plaintext:
  assumes "decrypt_chunk cr now tol h c w k = Inr (Plaintext pt)"
  shows "ts_skew now (w_ts w) \<le> tol \<and> utf8_valid pt \<and>
    (\<exists>sess. get_incoming_session h c k = Inr (Some sess) \<and> i_status sess = Trusted \<and>
       (opens cr (i_sk sess) c w pt \<or>
        (\<exists>prev at. get_incoming_prev_key h c k = Inr (Some (prev, at)) \<and>
           now - at \<le> REKEY_PREV_KEY_GRACE_SECS \<and> opens cr prev c w pt)))"
proof -
  from assms have skew: "ts_skew now (w_ts w) \<le> tol"
    by (auto simp: decrypt_chunk_def split: if_splits)
  with assms obtain sess where s: "get_incoming_session h c k = Inr (Some sess)" "i_status sess = Trusted"
    by (auto simp: decrypt_chunk_def rbind_Inr split: option.splits if_splits)
  show ?thesis
  proof (cases "aead_decrypt cr (i_sk sess) (w_nonce w) (chunk_aad c w) (w_ciphertext w)")
    case (Inr b)
    with assms skew s have "utf8_or_reject b = Plaintext pt" by (simp add: decrypt_chunk_def)
    with Inr skew s show ?thesis
      by (simp add: utf8_or_reject_Plaintext opens_def aead_decrypt_Inr)
  next
    case (Inl e)
    with assms skew s obtain prev0 where p: "get_incoming_prev_key h c k = Inr prev0"
      "decrypt_with_prev cr now c w prev0 (Rejected (''aead failed: '' @ show_error e)) = Plaintext pt"
      by (auto simp: decrypt_chunk_def rbind_Inr)
    then obtain prev at b where "get_incoming_prev_key h c k = Inr (Some (prev, at))"
      "now - at \<le> REKEY_PREV_KEY_GRACE_SECS"
      "aead_decrypt cr prev (w_nonce w) (chunk_aad c w) (w_ciphertext w) = Inr b"
      "utf8_or_reject b = Plaintext pt"
      unfolding decrypt_with_prev_def
      by (cases prev0) (simp, fastforce split: prod.splits if_splits sum.splits)
    with skew s show ?thesis by (auto simp: utf8_or_reject_Plaintext opens_def aead_decrypt_Inr)
  qed
qed

end
