(* ===== verification/E2e_Session_Facts.thy ===== *)
theory E2e_Session_Facts
  imports E2e_Sessions
begin

text \<open>
  What the encryption path guarantees end to end: the key a channel is encrypted under is the
  stored one, a receiver holding it reads exactly the message that was sent, a flagged session is
  rotated once and the fresh key goes to the remaining recipients only.
\<close>

section \<open>The outgoing key\<close>

lemma keeps_build_rekey [intro]:
  "(\<And>m i. I m \<Longrightarrow> I (m\<lparr>m_draws := i\<rparr>)) \<Longrightarrow> keeps I (build_rekey_for_peer cr c p sk)"
  unfolding build_rekey_for_peer_def Let_def by blast

lemma keeps_push_rekey [intro]:
  "(\<And>m i. I m \<Longrightarrow> I (m\<lparr>m_draws := i\<rparr>)) \<Longrightarrow> (\<And>m q. I m \<Longrightarrow> I (m\<lparr>m_rekey_sends := q\<rparr>)) \<Longrightarrow>
     keeps I (push_rekey cr c f h p)"
  unfolding push_rekey_def by (intro keeps_attempt keeps_chain keeps_build_rekey keeps_changes) auto

lemma keeps_distribute [intro]:
  assumes "\<And>m i. I m \<Longrightarrow> I (m\<lparr>m_draws := i\<rparr>)" "\<And>m q. I m \<Longrightarrow> I (m\<lparr>m_rekey_sends := q\<rparr>)"
  shows "keeps I (distribute_rekey cr c f rs)"
proof (induction rs)
  case (Cons r rs)
  obtain h fp where "r = (h, fp)" by (cases r)
  have "keeps I (push_rekey cr c f h p)" for p
    by (rule keeps_push_rekey) (simp_all add: assms)
  then show ?case unfolding \<open>r = (h, fp)\<close> distribute_rekey.simps
    by (intro keeps_chain keeps_kr_get keeps_case_option keeps_basic Cons)
qed simp

lemma keeps_outgoing_key [intro]:
  assumes "\<And>m i. I m \<Longrightarrow> I (m\<lparr>m_draws := i\<rparr>)" "\<And>m q. I m \<Longrightarrow> I (m\<lparr>m_rekey_sends := q\<rparr>)"
    "\<And>m sk k. I m \<Longrightarrow> set_outgoing_session c sk now (m_keyring m) = Inr k \<Longrightarrow> I (m\<lparr>m_keyring := k\<rparr>)"
  shows "keeps I (get_or_generate_outgoing_key cr now c)"
  unfolding get_or_generate_outgoing_key_def Let_def
  by (intro keeps_chain keeps_if keeps_kr_get keeps_basic keeps_draw keeps_kr_try keeps_distribute assms)
    (auto intro: assms)

lemma set_outgoing_Inr:
  assumes "box_ok k" "length sk = 32" "set_outgoing_session c sk now k = Inr k'"
  shows "get_outgoing_session c k' =
    Inr (Some \<lparr>o_channel = c, o_sk = sk, o_created_at = now, o_pending_rotation = False\<rparr>)"
proof -
  from assms(3) obtain e where e: "encode_secret k sk = Inr e"
    "k' = k\<lparr>k_outgoing := insert_or_replace or_channel
        \<lparr>or_channel = c, or_sk = e, or_created_at = now, or_pending_rotation = 0\<rparr> (k_outgoing k)\<rparr>"
    by (auto simp: set_outgoing_session_def rbind_Inr)
  from decode_encode_secret [OF assms(1,2) e(1)] decode_secret_cong [of k' k] e(2)
  have "decode_secret k' 32 e f = Inr sk" for f by simp
  then show ?thesis
    by (simp add: e(2) get_outgoing_session_def with_fallback_def get_outgoing_session_exact_def
        select_insert_or_replace outgoing_of_row_def)
qed

lemma with_fallback_Some: "with_fallback k c get = Inr (Some s) \<Longrightarrow> \<exists>d. get d = Inr (Some s)"
  by (auto simp: with_fallback_def rbind_Inr split: option.splits)

lemma get_outgoing_length:
  assumes "get_outgoing_session c k = Inr (Some s)"
  shows "length (o_sk s) = 32"
proof -
  from assms with_fallback_Some obtain d where "get_outgoing_session_exact k d = Inr (Some s)"
    unfolding get_outgoing_session_def by (metis (full_types))
  then obtain r where "outgoing_of_row k r = Inr s"
    by (auto simp: get_outgoing_session_exact_def rbind_Inr split: option.splits)
  then show ?thesis
    by (auto simp: outgoing_of_row_def rbind_Inr dest: decode_secret_length)
qed

abbreviation rotating :: "bytes \<Rightarrow> keyring \<Rightarrow> bool" where
  "rotating c k \<equiv> (\<exists>s. get_outgoing_session c k = Inr (Some s) \<and> o_pending_rotation s)"

lemma outgoing_key_cases:
  assumes "get_or_generate_outgoing_key cr now c m = (Inr sk, m')"
  obtains (reuse) s where "get_outgoing_session c (m_keyring m) = Inr (Some s)"
      "\<not> o_pending_rotation s" "sk = o_sk s" "m' = m"
    | (fresh) k where "sk = m_rng m (m_draws m) 32"
      "set_outgoing_session c sk now (m_keyring m) = Inr k" "\<not> rotating c (m_keyring m)"
      "m' = m\<lparr>m_draws := m_draws m + 1, m_keyring := k\<rparr>"
    | (rotated) k rcpts where "sk = m_rng m (m_draws m) 32"
      "set_outgoing_session c sk now (m_keyring m) = Inr k" "rotating c (m_keyring m)"
      "list_outgoing_recipients c k = Inr rcpts"
      "distribute_rekey cr c sk rcpts (m\<lparr>m_draws := m_draws m + 1, m_keyring := k\<rparr>) = (Inr (), m')"
proof -
  obtain x where x: "get_outgoing_session c (m_keyring m) = Inr x"
    using assms by (auto simp: get_or_generate_outgoing_key_def split: sum.splits)
  show thesis
  proof (cases "\<exists>s. x = Some s \<and> \<not> o_pending_rotation s")
    case True
    then obtain s where "x = Some s" "\<not> o_pending_rotation s" by blast
    with x assms show thesis by (intro reuse [of s]) (auto simp: get_or_generate_outgoing_key_def)
  next
    case False
    let ?sk = "m_rng m (m_draws m) 32"
    from False have nb: "\<not> (case x of None \<Rightarrow> False | Some s \<Rightarrow> \<not> o_pending_rotation s)"
      by (auto split: option.splits)
    obtain k where k: "set_outgoing_session c ?sk now (m_keyring m) = Inr k"
      using assms x nb by (auto simp: get_or_generate_outgoing_key_def split: sum.splits)
    let ?m = "m\<lparr>m_draws := m_draws m + 1, m_keyring := k\<rparr>"
    have run: "chain (if case x of None \<Rightarrow> False | Some s \<Rightarrow> o_pending_rotation s
        then chain (kr_get (list_outgoing_recipients c)) (distribute_rekey cr c ?sk) else ret ())
        (\<lambda>_. ret ?sk) ?m = (Inr sk, m')"
      using assms x nb k by (simp add: get_or_generate_outgoing_key_def del: One_nat_def)
    show thesis
    proof (cases "case x of None \<Rightarrow> False | Some s \<Rightarrow> o_pending_rotation s")
      case True
      then obtain s where s: "x = Some s" "o_pending_rotation s" by (cases x) auto
      from run True have "chain (chain (kr_get (list_outgoing_recipients c)) (distribute_rekey cr c ?sk))
          (\<lambda>_. ret ?sk) ?m = (Inr sk, m')" by (simp only: if_True)
      then obtain u m1 where u: "chain (kr_get (list_outgoing_recipients c)) (distribute_rekey cr c ?sk) ?m
          = (Inr u, m1)" "ret ?sk m1 = (Inr sk, m')" by (rule chain_okE)
      from u(1) obtain rcpts m2 where r: "kr_get (list_outgoing_recipients c) ?m = (Inr rcpts, m2)"
        "distribute_rekey cr c ?sk rcpts m2 = (Inr u, m1)" by (rule chain_okE)
      show thesis
      proof (rule rotated [of k rcpts])
        show "sk = ?sk" using u(2) by simp
        with k show "set_outgoing_session c sk now (m_keyring m) = Inr k" by simp
        show "rotating c (m_keyring m)" using x s by blast
        show "list_outgoing_recipients c k = Inr rcpts" using r(1) by simp
        show "distribute_rekey cr c sk rcpts ?m = (Inr (), m')" using r u(2) by simp
      qed
    next
      case False
      then have "\<not> rotating c (m_keyring m)" using x by auto
      moreover from run False have "chain (ret ()) (\<lambda>_. ret ?sk) ?m = (Inr sk, m')"
        by (simp only: if_False)
      ultimately show thesis using k by (intro fresh [of k]) simp_all
    qed
  qed
qed

lemma distribute_keyring:
  "distribute_rekey cr c sk rs m = (r, m') \<Longrightarrow> m_keyring m' = m_keyring m \<and> m_rng m' = m_rng m"
  using keepsD [of "\<lambda>x. m_keyring x = m_keyring m \<and> m_rng x = m_rng m" "distribute_rekey cr c sk rs" m r m']
    keeps_distribute [of "\<lambda>x. m_keyring x = m_keyring m \<and> m_rng x = m_rng m" cr c sk rs] by simp

lemma outgoing_key_stored:
  assumes "box_ok (m_keyring m)" "rng_ok m" "get_or_generate_outgoing_key cr now c m = (Inr sk, m')"
  shows "m_rng m' = m_rng m \<and> (\<exists>s. get_outgoing_session c (m_keyring m') = Inr (Some s)
    \<and> o_sk s = sk \<and> \<not> o_pending_rotation s \<and> length sk = 32)"
  using assms(3)
proof (cases rule: outgoing_key_cases)
  case (reuse s)
  then show ?thesis using get_outgoing_length by auto
next
  case (fresh k)
  then show ?thesis using set_outgoing_Inr [OF assms(1), of sk c now k] assms(2) by (simp add: rng_ok_def)
next
  case (rotated k rcpts)
  then show ?thesis
    using set_outgoing_Inr [OF assms(1), of sk c now k] assms(2) distribute_keyring [OF rotated(5)]
    by (simp add: rng_ok_def)
qed

section \<open>A message reaches the receiver\<close>

definition seals :: "'x crypto_scheme \<Rightarrow> bytes \<Rightarrow> bytes \<Rightarrow> bytes \<Rightarrow> int \<Rightarrow> nat \<Rightarrow> nat \<Rightarrow> bytes \<Rightarrow> bytes \<Rightarrow> bool" where
  "seals cr sk wire mid t tot i plain line \<longleftrightarrow>
     (\<exists>n ct. length n = 24 \<and> aead_seal cr sk n (build_aad wire mid t i tot) plain = Some ct \<and>
        encode cr \<lparr>w_msgid = mid, w_ts = t, w_part = i, w_total = tot, w_nonce = n, w_ciphertext = ct\<rparr>
          = Inr line)"

lemma encrypt_chunks_seals:
  assumes "rng_ok m" "encrypt_chunks cr sk wire mid t tot idx chunks m = (Inr out, m')"
  shows "m_keyring m' = m_keyring m \<and> length out = length chunks \<and>
    (\<forall>i<length chunks. seals cr sk wire mid t tot (idx + i + 1) (chunks ! i) (out ! i))"
  using assms
proof (induction chunks arbitrary: idx m out)
  case (Cons plain rest)
  let ?n = "m_rng m (m_draws m) 24" and ?m = "m\<lparr>m_draws := m_draws m + 1\<rparr>"
  let ?aad = "build_aad wire mid t (idx + 1) tot"
  from Cons.prems(2) obtain ct where ct: "aead_seal cr sk ?n ?aad plain = Some ct"
    by (auto simp: aead_encrypt_def split: option.splits)
  let ?w = "\<lparr>w_msgid = mid, w_ts = t, w_part = idx + 1, w_total = tot, w_nonce = ?n, w_ciphertext = ct\<rparr>"
  from Cons.prems(2) ct obtain line where line: "encode cr ?w = Inr line"
    by (auto simp: aead_encrypt_def split: sum.splits)
  have run: "chain (encrypt_chunks cr sk wire mid t tot (idx + 1) rest) (\<lambda>lines. ret (line # lines)) ?m
      = (Inr out, m')"
    using Cons.prems(2) ct line by (simp add: aead_encrypt_def)
  from run obtain lines m1 where "encrypt_chunks cr sk wire mid t tot (idx + 1) rest ?m = (Inr lines, m1)"
    "ret (line # lines) m1 = (Inr out, m')" by (rule chain_okE)
  then have r: "encrypt_chunks cr sk wire mid t tot (idx + 1) rest ?m = (Inr lines, m')" "out = line # lines"
    by auto
  have rng: "rng_ok ?m" "length ?n = 24" using Cons.prems(1) by (simp_all add: rng_ok_def)
  note IH = Cons.IH [OF rng(1) r(1)]
  have "seals cr sk wire mid t tot (idx + 1) plain line"
    unfolding seals_def using rng(2) ct line by blast
  moreover have "seals cr sk wire mid t tot (idx + i + 1) ((plain # rest) ! i) (out ! i)"
    if "0 < i" "i < length (plain # rest)" for i
    using that IH r(2) by (cases i) auto
  ultimately have "\<forall>i<length (plain # rest). seals cr sk wire mid t tot (idx + i + 1) ((plain # rest) ! i) (out ! i)"
    using r(2) by (auto simp: nth_Cons')
  with IH r(2) show ?case by simp
qed simp

lemma seals_opens:
  assumes "hex_ok cr" "b64_ok cr" "aead_ok cr" "in_i64 t" "length mid = 8" "tot \<le> MAX_CHUNKS"
    "1 \<le> i" "i \<le> tot" "seals cr sk (wire_context c) mid t tot i plain line" "wire_context c' = wire_context c"
  shows "\<exists>w. parse cr line = Inr (Some w) \<and> w_ts w = t \<and> opens cr sk c' w plain"
proof -
  from assms(9) obtain n ct where n: "length n = 24"
    "aead_seal cr sk n (build_aad (wire_context c) mid t i tot) plain = Some ct"
    and e: "encode cr \<lparr>w_msgid = mid, w_ts = t, w_part = i, w_total = tot, w_nonce = n, w_ciphertext = ct\<rparr> = Inr line"
    unfolding seals_def by blast
  let ?w = "\<lparr>w_msgid = mid, w_ts = t, w_part = i, w_total = tot, w_nonce = n, w_ciphertext = ct\<rparr>"
  have "chunk_wf ?w" using assms n by (simp add: chunk_wf_def)
  with parse_encode [OF assms(1,2)] e have "parse cr line = Inr (Some ?w)" by fastforce
  moreover have "opens cr sk c' ?w plain"
    using assms(3,10) n(2) by (simp add: opens_def aead_ok_def chunk_aad_def)
  ultimately show ?thesis by auto
qed

lemma decrypt_opened:
  assumes "parse cr line = Inr (Some w)" "get_incoming_session h c (m_keyring b) = Inr (Some s)"
    "i_status s = Trusted" "opens cr (i_sk s) c w plain" "ts_skew now (w_ts w) \<le> m_ts_tolerance_secs b"
    "utf8_valid plain"
  shows "decrypt_incoming cr now h c line b = Inr (Plaintext plain)"
  using assms
  by (simp add: decrypt_incoming_def decrypt_chunk_def opens_def aead_decrypt_def utf8_or_reject_def)

lemma encrypt_outgoing_seals:
  assumes "box_ok (m_keyring a)" "rng_ok a" "encrypt_outgoing cr now c pt a = (Inr out, a')"
  obtains sk chunks mid s where "split_plaintext pt = Inr chunks" "length mid = 8"
    "get_outgoing_session c (m_keyring a') = Inr (Some s)" "length out = length chunks"
    "\<forall>i<length chunks. seals cr (o_sk s) (wire_context c) mid now (length chunks) (i + 1) (chunks ! i) (out ! i)"
proof -
  from assms(3) obtain sk m1 where k: "get_or_generate_outgoing_key cr now c a = (Inr sk, m1)"
    and run: "chain (lift (split_plaintext pt)) (\<lambda>chunks.
       if length chunks > 255 then fail (ChunkLimit 255)
       else if length chunks = 0 then fail (WireErr ''chunker produced zero chunks'')
       else chain (draw 8) (\<lambda>mid. encrypt_chunks cr sk (wire_context c) mid now (length chunks) 0 chunks)) m1
       = (Inr out, a')"
    unfolding encrypt_outgoing_def by (rule chain_okE)
  from run obtain chunks where ch: "split_plaintext pt = Inr chunks" by (auto split: sum.splits)
  with run have e: "encrypt_chunks cr sk (wire_context c) (m_rng m1 (m_draws m1) 8) now (length chunks) 0 chunks
      (m1\<lparr>m_draws := m_draws m1 + 1\<rparr>) = (Inr out, a')"
    by (simp split: if_splits)
  from outgoing_key_stored [OF assms(1,2) k] obtain s where
    s: "get_outgoing_session c (m_keyring m1) = Inr (Some s)" "o_sk s = sk" and r: "m_rng m1 = m_rng a"
    by blast
  then have "rng_ok (m1\<lparr>m_draws := m_draws m1 + 1\<rparr>)" "length (m_rng m1 (m_draws m1) 8) = 8"
    using assms(2) by (simp_all add: rng_ok_def)
  from encrypt_chunks_seals [OF this(1) e] this(2) s that [OF ch] show thesis by simp
qed

text \<open>C2: A message reaches whoever holds the key: when Alice encrypts a valid message for a context,
  and Bob has, for Alice's handle in a context with the same wire name, a trusted session under the
  outgoing key Alice stores (his clock within the tolerance of hers), then the lines she sends,
  decrypted in order, are plaintext pieces that concatenate to exactly the message.\<close>

theorem encrypt_then_decrypt:
  assumes "hex_ok cr" "b64_ok cr" "aead_ok cr" "box_ok (m_keyring a)" "rng_ok a" "in_i64 now" "utf8_valid pt"
    "encrypt_outgoing cr now c pt a = (Inr out, a')"
    "get_outgoing_session c (m_keyring a') = Inr (Some own)"
    "get_incoming_session h c' (m_keyring b) = Inr (Some s)" "i_status s = Trusted" "i_sk s = o_sk own"
    "wire_context c' = wire_context c" "ts_skew now' now \<le> m_ts_tolerance_secs b"
  shows "\<exists>pieces. concat pieces = pt \<and> out \<noteq> [] \<and>
    map (\<lambda>line. decrypt_incoming cr now' h c' line b) out = map (\<lambda>p. Inr (Plaintext p)) pieces"
proof -
  obtain chunks mid s' where s': "get_outgoing_session c (m_keyring a') = Inr (Some s')"
    and ch: "split_plaintext pt = Inr chunks" "length mid = 8" "length out = length chunks"
    and all: "\<forall>i<length chunks.
      seals cr (o_sk s') (wire_context c) mid now (length chunks) (i + 1) (chunks ! i) (out ! i)"
    by (rule encrypt_outgoing_seals [OF assms(4,5,8)])
  from s' assms(9) have "s' = own" by simp
  with all have sl: "seals cr (o_sk own) (wire_context c) mid now (length chunks) (i + 1) (chunks ! i) (out ! i)"
    if "i < length chunks" for i using that by blast
  from split_plaintext_budget_ok [of pt MAX_PLAINTEXT_PER_CHUNK chunks] ch(1)
  have ok: "concat chunks = pt" "length chunks \<le> MAX_CHUNKS" "pt \<noteq> []" "\<forall>x\<in>set chunks. utf8_valid x"
    using assms(7) by (auto simp: split_plaintext_def chunks_ok_def)
  have "decrypt_incoming cr now' h c' (out ! i) b = Inr (Plaintext (chunks ! i))" if i: "i < length chunks" for i
  proof -
    from seals_opens [OF assms(1-3,6) ch(2) ok(2) _ _ sl [OF i] assms(13)] i
    obtain w where w: "parse cr (out ! i) = Inr (Some w)" "w_ts w = now" "opens cr (o_sk own) c' w (chunks ! i)"
      by auto
    show ?thesis
      using decrypt_opened [OF w(1) assms(10,11)] w assms(12,14) ok(4) i by simp
  qed
  then have "map (\<lambda>line. decrypt_incoming cr now' h c' line b) out = map (\<lambda>p. Inr (Plaintext p)) chunks"
    using ch(3) by (intro nth_equalityI) simp_all
  with ok ch(3) show ?thesis by (intro exI [of _ chunks]) auto
qed

lemma encrypt_chunks_total:
  assumes "aead_ok cr" "tot \<le> MAX_CHUNKS" "idx + length chunks \<le> tot"
  shows "\<exists>out m'. encrypt_chunks cr sk wire mid t tot idx chunks m = (Inr out, m')"
  using assms(3)
proof (induction chunks arbitrary: idx m)
  case (Cons plain rest)
  let ?n = "m_rng m (m_draws m) 24" and ?m = "m\<lparr>m_draws := m_draws m + 1\<rparr>"
  obtain ct where ct: "aead_seal cr sk ?n (build_aad wire mid t (idx + 1) tot) plain = Some ct"
    using assms(1) unfolding aead_ok_def by blast
  let ?w = "\<lparr>w_msgid = mid, w_ts = t, w_part = idx + 1, w_total = tot, w_nonce = ?n, w_ciphertext = ct\<rparr>"
  have "\<not> (w_total ?w = 0 \<or> w_total ?w > MAX_CHUNKS)" "\<not> (w_part ?w = 0 \<or> w_part ?w > w_total ?w)"
    using assms(2) Cons.prems by auto
  then obtain line where "encode cr ?w = Inr line"
    unfolding encode_def by (simp del: wire_chunk.simps)
  moreover from Cons.prems have "idx + 1 + length rest \<le> tot" by simp
  with Cons.IH obtain lines m1 where "encrypt_chunks cr sk wire mid t tot (idx + 1) rest ?m = (Inr lines, m1)"
    by blast
  ultimately show ?case using ct by (simp add: aead_encrypt_def chain_def)
qed simp

lemma outgoing_key_reuse:
  "get_outgoing_session c (m_keyring a) = Inr (Some s) \<Longrightarrow> \<not> o_pending_rotation s \<Longrightarrow>
     get_or_generate_outgoing_key cr now c a = (Inr (o_sk s), a)"
  by (simp add: get_or_generate_outgoing_key_def)

lemma encrypt_outgoing_runs:
  assumes "aead_ok cr" "get_outgoing_session c (m_keyring a) = Inr (Some s)" "\<not> o_pending_rotation s"
    "split_plaintext pt = Inr chunks" "rng_ok a"
  shows "\<exists>out a'. encrypt_outgoing cr now c pt a = (Inr out, a') \<and> length out = length chunks
    \<and> m_keyring a' = m_keyring a"
proof -
  have len: "length chunks \<le> MAX_CHUNKS" "chunks \<noteq> []"
    using split_plaintext_budget_ok [of pt MAX_PLAINTEXT_PER_CHUNK chunks] assms(4)
    by (auto simp: split_plaintext_def chunks_ok_def)
  let ?m = "a\<lparr>m_draws := m_draws a + 1\<rparr>" and ?mid = "m_rng a (m_draws a) 8"
  from encrypt_chunks_total [OF assms(1) len(1)] obtain out a' where
    e: "encrypt_chunks cr (o_sk s) (wire_context c) ?mid now (length chunks) 0 chunks ?m = (Inr out, a')"
    by fastforce
  have "encrypt_outgoing cr now c pt a = (Inr out, a')"
    unfolding encrypt_outgoing_def
      chain_Inr [of "get_or_generate_outgoing_key cr now c" a, OF outgoing_key_reuse [OF assms(2,3)]]
    using assms(4) len e by (simp add: MAX_CHUNKS_def)
  moreover have "rng_ok ?m" using assms(5) by (simp add: rng_ok_def)
  ultimately show ?thesis using encrypt_chunks_seals [OF _ e] by auto
qed

text \<open>Encryption does not fail on a message that fits: with a stored, unflagged outgoing session and
  a message the chunker accepts (every non-empty string of up to 2832 bytes), \<open>encrypt_outgoing\<close>
  returns one line per chunk and changes no stored key.\<close>

theorem encrypt_outgoing_succeeds:
  assumes "aead_ok cr" "get_outgoing_session c (m_keyring a) = Inr (Some s)" "\<not> o_pending_rotation s"
    "split_plaintext pt = Inr chunks" "rng_ok a"
  shows "\<exists>out a'. encrypt_outgoing cr now c pt a = (Inr out, a') \<and> length out = length chunks
    \<and> m_keyring a' = m_keyring a"
  by (rule encrypt_outgoing_runs [OF assms])

definition alice :: manager where
  "alice = with_identity
     (keyring_new\<lparr>k_outgoing := [\<lparr>or_channel = ''#x'', or_sk = i_sk sess_alice, or_created_at = 1,
        or_pending_rotation = 0\<rparr>]\<rparr>) (replicate 32 (CHR ''s'')) 300 (\<lambda>i n. replicate n (byte_of i))"

definition bob :: manager where
  "bob = with_identity ring_alice (replicate 32 (CHR ''b'')) 300 (\<lambda>i n. replicate n (byte_of i))"

lemma alice_facts:
  "rng_ok alice" "box_ok (m_keyring alice)"
  "get_outgoing_session ''#x'' (m_keyring alice) = Inr (Some \<lparr>o_channel = ''#x'',
     o_sk = i_sk sess_alice, o_created_at = 1, o_pending_rotation = False\<rparr>)"
  "split_plaintext ''hi'' = Inr [''hi'']"
proof -
  show "rng_ok alice" by (simp add: rng_ok_def alice_def with_identity_def)
  show "box_ok (m_keyring alice)"
    by (simp add: box_ok_def alice_def with_identity_def keyring_new_def)
  show "get_outgoing_session ''#x'' (m_keyring alice) = Inr (Some \<lparr>o_channel = ''#x'',
     o_sk = i_sk sess_alice, o_created_at = 1, o_pending_rotation = False\<rparr>)"
    by (simp add: alice_def with_identity_def get_outgoing_session_def with_fallback_def
        get_outgoing_session_exact_def select_key_def outgoing_of_row_def decode_secret_def
        keyring_new_def sess_alice_def)
  show "split_plaintext ''hi'' = Inr [''hi'']" by code_simp
qed

lemma bob_session: "get_incoming_session ''~a@h'' ''#x'' (m_keyring bob) = Inr (Some sess_alice)"
  using ring_alice_session by (simp add: bob_def with_identity_def)

lemma hi_valid: "utf8_valid ''hi''" by (rule utf8_valid_ascii) simp

lemma sealed_run:
  "\<exists>out a'. encrypt_outgoing demo 9 ''#x'' ''hi'' alice = (Inr out, a') \<and> m_keyring a' = m_keyring alice"
  using encrypt_outgoing_runs [OF demo_crypto(3) alice_facts(3) _ alice_facts(4,1), of 9] by auto

theorem encrypt_outgoing_succeeds_witness:
  "\<exists>out a'. encrypt_outgoing demo 9 ''#x'' ''hi'' alice = (Inr out, a') \<and> length out = length [''hi'']
    \<and> m_keyring a' = m_keyring alice"
  by (rule encrypt_outgoing_succeeds [OF _ alice_facts(3) _ alice_facts(4,1)]) simp_all

theorem encrypt_then_decrypt_witness:
  "\<exists>out a' pieces. encrypt_outgoing demo 9 ''#x'' ''hi'' alice = (Inr out, a') \<and> out \<noteq> []
    \<and> concat pieces = ''hi'' \<and>
    map (\<lambda>line. decrypt_incoming demo 12 ''~a@h'' ''#x'' line bob) out = map (\<lambda>p. Inr (Plaintext p)) pieces"
proof -
  obtain out a' where e: "encrypt_outgoing demo 9 ''#x'' ''hi'' alice = (Inr out, a')"
    and k: "m_keyring a' = m_keyring alice" using sealed_run by blast
  have 1: "get_outgoing_session ''#x'' (m_keyring a') = Inr (Some \<lparr>o_channel = ''#x'',
     o_sk = i_sk sess_alice, o_created_at = 1, o_pending_rotation = False\<rparr>)"
    using alice_facts(3) k by simp
  have 3: "in_i64 9" "i_status sess_alice = Trusted" "ts_skew 12 9 \<le> m_ts_tolerance_secs bob"
    by (simp_all add: in_i64_def sess_alice_def ts_skew_def i64_abs_def i64_wrap_def
        bob_def with_identity_def)
  show ?thesis
    using encrypt_then_decrypt [OF demo_codecs(1,2) demo_crypto(3) alice_facts(2,1) 3(1) hi_valid e 1 bob_session 3(2) _ refl 3(3)] e
    by auto
qed

section \<open>What is accepted\<close>

text \<open>C3: What the user is shown as decrypted was authenticated: when \<open>decrypt_incoming\<close> returns
  plaintext for a line with the protocol's prefix, then a trusted session is stored for exactly
  the sender's handle and the context, the timestamp is inside the tolerance, and the ciphertext
  opened under that session's key, or under the key it superseded at most 300 seconds ago, with
  the additional data of this channel, message id, timestamp, part and total.\<close>

theorem decrypt_authentic:
  assumes "decrypt_incoming cr now h c line m = Inr (Plaintext pt)" "line = WIRE_PREFIX @ rest"
  shows "\<exists>w sess. parse cr line = Inr (Some w) \<and> ts_skew now (w_ts w) \<le> m_ts_tolerance_secs m
    \<and> get_incoming_session h c (m_keyring m) = Inr (Some sess) \<and> i_status sess = Trusted
    \<and> (opens cr (i_sk sess) c w pt \<or>
       (\<exists>prev at. get_incoming_prev_key h c (m_keyring m) = Inr (Some (prev, at)) \<and>
          now - at \<le> 300 \<and> opens cr prev c w pt))"
proof -
  have "parse cr line \<noteq> Inr None"
    using assms(2) by (auto simp: parse_def rbind_Inr split: if_splits prod.splits)
  with assms(1) obtain w where w: "parse cr line = Inr (Some w)"
    "decrypt_chunk cr now (m_ts_tolerance_secs m) h c w (m_keyring m) = Inr (Plaintext pt)"
    by (auto simp: decrypt_incoming_def rbind_Inr split: option.splits)
  from decrypt_chunk_Plaintext [OF w(2)] w(1) show ?thesis
    by (auto simp: REKEY_PREV_KEY_GRACE_SECS_def)
qed

lemma sealed_line:
  "\<exists>line w. parse demo line = Inr (Some w) \<and> (\<exists>rest. line = WIRE_PREFIX @ rest) \<and> w_ts w = 9
     \<and> opens demo (i_sk sess_alice) ''#x'' w ''hi''"
proof -
  let ?mid = "replicate 8 (CHR ''m'')" and ?n = "replicate 24 (CHR ''n'')"
  obtain ct where ct: "aead_seal demo (i_sk sess_alice) ?n (build_aad (wire_context ''#x'') ?mid 9 1 1) ''hi'' = Some ct"
    using demo_crypto(3) unfolding aead_ok_def by blast
  let ?w = "\<lparr>w_msgid = ?mid, w_ts = 9, w_part = 1, w_total = 1, w_nonce = ?n, w_ciphertext = ct\<rparr>"
  have "chunk_wf ?w" by (simp add: chunk_wf_def in_i64_def MAX_CHUNKS_def)
  from parse_encode [OF demo_codecs(1,2) this] obtain line where l: "parse demo line = Inr (Some ?w)" by blast
  have "opens demo (i_sk sess_alice) ''#x'' ?w ''hi''"
    using demo_crypto(3) ct unfolding opens_def aead_ok_def chunk_aad_def by simp
  with l parse_wf [OF demo_codecs(1) l] show ?thesis
    by (intro exI [of _ line] exI [of _ ?w]) simp
qed

theorem decrypt_authentic_witness:
  "\<exists>line w. decrypt_incoming demo 12 ''~a@h'' ''#x'' line bob = Inr (Plaintext ''hi'')
    \<and> parse demo line = Inr (Some w) \<and> ts_skew 12 (w_ts w) \<le> 300"
proof -
  obtain line w rest where l: "parse demo line = Inr (Some w)" "line = WIRE_PREFIX @ rest" "w_ts w = 9"
    "opens demo (i_sk sess_alice) ''#x'' w ''hi''" using sealed_line by blast
  have "ts_skew 12 (w_ts w) \<le> m_ts_tolerance_secs bob"
    using l(3) by (simp add: ts_skew_def i64_abs_def i64_wrap_def bob_def with_identity_def)
  from decrypt_opened [OF l(1) bob_session _ l(4) this hi_valid]
  have d: "decrypt_incoming demo 12 ''~a@h'' ''#x'' line bob = Inr (Plaintext ''hi'')"
    by (simp add: sess_alice_def)
  from decrypt_authentic [OF d l(2)] d show ?thesis by (auto simp: bob_def with_identity_def)
qed

text \<open>A session that is not trusted decrypts nothing: pending and revoked sessions reject every
  chunk, and a sender without a session is reported as a missing key, whatever the ciphertext.\<close>

theorem untrusted_session_rejects:
  assumes "parse cr line = Inr (Some w)" "get_incoming_session h c (m_keyring m) = Inr found"
    "\<forall>sess. found = Some sess \<longrightarrow> i_status sess \<noteq> Trusted"
    "decrypt_incoming cr now h c line m = Inr out"
  shows "(\<exists>why. out = Rejected why) \<or> (out = MissingKey h c \<and> found = None)"
  using assms by (auto simp: decrypt_incoming_def decrypt_chunk_def split: if_splits option.splits)

definition ring_revoked :: keyring where
  "ring_revoked = keyring_new\<lparr>k_incoming :=
     [incoming_to_row (sess_alice\<lparr>i_status := Revoked\<rparr>) (i_sk sess_alice) None]\<rparr>"

theorem untrusted_session_rejects_witness:
  "\<exists>line out. decrypt_incoming demo 12 ''~a@h'' ''#x'' line (bob\<lparr>m_keyring := ring_revoked\<rparr>) = Inr out
    \<and> (\<exists>why. out = Rejected why)"
proof -
  obtain line w where l: "parse demo line = Inr (Some w)" "w_ts w = 9" using sealed_line by blast
  let ?b = "bob\<lparr>m_keyring := ring_revoked\<rparr>" and ?s = "sess_alice\<lparr>i_status := Revoked\<rparr>"
  have s: "get_incoming_session ''~a@h'' ''#x'' (m_keyring ?b) = Inr (Some ?s)"
    by (simp add: get_incoming_session_existing existing_incoming_def select_key_def ring_revoked_def
      keyring_new_def incoming_to_row_def sess_alice_def incoming_of_row_def decode_secret_def
      status_parse_def)
  have "\<not> m_ts_tolerance_secs bob < ts_skew 12 9"
    by (simp add: ts_skew_def i64_abs_def i64_wrap_def bob_def with_identity_def)
  with s obtain out where "decrypt_incoming demo 12 ''~a@h'' ''#x'' line ?b = Inr out"
    using l by (auto simp: decrypt_incoming_def decrypt_chunk_def)
  with untrusted_session_rejects [OF l(1) s _ this] show ?thesis by auto
qed

text \<open>C14: The replay window, exactly: for a clock reading and a tolerance whose sum is an \<open>i64\<close>, a
  timestamp passes when it differs from the clock by at most the tolerance, and for one further
  value, \<open>now - 2^63\<close>, where the subtraction overflows and \<open>abs\<close> leaves the negative result.\<close>

theorem ts_window_exact:
  assumes "0 \<le> now" "0 \<le> tol" "now + tol < 2 ^ 63" "in_i64 t"
  shows "ts_skew now t \<le> tol \<longleftrightarrow> \<bar>now - t\<bar> \<le> tol \<or> t = now - 2 ^ 63"
proof (cases "now - t < 2 ^ 63")
  case True
  then have "in_i64 (now - t)" "in_i64 \<bar>now - t\<bar>" using assms by (auto simp: in_i64_def)
  then have "ts_skew now t = \<bar>now - t\<bar>" by (simp add: ts_skew_def i64_abs_def i64_wrap_id)
  with True show ?thesis by auto
next
  case False
  then have w: "i64_wrap (now - t) = now - t - 2 ^ 64"
    using assms by (intro i64_wrap_over) (auto simp: in_i64_def)
  show ?thesis
  proof (cases "now - t = 2 ^ 63")
    case True
    with w have "ts_skew now t = - (2 ^ 63)" by (simp add: ts_skew_def i64_abs_def i64_wrap_over)
    with True assms show ?thesis by auto
  next
    case False
    with w \<open>\<not> now - t < 2 ^ 63\<close> assms have "i64_abs (i64_wrap (now - t)) = 2 ^ 64 - (now - t)"
      unfolding i64_abs_def w by (subst i64_wrap_id) (auto simp: in_i64_def)
    with False \<open>\<not> now - t < 2 ^ 63\<close> assms show ?thesis by (auto simp: ts_skew_def in_i64_def)
  qed
qed

theorem ts_window_exact_witness:
  "ts_skew 1700000000 (1700000000 - 2 ^ 63) \<le> 300 \<and> \<not> ts_skew 1700000000 1699999000 \<le> 300"
  using ts_window_exact [of 1700000000 300 "1700000000 - 2 ^ 63"]
    ts_window_exact [of 1700000000 300 1699999000]
  by (simp add: in_i64_def)

section \<open>Rotation\<close>

lemma build_rekey_ok:
  assumes "aead_ok cr" "ed_pub_to_x cr (p_pubkey p) = Some x"
  shows "\<exists>rk. build_rekey_for_peer cr c p sk m = (Inr rk, m\<lparr>m_draws := m_draws m + 3\<rparr>)"
  using assms
  by (simp add: build_rekey_for_peer_def Let_def ed25519_pub_to_x25519_def ok_or_def aead_encrypt_ok)

lemma rekey_built:
  assumes "aead_ok cr" "build_rekey_for_peer cr c p sk m = (Inr rk, m')"
  obtains e x where "ed_pub_to_x cr (p_pubkey p) = Some x" "rk_channel rk = wire_context c"
    "rk_pubkey rk = public_bytes cr (m_identity m)" "rk_eph_pub rk = x_public cr e"
    "aead_decrypt cr (hkdf cr ''RPE2E01-WRAP'' (x_dh cr e x) (rekey_info (wire_context c)))
       (rk_wrap_nonce rk) (rekey_info (wire_context c)) (rk_wrap_ct rk) = Inr sk"
    "rk_sig rk = sig_sign cr (m_identity m) (sig_payload_keyrekey (wire_context c) (rk_pubkey rk)
       (rk_eph_pub rk) (rk_wrap_nonce rk) (rk_wrap_ct rk) (rk_nonce rk))"
proof -
  let ?e = "m_rng m (m_draws m) 32"
  from assms(2) obtain x where x: "ed_pub_to_x cr (p_pubkey p) = Some x"
    by (cases "ed_pub_to_x cr (p_pubkey p)")
      (simp_all add: build_rekey_for_peer_def ed25519_pub_to_x25519_def ok_or_def)
  show thesis
    using assms(2) x
    by (intro that [of x ?e])
      (auto simp: build_rekey_for_peer_def ed25519_pub_to_x25519_def ok_or_def Let_def
        aead_encrypt_ok [OF assms(1)] aead_roundtrip [OF assms(1)])
qed

text \<open>A notice that carries a REKEY for context \<open>c\<close>, signed by the identity \<open>seed\<close>, in which \<open>sk\<close> is wrapped
  for the holder of the identity key \<open>pub\<close>.\<close>

definition rekey_notice :: "'x crypto_scheme \<Rightarrow> bytes \<Rightarrow> bytes \<Rightarrow> bytes \<Rightarrow> bytes \<Rightarrow> bytes \<Rightarrow> bool" where
  "rekey_notice cr seed c sk pub txt \<longleftrightarrow> (\<exists>rk e x.
     txt = [CHR 0x01] @ encode_keyrekey cr rk @ [CHR 0x01]
     \<and> ed_pub_to_x cr pub = Some x \<and> rk_channel rk = wire_context c \<and> rk_pubkey rk = public_bytes cr seed
     \<and> rk_eph_pub rk = x_public cr e
     \<and> aead_decrypt cr (hkdf cr ''RPE2E01-WRAP'' (x_dh cr e x) (rekey_info (wire_context c)))
          (rk_wrap_nonce rk) (rekey_info (wire_context c)) (rk_wrap_ct rk) = Inr sk
     \<and> rk_sig rk = sig_sign cr seed (sig_payload_keyrekey (wire_context c) (rk_pubkey rk)
          (rk_eph_pub rk) (rk_wrap_nonce rk) (rk_wrap_ct rk) (rk_nonce rk)))"

definition rekey_send_for :: "'x crypto_scheme \<Rightarrow> bytes \<Rightarrow> bytes \<Rightarrow> bytes \<Rightarrow> keyring \<Rightarrow> bytes \<times> bytes \<Rightarrow> pending_rekey_send \<Rightarrow> bool" where
  "rekey_send_for cr seed c sk k r s \<longleftrightarrow> rs_target_handle s = fst r
     \<and> (\<exists>p. peer_at (snd r) k = Some p \<and> rekey_notice cr seed c sk (p_pubkey p) (rs_notice_text s))"

lemma push_rekey_sends:
  assumes "aead_ok cr" "ed_pub_to_x cr (p_pubkey p) \<noteq> None"
  shows "\<exists>s. m_rekey_sends (snd (push_rekey cr c sk h p m)) = m_rekey_sends m @ [s] \<and> rs_target_handle s = h
    \<and> rekey_notice cr (m_identity m) c sk (p_pubkey p) (rs_notice_text s)"
proof -
  from assms obtain x where "ed_pub_to_x cr (p_pubkey p) = Some x" by blast
  from build_rekey_ok [OF assms(1) this] obtain rk where
    r: "build_rekey_for_peer cr c p sk m = (Inr rk, m\<lparr>m_draws := m_draws m + 3\<rparr>)" by blast
  have "rekey_notice cr (m_identity m) c sk (p_pubkey p) (encode_keyrekey_ctcp cr rk)"
    using rekey_built [OF assms(1) r] unfolding rekey_notice_def encode_keyrekey_ctcp_def by metis
  then show ?thesis
    unfolding push_rekey_def attempt_def chain_Inr [of "build_rekey_for_peer cr c p sk" m, OF r]
    by simp
qed

lemma push_rekey_identity: "m_identity (snd (push_rekey cr c sk h p m)) = m_identity m"
  using keeps_push_rekey [of "\<lambda>x. m_identity x = m_identity m" cr c sk h p]
  by (simp add: keeps_def after_def)

lemma push_rekey_fails:
  assumes "ed_pub_to_x cr (p_pubkey p) = None"
  shows "m_rekey_sends (snd (push_rekey cr c sk h p m)) = m_rekey_sends m"
  using assms
  by (simp add: push_rekey_def attempt_def build_rekey_for_peer_def ed25519_pub_to_x25519_def
      ok_or_def chain_def split: prod.split)

lemma push_rekey_keyring: "m_keyring (snd (push_rekey cr c sk h p m)) = m_keyring m"
  using keeps_push_rekey [of "\<lambda>x. m_keyring x = m_keyring m" cr c sk h p]
  by (simp add: keeps_def after_def)

lemma push_rekey_ok: "fst (push_rekey cr c sk h p m) = Inr ()"
  by (simp add: push_rekey_def attempt_def split: prod.split)

text \<open>A recipient gets the key when its identity is stored and is a point of the curve.\<close>

definition reachable_peer :: "'x crypto_scheme \<Rightarrow> keyring \<Rightarrow> bytes \<Rightarrow> bool" where
  "reachable_peer cr k fp \<longleftrightarrow>
     (case peer_at fp k of None \<Rightarrow> False | Some p \<Rightarrow> ed_pub_to_x cr (p_pubkey p) \<noteq> None)"

lemma distribute_sends:
  assumes "aead_ok cr" "distribute_rekey cr c sk rs m = (Inr (), m')"
  shows "\<exists>sends. m_rekey_sends m' = m_rekey_sends m @ sends
    \<and> list_all2 (rekey_send_for cr (m_identity m) c sk (m_keyring m))
        (filter (\<lambda>(h, fp). reachable_peer cr (m_keyring m) fp) rs) sends"
  using assms(2)
proof (induction rs arbitrary: m)
  case (Cons r rs)
  obtain h fp where r: "r = (h, fp)" by (cases r)
  from Cons.prems r obtain found where f: "get_peer_by_fingerprint fp (m_keyring m) = Inr found"
    by (auto split: sum.splits)
  note at = get_peer_by_fingerprint_Inr [OF f]
  show ?case
  proof (cases found)
    case None
    with Cons.prems r f have "distribute_rekey cr c sk rs m = (Inr (), m')" by simp
    from Cons.IH [OF this] None at r show ?thesis by (simp add: reachable_peer_def)
  next
    case (Some p)
    let ?m = "snd (push_rekey cr c sk h p m)"
    have "push_rekey cr c sk h p m = (Inr (), ?m)" by (metis push_rekey_ok prod.collapse)
    with Cons.prems r f Some have "distribute_rekey cr c sk rs ?m = (Inr (), m')"
      by (simp add: chain_Inr)
    note IH = Cons.IH [OF this, unfolded push_rekey_keyring push_rekey_identity]
    show ?thesis
    proof (cases "ed_pub_to_x cr (p_pubkey p) = None")
      case True
      with IH Some at r show ?thesis by (simp add: push_rekey_fails reachable_peer_def)
    next
      case False
      from push_rekey_sends [OF assms(1) False] obtain s where
        s: "m_rekey_sends ?m = m_rekey_sends m @ [s]" "rs_target_handle s = h"
        "rekey_notice cr (m_identity m) c sk (p_pubkey p) (rs_notice_text s)" by blast
      have "rekey_send_for cr (m_identity m) c sk (m_keyring m) (h, fp) s"
        using s(2,3) Some at by (simp add: rekey_send_for_def)
      with IH s(1) False Some at r show ?thesis by (auto simp: reachable_peer_def)
    qed
  qed
qed simp

text \<open>C10: Lazy rotation: when the stored session is flagged, the key that the next message is encrypted
  under is 32 fresh bytes, it replaces the stored one with the flag cleared, and the notices that are
  queued are, in order, one for each recipient still on the channel's list whose identity is known
  and valid and none for anyone else; each carries a REKEY signed by our identity in which exactly that
  fresh key is wrapped for that recipient's identity key.\<close>

theorem rotation_distributes:
  assumes "aead_ok cr" "box_ok (m_keyring m)" "rng_ok m"
    "get_outgoing_session c (m_keyring m) = Inr (Some s)" "o_pending_rotation s"
    "get_or_generate_outgoing_key cr now c m = (Inr sk, m')"
  shows "sk = m_rng m (m_draws m) 32
    \<and> get_outgoing_session c (m_keyring m') = Inr (Some
        \<lparr>o_channel = c, o_sk = sk, o_created_at = now, o_pending_rotation = False\<rparr>)
    \<and> (\<exists>rcpts sends. list_outgoing_recipients c (m_keyring m') = Inr rcpts
        \<and> m_rekey_sends m' = m_rekey_sends m @ sends
        \<and> list_all2 (\<lambda>(h, fp) s. rs_target_handle s = h
            \<and> (\<exists>p. peer_at fp (m_keyring m') = Some p
                \<and> rekey_notice cr (m_identity m) c sk (p_pubkey p) (rs_notice_text s)))
            (filter (\<lambda>(h, fp). reachable_peer cr (m_keyring m') fp) rcpts) sends)"
  using assms(6)
proof (cases rule: outgoing_key_cases)
  case (rotated k rcpts)
  note d = distribute_keyring [OF rotated(5)]
  have len: "length sk = 32" using rotated(1) assms(3) by (simp add: rng_ok_def)
  have f: "rekey_send_for cr seed c sk k' = (\<lambda>(h, fp) s. rs_target_handle s = h
      \<and> (\<exists>p. peer_at fp k' = Some p \<and> rekey_notice cr seed c sk (p_pubkey p) (rs_notice_text s)))" for seed k'
    by (intro ext) (simp add: rekey_send_for_def split: prod.split)
  from set_outgoing_Inr [OF assms(2) len rotated(2)] rotated(1,4) d
    distribute_sends [OF assms(1) rotated(5)]
  show ?thesis unfolding f [symmetric] by simp
qed (use assms(4,5) in auto)

definition peer_bob :: peer_record where
  "peer_bob = \<lparr>p_fingerprint = replicate 16 (CHR ''B''), p_pubkey = replicate 32 (CHR ''b''),
     p_last_handle = Some ''~b@h'', p_last_nick = None, p_first_seen = 1, p_last_seen = 1,
     p_global_status = Trusted\<rparr>"

definition alice_rotating :: manager where
  "alice_rotating = alice\<lparr>m_keyring := keyring_new\<lparr>
     k_outgoing := [\<lparr>or_channel = ''#x'', or_sk = i_sk sess_alice, or_created_at = 1,
        or_pending_rotation = 1\<rparr>],
     k_recipients := [\<lparr>rr_channel = ''#x'', rr_handle = ''~b@h'', rr_fingerprint = p_fingerprint peer_bob,
        rr_first_sent_at = 2\<rparr>],
     k_peers := [peer_to_row peer_bob]\<rparr>\<rparr>"

lemma alice_rotating_session:
  "get_outgoing_session ''#x'' (m_keyring alice_rotating) = Inr (Some \<lparr>o_channel = ''#x'',
     o_sk = i_sk sess_alice, o_created_at = 1, o_pending_rotation = True\<rparr>)"
  by (simp add: alice_rotating_def get_outgoing_session_def with_fallback_def sess_alice_def
      get_outgoing_session_exact_def select_key_def outgoing_of_row_def decode_secret_def keyring_new_def)

lemma alice_rotating_run:
  "\<exists>m'. get_or_generate_outgoing_key demo 9 ''#x'' alice_rotating = (Inr (replicate 32 (byte_of 0)), m')
    \<and> list_outgoing_recipients ''#x'' (m_keyring m') = Inr [(''~b@h'', p_fingerprint peer_bob)]
    \<and> peer_at (p_fingerprint peer_bob) (m_keyring m') = Some peer_bob"
proof -
  let ?sk = "replicate 32 (byte_of 0)"
  let ?k = "(m_keyring alice_rotating)\<lparr>k_outgoing := [\<lparr>or_channel = ''#x'', or_sk = ?sk,
     or_created_at = 9, or_pending_rotation = 0\<rparr>]\<rparr>"
  have 2: "set_outgoing_session ''#x'' ?sk 9 (m_keyring alice_rotating) = Inr ?k"
    by (simp add: alice_rotating_def set_outgoing_session_def encode_secret_def keyring_new_def
        insert_or_replace_def)
  have 3: "list_outgoing_recipients ''#x'' ?k = Inr [(''~b@h'', p_fingerprint peer_bob)]"
    by (simp add: alice_rotating_def list_outgoing_recipients_def list_outgoing_recipients_exact_def
        peer_bob_def legacy_fallback_def legacy_wire_fallback_def CONTEXT_NET_SEPARATOR_def)
  have 4: "get_peer_by_fingerprint (p_fingerprint peer_bob) ?k = Inr (Some peer_bob)"
    by (simp add: alice_rotating_def get_peer_by_fingerprint_def select_key_def peer_to_row_def
        peer_of_row_def peer_bob_def status_parse_def)
  have 5: "m_rng alice_rotating (m_draws alice_rotating) 32 = ?sk"
    by (simp add: alice_rotating_def alice_def with_identity_def)
  have 6: "push_rekey demo ''#x'' ?sk ''~b@h'' peer_bob m = (Inr (), snd (push_rekey demo ''#x'' ?sk ''~b@h'' peer_bob m))"
    for m by (metis push_rekey_ok prod.collapse)
  have 7: "chain (push_rekey demo ''#x'' ?sk ''~b@h'' peer_bob) g m
      = g () (snd (push_rekey demo ''#x'' ?sk ''~b@h'' peer_bob m))" for g m
    by (rule chain_Inr [of "push_rekey demo ''#x'' ?sk ''~b@h'' peer_bob" m, OF 6])
  have 8: "peer_at (p_fingerprint peer_bob) ?k = Some peer_bob" using get_peer_by_fingerprint_Inr [OF 4] by simp
  show ?thesis
    by (simp add: get_or_generate_outgoing_key_def alice_rotating_session 2 3 4 5 7 8 chain_assoc push_rekey_keyring)
qed

text \<open>One notice is queued, for Bob, and it wraps the 32 fresh bytes for his identity key.\<close>

theorem rotation_distributes_witness:
  "\<exists>sk m' s. get_or_generate_outgoing_key demo 9 ''#x'' alice_rotating = (Inr sk, m')
    \<and> sk = replicate 32 (byte_of 0) \<and> get_outgoing_session ''#x'' (m_keyring m') = Inr (Some
        \<lparr>o_channel = ''#x'', o_sk = sk, o_created_at = 9, o_pending_rotation = False\<rparr>)
    \<and> m_rekey_sends m' = [s] \<and> rs_target_handle s = ''~b@h''
    \<and> rekey_notice demo (m_identity alice_rotating) ''#x'' sk (p_pubkey peer_bob) (rs_notice_text s)"
proof -
  obtain m' where r: "get_or_generate_outgoing_key demo 9 ''#x'' alice_rotating
      = (Inr (replicate 32 (byte_of 0)), m')"
    and l: "list_outgoing_recipients ''#x'' (m_keyring m') = Inr [(''~b@h'', p_fingerprint peer_bob)]"
    and p: "peer_at (p_fingerprint peer_bob) (m_keyring m') = Some peer_bob" using alice_rotating_run by blast
  have "box_ok (m_keyring alice_rotating)" "rng_ok alice_rotating"
    by (simp_all add: box_ok_def rng_ok_def alice_rotating_def alice_def with_identity_def keyring_new_def)
  note t = rotation_distributes [OF demo_crypto(3) this alice_rotating_session _ r]
  have "reachable_peer demo (m_keyring m') (p_fingerprint peer_bob)" using p by (simp add: reachable_peer_def demo_def)
  moreover have "m_rekey_sends alice_rotating = []" by (simp add: alice_rotating_def alice_def with_identity_def)
  ultimately show ?thesis using t r l p by (auto simp: list_all2_Cons1)
qed

end
