(* ===== verification/E2e_Trust.thy ===== *)
theory E2e_Trust
  imports E2e_Manager
begin

text \<open>
  The user's answer to an identity warning (\<open>/e2e reverify\<close>) and forgetting a peer
  (\<open>reverify_peer\<close>, \<open>apply_rebind\<close>, \<open>apply_install\<close>, \<open>purge_handle\<close> and \<open>forget_peer_*\<close> in
  \<open>src/src/e2e/manager.rs\<close>).
\<close>

section \<open>What accepting a warning would do\<close>

datatype consent =
    Rebind bytes bytes bytes
  | Install bytes bytes bytes bytes

text \<open>\<open>Rebind old_handle new_handle fingerprint\<close> and \<open>Install handle old_fp new_fp pubkey\<close>.\<close>

fun accepted_fingerprint :: "consent \<Rightarrow> bytes" where
  "accepted_fingerprint (Rebind _ _ fp) = fp"
| "accepted_fingerprint (Install _ _ new _) = new"

fun commitment :: "consent \<Rightarrow> bytes \<times> bytes" where
  "commitment (Rebind _ new_h fp) = (fp, new_h)"
| "commitment (Install h _ new _) = (new, h)"

definition consent_for :: "trust_notice \<Rightarrow> consent option" where
  "consent_for notice =
     (case (tn_change notice, tn_new_pubkey notice) of
        (HandleChanged old_h new_h fp, _) \<Rightarrow> Some (Rebind old_h new_h fp)
      | (FingerprintChanged h old new, Some pubkey) \<Rightarrow> Some (Install h old new pubkey)
      | _ \<Rightarrow> None)"

definition actionable_changes :: "trust_notice list \<Rightarrow> trust_change list" where
  "actionable_changes notices = map tn_change (filter (\<lambda>n. consent_for n \<noteq> None) notices)"

definition selects :: "'x codecs_scheme \<Rightarrow> bytes \<Rightarrow> trust_notice \<Rightarrow> bool" where
  "selects cr selector notice \<longleftrightarrow>
     (case consent_for notice of
        None \<Rightarrow> False
      | Some c \<Rightarrow> starts_with selector (hex_encode cr (accepted_fingerprint c)))"

definition notice_names :: "bytes \<Rightarrow> trust_notice \<Rightarrow> bool" where
  "notice_names target notice \<longleftrightarrow>
     tn_handle notice = target \<or>
     (case tn_change notice of
        HandleChanged old_h new_h _ \<Rightarrow> old_h = target \<or> new_h = target
      | _ \<Rightarrow> False)"

definition trust_notices_for :: "bytes \<Rightarrow> manager \<Rightarrow> trust_notice list" where
  "trust_notices_for target m = filter (notice_names target) (m_unresolved m)"

datatype reverify_outcome =
    Applied bytes bytes
  | Cleared nat
  | Rebound bytes bytes bytes
  | Ambiguous "trust_change list"
  | NoSuchCandidate "trust_change list"
  | Stale bytes
  | NotFound

section \<open>Deletion by handle\<close>

definition clear_handle_state :: "bytes \<Rightarrow> (manager, unit) op" where
  "clear_handle_state handle =
     chain (kr_call (delete_incoming_sessions_for_handle handle)) (\<lambda>_.
     chain (kr_call (delete_outgoing_recipients_for_handle handle)) (\<lambda>_.
     chain (calls (clear_pending_state_for_handle handle)) (\<lambda>_. ret ())))"

definition current_binding :: "bytes \<Rightarrow> keyring \<Rightarrow> e2e_error + bytes option" where
  "current_binding fp k =
     rbind (get_peer_by_fingerprint fp k) (\<lambda>found.
     Inr (case found of None \<Rightarrow> None | Some peer \<Rightarrow> p_last_handle peer))"

definition names_moving_key :: "bytes \<Rightarrow> trust_notice \<Rightarrow> bool" where
  "names_moving_key fp n \<longleftrightarrow> (case tn_change n of HandleChanged _ _ f \<Rightarrow> f = fp | _ \<Rightarrow> False)"

definition evict_replaced_identity :: "bytes \<Rightarrow> bytes \<Rightarrow> (manager, unit) op" where
  "evict_replaced_identity old_fp handle =
     chain (kr_get (get_peer_by_fingerprint old_fp)) (\<lambda>found.
     case found of
       None \<Rightarrow> ret ()
     | Some peer \<Rightarrow>
         if p_last_handle peer \<noteq> Some handle then ret ()
         else
           chain (reads (\<lambda>m. list_ex (names_moving_key old_fp) (m_unresolved m))) (\<lambda>moving.
           if moving then kr_upd (upsert_peer (peer\<lparr>p_last_handle := None\<rparr>))
           else kr_upd (delete_peer_by_fingerprint old_fp)))"

section \<open>Applying a decision\<close>

definition apply_rebind ::
  "int \<Rightarrow> trust_notice list \<Rightarrow> bytes \<Rightarrow> bytes \<Rightarrow> bytes \<Rightarrow> (manager, reverify_outcome) op" where
  "apply_rebind now candidates old_handle new_handle fp =
     chain (kr_get (get_peer_by_fingerprint fp)) (\<lambda>found.
     case found of
       None \<Rightarrow> chain (changes (drop_trust_notices candidates)) (\<lambda>_. ret (Stale fp))
     | Some peer \<Rightarrow>
         chain (clear_handle_state new_handle) (\<lambda>_.
         chain (case p_last_handle peer of
                  None \<Rightarrow> ret ()
                | Some cur \<Rightarrow> if cur \<noteq> new_handle then clear_handle_state cur else ret ()) (\<lambda>_.
         chain (kr_upd (upsert_peer
                  \<lparr>p_fingerprint = fp, p_pubkey = p_pubkey peer, p_last_handle = Some new_handle,
                   p_last_nick = p_last_nick peer, p_first_seen = p_first_seen peer,
                   p_last_seen = now, p_global_status = p_global_status peer\<rparr>)) (\<lambda>_.
         chain (kr_upd (detach_other_peers_from_handle new_handle fp)) (\<lambda>_.
         chain (calls (clear_trust_notices_for_handle new_handle)) (\<lambda>_.
         chain (changes (drop_trust_notices candidates)) (\<lambda>_.
         ret (Rebound fp (case p_last_handle peer of None \<Rightarrow> old_handle | Some h \<Rightarrow> h) new_handle))))))))"

definition apply_install ::
  "int \<Rightarrow> trust_notice list \<Rightarrow> bytes \<Rightarrow> bytes \<Rightarrow> bytes \<Rightarrow> bytes \<Rightarrow> (manager, reverify_outcome) op" where
  "apply_install now candidates handle old_fp new_fp pubkey =
     chain (evict_replaced_identity old_fp handle) (\<lambda>_.
     chain (clear_handle_state handle) (\<lambda>_.
     chain (kr_get (current_binding new_fp)) (\<lambda>cur.
     chain (case cur of
              None \<Rightarrow> ret ()
            | Some h \<Rightarrow> if h \<noteq> handle then clear_handle_state h else ret ()) (\<lambda>_.
     chain (kr_upd (upsert_peer
              \<lparr>p_fingerprint = new_fp, p_pubkey = pubkey, p_last_handle = Some handle,
               p_last_nick = None, p_first_seen = now, p_last_seen = now,
               p_global_status = Trusted\<rparr>)) (\<lambda>_.
     chain (kr_upd (detach_other_peers_from_handle handle new_fp)) (\<lambda>_.
     chain (calls (clear_trust_notices_for_handle handle)) (\<lambda>_.
     chain (changes (drop_trust_notices candidates)) (\<lambda>_.
     ret (Applied old_fp new_fp)))))))))"

definition purge_handle :: "bytes \<Rightarrow> trust_notice list \<Rightarrow> (manager, reverify_outcome) op" where
  "purge_handle handle resolved =
     chain (kr_get (get_peer_by_handle handle)) (\<lambda>found.
     chain (case found of
              None \<Rightarrow> ret 0
            | Some peer \<Rightarrow> chain (kr_upd (delete_peer_by_fingerprint (p_fingerprint peer))) (\<lambda>_. ret 1)) (\<lambda>a.
     chain (kr_call (delete_incoming_sessions_for_handle handle)) (\<lambda>b.
     chain (kr_call (delete_outgoing_recipients_for_handle handle)) (\<lambda>c.
     chain (calls (clear_pending_state_for_handle handle)) (\<lambda>d.
     let deleted = a + b + c + d + length resolved in
     chain (changes (drop_trust_notices resolved)) (\<lambda>_.
     ret (if deleted = 0 then NotFound else Cleared deleted)))))))"

section \<open>Reverify\<close>

definition add_consent :: "consent list \<Rightarrow> trust_notice \<Rightarrow> consent list" where
  "add_consent seen notice =
     (case consent_for notice of
        None \<Rightarrow> seen
      | Some c \<Rightarrow> if list_ex (\<lambda>s. commitment s = commitment c) seen then seen else seen @ [c])"

definition collect_consents :: "trust_notice list \<Rightarrow> consent list" where
  "collect_consents candidates = foldl add_consent [] candidates"

text \<open>The warnings filed under the spelling given, else those that merely name it.\<close>

definition reverify_candidates :: "bytes \<Rightarrow> manager \<Rightarrow> trust_notice list" where
  "reverify_candidates target m =
     (let notices = trust_notices_for target m;
          exact = filter (\<lambda>n. tn_handle n = target) notices
      in if exact = [] then notices else exact)"

definition apply_candidates ::
  "int \<Rightarrow> bytes \<Rightarrow> trust_notice list \<Rightarrow> (manager, reverify_outcome) op" where
  "apply_candidates now target candidates =
     (let consents = collect_consents candidates in
      if length consents > 1 then ret (Ambiguous (actionable_changes candidates))
      else case consents of
        [] \<Rightarrow> purge_handle target candidates
      | c # _ \<Rightarrow>
          (case c of
             Rebind old_h new_h fp \<Rightarrow> apply_rebind now candidates old_h new_h fp
           | Install h old new pubkey \<Rightarrow> apply_install now candidates h old new pubkey))"

definition reverify_peer ::
  "'x codecs_scheme \<Rightarrow> int \<Rightarrow> bytes \<Rightarrow> bytes option \<Rightarrow> (manager, reverify_outcome) op" where
  "reverify_peer cr now target selector =
     chain (reads (reverify_candidates target)) (\<lambda>candidates.
     case selector of
       None \<Rightarrow> apply_candidates now target candidates
     | Some s \<Rightarrow>
         let picked = filter (selects cr (to_ascii_lowercase (trim s))) candidates in
         if picked = [] then ret (NoSuchCandidate (actionable_changes candidates))
         else apply_candidates now target picked)"

section \<open>Forgetting\<close>

definition drop_entries :: "bytes \<Rightarrow> bytes \<Rightarrow> manager \<Rightarrow> nat \<times> manager" where
  "drop_entries handle channel m =
     (let i = hm_del (handle, channel) (m_inbound m);
          a = filter (\<lambda>r. \<not> (aq_handle r = handle \<and> aq_channel r = channel)) (m_accepts m);
          p = hm_retain (\<lambda>((c, _), ph). \<not> (c = channel \<and> ph_peer_handle ph = Some handle)) (m_pending m);
          q = filter (\<lambda>r. \<not> (oq_peer_handle r = handle \<and> oq_channel r = channel)) (m_outbound m)
      in ((if hm_get (m_inbound m) (handle, channel) \<noteq> None then 1 else 0)
            + (length (m_accepts m) - length a) + (length (m_pending m) - length p)
            + (length (m_outbound m) - length q),
          m\<lparr>m_inbound := i, m_accepts := a, m_pending := p, m_outbound := q\<rparr>))"

definition forget_peer_on_channel :: "bytes \<Rightarrow> bytes \<Rightarrow> (manager, nat) op" where
  "forget_peer_on_channel handle channel =
     chain (kr_get (get_incoming_session handle channel)) (\<lambda>found.
     chain (if found \<noteq> None then kr_upd (delete_incoming_session handle channel) else ret ()) (\<lambda>_.
     chain (calls (drop_entries handle channel)) (\<lambda>n.
     ret ((if found \<noteq> None then 1 else 0) + n))))"

definition forget_peer_on_dm_contexts :: "bytes \<Rightarrow> bytes \<Rightarrow> bytes option \<Rightarrow> (manager, nat) op" where
  "forget_peer_on_dm_contexts handle peer_channel own_channel =
     chain (forget_peer_on_channel handle peer_channel) (\<lambda>n.
     case own_channel of
       None \<Rightarrow> ret n
     | Some own \<Rightarrow>
         if own \<noteq> peer_channel
         then chain (forget_peer_on_channel handle own) (\<lambda>k. ret (n + k))
         else ret n)"

definition forget_peer_everywhere :: "bytes \<Rightarrow> (manager, nat) op" where
  "forget_peer_everywhere handle =
     chain (kr_get (get_peer_by_handle handle)) (\<lambda>found.
     chain (case found of
              None \<Rightarrow> ret 0
            | Some peer \<Rightarrow> chain (kr_upd (delete_peer_by_fingerprint (p_fingerprint peer))) (\<lambda>_. ret 1)) (\<lambda>a.
     chain (kr_call (delete_incoming_sessions_for_handle handle)) (\<lambda>b.
     chain (kr_call (delete_outgoing_recipients_for_handle handle)) (\<lambda>c.
     chain (calls (clear_pending_state_for_handle handle)) (\<lambda>d.
     chain (calls (clear_trust_notices_for_handle handle)) (\<lambda>e.
     ret (a + b + c + d + e)))))))"

end
