(* ===== verification/E2e_Exchange.thy ===== *)
theory E2e_Exchange
  imports E2e_Sessions E2e_Trust
begin

text \<open>
  The key exchange (\<open>src/src/e2e/manager.rs\<close>): building a KEYREQ, answering one, accepting a
  cached one, consuming a KEYRSP and a REKEY; and the key changes behind \<open>/e2e accept\<close>,
  \<open>decline\<close>, \<open>revoke\<close> and \<open>unrevoke\<close> (\<open>src/src/commands/handlers_e2e.rs\<close>).
\<close>

section \<open>Requesting a key\<close>

definition build_keyreq_for_peer ::
  "'x crypto_scheme \<Rightarrow> int \<Rightarrow> bytes \<Rightarrow> bytes option \<Rightarrow> (manager, key_req) op" where
  "build_keyreq_for_peer cr now channel peer_handle =
     chain (changes (prune_expired_pending now)) (\<lambda>_.
     chain (draw 16) (\<lambda>nonce.
     chain (draw 32) (\<lambda>eph_secret.
     chain (reads m_identity) (\<lambda>seed.
     let eph_pub = x_public cr eph_secret;
         pubkey = public_bytes cr seed;
         wire_channel = wire_context channel in
     chain (changes (\<lambda>m. m\<lparr>m_pending := hm_put (channel, nonce)
              \<lparr>ph_channel = channel, ph_peer_handle = peer_handle,
               ph_eph_x25519_secret = eph_secret, ph_created_at = now\<rparr> (m_pending m)\<rparr>)) (\<lambda>_.
     ret \<lparr>kq_channel = wire_channel, kq_pubkey = pubkey, kq_eph_x25519 = eph_pub, kq_nonce = nonce,
          kq_sig = sig_sign cr seed (sig_payload_keyreq wire_channel pubkey eph_pub nonce)\<rparr>)))))"

definition build_keyreq :: "'x crypto_scheme \<Rightarrow> int \<Rightarrow> bytes \<Rightarrow> (manager, key_req) op" where
  "build_keyreq cr now channel = build_keyreq_for_peer cr now channel None"

definition encode_keyreq_ctcp :: "'x codecs_scheme \<Rightarrow> key_req \<Rightarrow> bytes" where
  "encode_keyreq_ctcp cr req = [CHR 0x01] @ encode_keyreq cr req @ [CHR 0x01]"

definition encode_keyrsp_ctcp :: "'x codecs_scheme \<Rightarrow> key_rsp \<Rightarrow> bytes" where
  "encode_keyrsp_ctcp cr rsp = [CHR 0x01] @ encode_keyrsp cr rsp @ [CHR 0x01]"

section \<open>Answering a request\<close>

definition effective_channel_mode ::
  "(bytes \<Rightarrow> bytes list) \<Rightarrow> bytes \<Rightarrow> bytes \<Rightarrow> keyring \<Rightarrow> channel_mode option" where
  "effective_channel_mode lowc sender_handle channel k =
     (case get_channel_config channel k of
        None \<Rightarrow> None
      | Some cfg \<Rightarrow>
          if \<not> c_enabled cfg then None
          else if autotrust_matches lowc sender_handle channel k then Some AutoAccept
          else Some (c_mode cfg))"

definition tofu_upsert_on_keyreq ::
  "'x crypto_scheme \<Rightarrow> int \<Rightarrow> bytes \<Rightarrow> bytes option \<Rightarrow> key_req \<Rightarrow> bytes \<Rightarrow> (manager, unit) op" where
  "tofu_upsert_on_keyreq cr now sender_handle sender_nick req fp =
     chain (kr_get (classify_peer_change fp sender_handle)) (\<lambda>change.
     if change = New \<or> change = Known then
       chain (if change = Known
              then chain (kr_get (get_peer_by_fingerprint fp)) (\<lambda>found.
                   ret (case found of None \<Rightarrow> Pending | Some p \<Rightarrow> p_global_status p))
              else ret Pending) (\<lambda>status.
       kr_upd (upsert_peer
         \<lparr>p_fingerprint = fp, p_pubkey = kq_pubkey req, p_last_handle = Some sender_handle,
          p_last_nick = sender_nick, p_first_seen = now, p_last_seen = now,
          p_global_status = status\<rparr>))
     else refuse_change cr sender_handle (kq_channel req) change (kq_pubkey req))"

text \<open>The placeholder's key is 32 zero bytes; a failed install of it is logged only.\<close>

definition ZERO_KEY :: bytes where "ZERO_KEY = replicate 32 (byte_of 0)"

definition cache_pending_inbound_normal_mode ::
  "'x codecs_scheme \<Rightarrow> int \<Rightarrow> bytes \<Rightarrow> bytes option \<Rightarrow> key_req \<Rightarrow> bytes \<Rightarrow> (manager, unit) op" where
  "cache_pending_inbound_normal_mode cr now sender_handle sender_nick req fp =
     chain (attempt (kr_try (install_incoming_session_strict cr now
              \<lparr>i_handle = sender_handle, i_channel = kq_channel req, i_fingerprint = fp,
               i_sk = ZERO_KEY, i_status = Pending, i_created_at = now\<rparr>))) (\<lambda>_.
     chain (changes (prune_expired_pending now)) (\<lambda>_.
     changes (\<lambda>m. m\<lparr>
       m_inbound := hm_put (sender_handle, kq_channel req) \<lparr>pi_req = req, pi_created_at = now\<rparr> (m_inbound m),
       m_accepts := m_accepts m
         @ [\<lparr>aq_nick = sender_nick, aq_handle = sender_handle, aq_channel = kq_channel req\<rparr>]\<rparr>)))"

text \<open>
  From \<open>get_or_generate_outgoing_key\<close> on, \<open>handle_keyreq_with_nick\<close> and
  \<open>build_keyrsp_for_accepted_request\<close> run the same code.
\<close>

definition queue_reciprocal ::
  "'x crypto_scheme \<Rightarrow> int \<Rightarrow> nat \<Rightarrow> bytes \<Rightarrow> bytes \<Rightarrow> (manager, unit) op" where
  "queue_reciprocal cr now inst sender_handle channel =
     chain (kr_get (get_incoming_session sender_handle channel)) (\<lambda>found.
     let already_incoming = (case found of None \<Rightarrow> False | Some s \<Rightarrow> i_status s = Trusted) in
     chain (calls (allow_keyreq inst sender_handle)) (\<lambda>allow_out.
     if \<not> starts_with ''@'' (wire_context channel) \<and> \<not> already_incoming \<and> allow_out then
       chain (build_keyreq_for_peer cr now channel (Some sender_handle)) (\<lambda>reciprocal.
       changes (\<lambda>m. m\<lparr>m_outbound := m_outbound m
         @ [\<lparr>oq_peer_handle = sender_handle, oq_channel = channel, oq_req = reciprocal\<rparr>]\<rparr>))
     else ret ()))"

definition serve_keyrsp ::
  "'x crypto_scheme \<Rightarrow> int \<Rightarrow> nat \<Rightarrow> bytes \<Rightarrow> key_req \<Rightarrow> (manager, key_rsp) op" where
  "serve_keyrsp cr now inst sender_handle req =
     chain (get_or_generate_outgoing_key cr now (kq_channel req)) (\<lambda>our_sk.
     chain (kr_upd (record_outgoing_recipient (kq_channel req) sender_handle
              (fingerprint cr (kq_pubkey req)) now)) (\<lambda>_.
     chain (draw 32) (\<lambda>our_eph_secret.
     let info = wrap_info (wire_context (kq_channel req));
         wrap_key = derive_wrap_key cr our_eph_secret (kq_eph_x25519 req) info in
     chain (draw 24) (\<lambda>n.
     chain (lift (aead_encrypt cr n wrap_key info our_sk)) (\<lambda>(wrap_nonce, wrap_ct).
     chain (draw 16) (\<lambda>rsp_nonce.
     chain (reads m_identity) (\<lambda>seed.
     let our_pubkey = public_bytes cr seed;
         our_eph_pub = x_public cr our_eph_secret;
         wire_channel = wire_context (kq_channel req) in
     chain (queue_reciprocal cr now inst sender_handle (kq_channel req)) (\<lambda>_.
     ret \<lparr>kr_channel = wire_channel, kr_pubkey = our_pubkey, kr_ephemeral_pub = our_eph_pub,
          kr_wrap_nonce = wrap_nonce, kr_wrap_ct = wrap_ct, kr_nonce = rsp_nonce,
          kr_sig = sig_sign cr seed (sig_payload_keyrsp wire_channel our_pubkey our_eph_pub
                     wrap_nonce wrap_ct rsp_nonce)\<rparr>))))))))"

definition trusted_session :: "bytes \<Rightarrow> bytes \<Rightarrow> keyring \<Rightarrow> e2e_error + bool" where
  "trusted_session handle channel k =
     rbind (get_incoming_session handle channel k) (\<lambda>found.
     Inr (case found of None \<Rightarrow> False | Some s \<Rightarrow> i_status s = Trusted))"

definition handle_keyreq_with_nick ::
  "'x crypto_scheme \<Rightarrow> (bytes \<Rightarrow> bytes list) \<Rightarrow> int \<Rightarrow> nat \<Rightarrow> bytes \<Rightarrow> bytes option \<Rightarrow> key_req
     \<Rightarrow> (manager, key_rsp option) op" where
  "handle_keyreq_with_nick cr lowc now inst sender_handle sender_nick req =
     chain (calls (allow_incoming_keyreq inst sender_handle)) (\<lambda>allowed.
     if \<not> allowed then fail (RateLimited sender_handle)
     else
       chain (lift (sig_verify cr (kq_pubkey req) (sig_payload_keyreq (wire_context (kq_channel req))
                (kq_pubkey req) (kq_eph_x25519 req) (kq_nonce req)) (kq_sig req))) (\<lambda>_.
       chain (reads (\<lambda>m. effective_channel_mode lowc sender_handle (kq_channel req) (m_keyring m))) (\<lambda>mode.
       case mode of
         None \<Rightarrow> ret None
       | Some effective_mode \<Rightarrow>
           let fp = fingerprint cr (kq_pubkey req) in
           chain (tofu_upsert_on_keyreq cr now sender_handle sender_nick req fp) (\<lambda>_.
           chain (kr_get (trusted_session sender_handle (kq_channel req))) (\<lambda>already_trusted.
           if effective_mode = Normal \<and> \<not> already_trusted then
             chain (cache_pending_inbound_normal_mode cr now sender_handle sender_nick req fp) (\<lambda>_.
             ret None)
           else if effective_mode = Quiet \<and> \<not> already_trusted then ret None
           else chain (serve_keyrsp cr now inst sender_handle req) (\<lambda>rsp. ret (Some rsp)))))))"

definition handle_keyreq ::
  "'x crypto_scheme \<Rightarrow> (bytes \<Rightarrow> bytes list) \<Rightarrow> int \<Rightarrow> nat \<Rightarrow> bytes \<Rightarrow> key_req \<Rightarrow> (manager, key_rsp option) op" where
  "handle_keyreq cr lowc now inst sender_handle req =
     handle_keyreq_with_nick cr lowc now inst sender_handle None req"

definition build_keyrsp_for_accepted_request ::
  "'x crypto_scheme \<Rightarrow> int \<Rightarrow> nat \<Rightarrow> bytes \<Rightarrow> key_req \<Rightarrow> (manager, key_rsp) op" where
  "build_keyrsp_for_accepted_request cr now inst sender_handle req =
     (let fp = fingerprint cr (kq_pubkey req) in
      chain (kr_get (get_peer_by_fingerprint fp)) (\<lambda>existing.
      chain (kr_upd (upsert_peer
        \<lparr>p_fingerprint = fp, p_pubkey = kq_pubkey req, p_last_handle = Some sender_handle,
         p_last_nick = (case existing of None \<Rightarrow> None | Some p \<Rightarrow> p_last_nick p),
         p_first_seen = (case existing of None \<Rightarrow> now | Some p \<Rightarrow> p_first_seen p),
         p_last_seen = now, p_global_status = Trusted\<rparr>)) (\<lambda>_.
      serve_keyrsp cr now inst sender_handle req)))"

definition accept_pending_inbound ::
  "'x crypto_scheme \<Rightarrow> int \<Rightarrow> nat \<Rightarrow> bytes \<Rightarrow> bytes \<Rightarrow> (manager, key_rsp option) op" where
  "accept_pending_inbound cr now inst sender_handle channel =
     chain (changes (prune_expired_pending now)) (\<lambda>_.
     chain (calls (\<lambda>m. (hm_get (m_inbound m) (sender_handle, channel),
                        m\<lparr>m_inbound := hm_del (sender_handle, channel) (m_inbound m)\<rparr>))) (\<lambda>cached.
     case cached of
       None \<Rightarrow> ret None
     | Some p \<Rightarrow>
         chain (build_keyrsp_for_accepted_request cr now inst sender_handle (pi_req p)) (\<lambda>rsp.
         ret (Some rsp))))"

section \<open>Consuming a response\<close>

text \<open>The pending handshakes for the channel, in the map's order; the first that unwraps.\<close>

definition unwrap_key :: "'x crypto_scheme \<Rightarrow> bytes \<Rightarrow> key_rsp \<Rightarrow> bytes option" where
  "unwrap_key cr eph_secret rsp =
     (let info = wrap_info (wire_context (kr_channel rsp));
          wrap_key = derive_wrap_key cr eph_secret (kr_ephemeral_pub rsp) info in
      case aead_decrypt cr wrap_key (kr_wrap_nonce rsp) info (kr_wrap_ct rsp) of
        Inl _ \<Rightarrow> None
      | Inr sk \<Rightarrow> if length sk \<noteq> 32 then None else Some sk)"

fun find_matching ::
  "'x crypto_scheme \<Rightarrow> key_rsp \<Rightarrow> ((bytes \<times> bytes) \<times> pending_handshake) list
     \<Rightarrow> (bytes \<times> (bytes \<times> bytes)) option" where
  "find_matching cr rsp [] = None"
| "find_matching cr rsp ((key, ph) # rest) =
     (case unwrap_key cr (ph_eph_x25519_secret ph) rsp of
        Some sk \<Rightarrow> Some (sk, key)
      | None \<Rightarrow> find_matching cr rsp rest)"

definition consume_matching_pending_for_keyrsp ::
  "'x crypto_scheme \<Rightarrow> int \<Rightarrow> key_rsp \<Rightarrow> (manager, bytes) op" where
  "consume_matching_pending_for_keyrsp cr now rsp =
     chain (changes (prune_expired_pending now)) (\<lambda>_.
     chain (reads (\<lambda>m. filter (\<lambda>((c, _), _). c = kr_channel rsp) (m_pending m))) (\<lambda>candidates.
     if candidates = [] then fail (HandshakeErr ''no pending handshake for channel'')
     else case find_matching cr rsp candidates of
       None \<Rightarrow> fail (Crypto ''KEYRSP did not match any pending handshake for channel'')
     | Some (sk, key) \<Rightarrow>
         chain (changes (\<lambda>m. m\<lparr>m_pending := hm_del key (m_pending m)\<rparr>)) (\<lambda>_. ret sk)))"

text \<open>The second line of defence: a session row pinned to another fingerprint than the peer row.\<close>

definition install_from_keyrsp ::
  "'x crypto_scheme \<Rightarrow> int \<Rightarrow> bytes \<Rightarrow> key_rsp \<Rightarrow> bytes \<Rightarrow> bytes \<Rightarrow> (manager, unit) op" where
  "install_from_keyrsp cr now sender_handle rsp fp sk = (\<lambda>m.
     case install_incoming_session_strict cr now
            \<lparr>i_handle = sender_handle, i_channel = kr_channel rsp, i_fingerprint = fp,
             i_sk = sk, i_status = Trusted, i_created_at = now\<rparr> (m_keyring m) of
       Inr k \<Rightarrow> (Inr (), m\<lparr>m_keyring := k\<rparr>)
     | Inl e \<Rightarrow>
         (case e of
            HandleMismatch _ _ \<Rightarrow>
              chain (kr_get (get_incoming_session sender_handle (kr_channel rsp))) (\<lambda>found.
              chain (changes (record_trust_change
                \<lparr>tn_handle = sender_handle, tn_channel = kr_channel rsp,
                 tn_change = FingerprintChanged sender_handle
                   (case found of None \<Rightarrow> replicate 16 (byte_of 0) | Some s \<Rightarrow> i_fingerprint s) fp,
                 tn_new_pubkey = Some (kr_pubkey rsp)\<rparr>)) (\<lambda>_. fail e)) m
          | _ \<Rightarrow> (Inl e, m)))"

definition handle_keyrsp :: "'x crypto_scheme \<Rightarrow> int \<Rightarrow> bytes \<Rightarrow> key_rsp \<Rightarrow> (manager, unit) op" where
  "handle_keyrsp cr now sender_handle rsp =
     chain (lift (sig_verify cr (kr_pubkey rsp) (sig_payload_keyrsp (wire_context (kr_channel rsp))
              (kr_pubkey rsp) (kr_ephemeral_pub rsp) (kr_wrap_nonce rsp) (kr_wrap_ct rsp) (kr_nonce rsp))
              (kr_sig rsp))) (\<lambda>_.
     chain (consume_matching_pending_for_keyrsp cr now rsp) (\<lambda>sk.
     let fp = fingerprint cr (kr_pubkey rsp) in
     chain (kr_get (classify_peer_change fp sender_handle)) (\<lambda>change.
     if change = New \<or> change = Known then
       chain (kr_upd (upsert_peer
         \<lparr>p_fingerprint = fp, p_pubkey = kr_pubkey rsp, p_last_handle = Some sender_handle,
          p_last_nick = None, p_first_seen = now, p_last_seen = now, p_global_status = Trusted\<rparr>)) (\<lambda>_.
       install_from_keyrsp cr now sender_handle rsp fp sk)
     else refuse_change cr sender_handle (kr_channel rsp) change (kr_pubkey rsp))))"

section \<open>Consuming a REKEY\<close>

definition handle_rekey :: "'x crypto_scheme \<Rightarrow> int \<Rightarrow> bytes \<Rightarrow> key_rekey \<Rightarrow> (manager, unit) op" where
  "handle_rekey cr now sender_handle rk =
     chain (lift (sig_verify cr (rk_pubkey rk) (sig_payload_keyrekey (wire_context (rk_channel rk))
              (rk_pubkey rk) (rk_eph_pub rk) (rk_wrap_nonce rk) (rk_wrap_ct rk) (rk_nonce rk))
              (rk_sig rk))) (\<lambda>_.
     let fp = fingerprint cr (rk_pubkey rk) in
     chain (kr_get (classify_peer_change fp sender_handle)) (\<lambda>change.
     if change = New then fail (HandshakeErr ''REKEY from unknown peer; ignoring'')
     else if change \<noteq> Known then refuse_change cr sender_handle (rk_channel rk) change (rk_pubkey rk)
     else
       chain (kr_call (record_rekey_nonce fp (rk_channel rk) (rk_nonce rk) now)) (\<lambda>fresh.
       if \<not> fresh then fail (HandshakeErr ''REKEY replay detected (nonce already consumed); ignoring'')
       else
         chain (reads m_identity) (\<lambda>seed.
         let info = rekey_info (wire_context (rk_channel rk));
             wrap_key = hkdf cr ''RPE2E01-WRAP'' (x_dh cr (ed_seed_to_x cr seed) (rk_eph_pub rk)) info in
         chain (lift (aead_decrypt cr wrap_key (rk_wrap_nonce rk) info (rk_wrap_ct rk))) (\<lambda>new_sk.
         if length new_sk \<noteq> 32
         then fail (Crypto (''rekey sk has unexpected length '' @ show_nat (length new_sk)))
         else kr_try (install_incoming_session_strict cr now
                \<lparr>i_handle = sender_handle, i_channel = rk_channel rk, i_fingerprint = fp,
                 i_sk = new_sk, i_status = Trusted, i_created_at = now\<rparr>))))))"

section \<open>The user's trust commands\<close>

text \<open>
  What the commands do once the context and the peer's handle are resolved; \<open>own_context\<close> is the
  recipient-keyed context, \<open>None\<close> while our own handle is not known.  The queueing of the KEYRSP
  and of the reciprocal KEYREQs for the connection is the caller's.
\<close>

datatype accept_outcome =
    Served key_rsp
  | NoOwnContext
  | NothingToAccept
  | RequestLost
  | Accepted

definition e2e_accept ::
  "'x crypto_scheme \<Rightarrow> int \<Rightarrow> nat \<Rightarrow> bytes \<Rightarrow> bytes \<Rightarrow> bytes option \<Rightarrow> (manager, accept_outcome) op" where
  "e2e_accept cr now inst handle chan own_context =
     chain (accept_pending_inbound cr now inst handle chan) (\<lambda>served.
     case served of
       Some rsp \<Rightarrow> ret (Served rsp)
     | None \<Rightarrow>
         (case own_context of
            None \<Rightarrow> ret NoOwnContext
          | Some incoming_context \<Rightarrow>
              chain (kr_get (get_incoming_session handle incoming_context)) (\<lambda>found.
              case found of
                None \<Rightarrow> ret NothingToAccept
              | Some sess \<Rightarrow>
                  if i_status sess = Pending \<and> i_sk sess = ZERO_KEY then ret RequestLost
                  else chain (kr_upd (update_incoming_status handle incoming_context Trusted))
                         (\<lambda>_. ret Accepted))))"

definition e2e_decline :: "bytes \<Rightarrow> bytes \<Rightarrow> keyring \<Rightarrow> keyring" where
  "e2e_decline handle chan = update_incoming_status handle chan Revoked"

definition e2e_revoke :: "bytes \<Rightarrow> bytes \<Rightarrow> bytes \<Rightarrow> keyring \<Rightarrow> keyring" where
  "e2e_revoke handle peer_chan own_chan k =
     mark_outgoing_pending_rotation peer_chan
       (remove_outgoing_recipient peer_chan handle
         (update_incoming_status handle own_chan Revoked k))"

definition e2e_unrevoke :: "bytes \<Rightarrow> bytes \<Rightarrow> keyring \<Rightarrow> keyring" where
  "e2e_unrevoke handle own_chan = update_incoming_status handle own_chan Trusted"

end
