(* ===== verification/E2e_Exchange_Facts.thy ===== *)
theory E2e_Exchange_Facts
  imports E2e_Exchange E2e_Session_Facts
begin

text \<open>
  What the key exchange guarantees: a completed exchange leaves the initiator with the responder's
  outgoing key, a REKEY delivers the rotated key once, a message that does not verify changes
  nothing, and a key is released only where the channel's policy allows it.
\<close>

section \<open>Answering\<close>

lemma keeps_keyreq [intro]:
  assumes "\<And>m. I m \<Longrightarrow> I (prune_expired_pending now m)" "\<And>m i. I m \<Longrightarrow> I (m\<lparr>m_draws := i\<rparr>)"
    "\<And>m p. I m \<Longrightarrow> I (m\<lparr>m_pending := p\<rparr>)"
  shows "keeps I (build_keyreq_for_peer cr now c p)"
  unfolding build_keyreq_for_peer_def Let_def
  by (intro keeps_chain keeps_changes keeps_draw keeps_basic) (auto intro: assms)

lemma keeps_reciprocal [intro]:
  assumes "\<And>m. I m \<Longrightarrow> I (prune_expired_pending now m)" "\<And>m i. I m \<Longrightarrow> I (m\<lparr>m_draws := i\<rparr>)"
    "\<And>m p. I m \<Longrightarrow> I (m\<lparr>m_pending := p\<rparr>)" "\<And>m l. I m \<Longrightarrow> I (m\<lparr>m_limiter := l\<rparr>)"
    "\<And>m q. I m \<Longrightarrow> I (m\<lparr>m_outbound := q\<rparr>)"
  shows "keeps I (queue_reciprocal cr now inst h c)"
  unfolding queue_reciprocal_def Let_def
  by (intro keeps_chain keeps_kr_get keeps_calls keeps_if keeps_keyreq keeps_changes keeps_basic)
    (auto intro: assms simp: allow_keyreq_def split: prod.splits)

lemma outgoing_key_identity:
  assumes "get_or_generate_outgoing_key cr now c m = (r, m')"
  shows "m_identity m' = m_identity m"
  using keepsD [OF keeps_outgoing_key [of "\<lambda>x. m_identity x = m_identity m"] _ assms] by simp

lemma reciprocal_keyring:
  assumes "queue_reciprocal cr now inst h c m = (r, m')"
  shows "m_keyring m' = m_keyring m"
  using keepsD [OF keeps_reciprocal [of "\<lambda>x. m_keyring x = m_keyring m"] _ assms]
  by (simp add: prune_expired_pending_def)

lemma get_outgoing_recipient:
  "get_outgoing_session c (record_outgoing_recipient d h fp now k) = get_outgoing_session c k"
proof -
  let ?k = "record_outgoing_recipient d h fp now k"
  have "outgoing_of_row ?k = outgoing_of_row k"
    by (rule ext) (rule outgoing_of_row_cong, simp add: record_outgoing_recipient_def)
  moreover have "legacy_fallback ?k = legacy_fallback k"
    by (rule ext) (rule legacy_fallback_cong, simp add: record_outgoing_recipient_def)
  ultimately show ?thesis
    by (simp add: get_outgoing_session_def with_fallback_def get_outgoing_session_exact_def
        record_outgoing_recipient_def cong: option.case_cong)
qed

lemma serve_keyrsp_wraps:
  assumes "aead_ok cr" "sig_ok cr" "box_ok (m_keyring m)" "rng_ok m"
    "serve_keyrsp cr now inst h req m = (Inr rsp, m')"
  obtains e s where "kr_channel rsp = wire_context (kq_channel req)"
    "kr_pubkey rsp = public_bytes cr (m_identity m)" "kr_ephemeral_pub rsp = x_public cr e"
    "sig_verify cr (kr_pubkey rsp) (sig_payload_keyrsp (kr_channel rsp) (kr_pubkey rsp)
       (kr_ephemeral_pub rsp) (kr_wrap_nonce rsp) (kr_wrap_ct rsp) (kr_nonce rsp)) (kr_sig rsp) = Inr ()"
    "get_outgoing_session (kq_channel req) (m_keyring m') = Inr (Some s)" "length (o_sk s) = 32"
    "aead_decrypt cr (derive_wrap_key cr e (kq_eph_x25519 req) (wrap_info (kr_channel rsp)))
       (kr_wrap_nonce rsp) (wrap_info (kr_channel rsp)) (kr_wrap_ct rsp) = Inr (o_sk s)"
proof -
  let ?c = "kq_channel req"
  obtain sk m1 where k: "get_or_generate_outgoing_key cr now ?c m = (Inr sk, m1)"
    using assms(5) unfolding serve_keyrsp_def by (rule chain_okE)
  from outgoing_key_stored [OF assms(3,4) k] obtain s where
    s: "get_outgoing_session ?c (m_keyring m1) = Inr (Some s)" "o_sk s = sk" "length sk = 32" by blast
  note id = outgoing_key_identity [OF k]
  let ?k = "record_outgoing_recipient ?c h (fingerprint cr (kq_pubkey req)) now (m_keyring m1)"
  let ?e = "m_rng m1 (m_draws m1) 32" and ?n = "m_rng m1 (Suc (m_draws m1)) 24"
    and ?rn = "m_rng m1 (Suc (Suc (m_draws m1))) 16" and ?info = "wrap_info (wire_context ?c)"
  let ?ct = "the (aead_seal cr (derive_wrap_key cr ?e (kq_eph_x25519 req) ?info) ?n ?info sk)"
  let ?m = "m1\<lparr>m_keyring := ?k, m_draws := Suc (Suc (Suc (m_draws m1)))\<rparr>"
  let ?rsp = "\<lparr>kr_channel = wire_context ?c, kr_pubkey = public_bytes cr (m_identity m1),
      kr_ephemeral_pub = x_public cr ?e, kr_wrap_nonce = ?n, kr_wrap_ct = ?ct, kr_nonce = ?rn,
      kr_sig = sig_sign cr (m_identity m1) (sig_payload_keyrsp (wire_context ?c)
        (public_bytes cr (m_identity m1)) (x_public cr ?e) ?n ?ct ?rn)\<rparr>"
  have run: "chain (queue_reciprocal cr now inst h ?c) (\<lambda>_. ret ?rsp) ?m = (Inr rsp, m')"
    using assms(5) aead_encrypt_ok [OF assms(1)]
    unfolding serve_keyrsp_def chain_Inr [of "get_or_generate_outgoing_key cr now ?c" m, OF k]
    by (simp add: Let_def)
  then obtain u where q: "queue_reciprocal cr now inst h ?c ?m = (Inr u, m')" and rsp: "rsp = ?rsp"
    by (auto elim!: chain_okE)
  from reciprocal_keyring [OF q] have kr: "m_keyring m' = ?k" by simp
  show thesis
  proof (rule that [of ?e s])
    show "get_outgoing_session ?c (m_keyring m') = Inr (Some s)"
      unfolding kr get_outgoing_recipient by (rule s(1))
    show "sig_verify cr (kr_pubkey rsp) (sig_payload_keyrsp (kr_channel rsp) (kr_pubkey rsp)
       (kr_ephemeral_pub rsp) (kr_wrap_nonce rsp) (kr_wrap_ct rsp) (kr_nonce rsp)) (kr_sig rsp) = Inr ()"
      using assms(2) by (simp add: rsp sig_verify_def sig_ok_def sig_sign_def public_bytes_def)
  qed (simp_all add: rsp id s aead_roundtrip [OF assms(1)])
qed

section \<open>When a key is released\<close>

lemma keeps_refuse [intro]:
  "(\<And>m n. I m \<Longrightarrow> I (record_trust_change n m)) \<Longrightarrow> keeps I (refuse_change cr h c ch pk)"
  unfolding refuse_change_def by (intro keeps_chain keeps_changes keeps_basic)

lemma keeps_tofu [intro]:
  assumes "\<And>m n. I m \<Longrightarrow> I (record_trust_change n m)"
    "\<And>m p. I m \<Longrightarrow> I (m\<lparr>m_keyring := upsert_peer p (m_keyring m)\<rparr>)"
  shows "keeps I (tofu_upsert_on_keyreq cr now h nick req fp)"
  unfolding tofu_upsert_on_keyreq_def
  by (intro keeps_chain keeps_if keeps_kr_get keeps_kr_upd keeps_refuse keeps_basic) (auto intro: assms)

text \<open>What stays the same of a manager while it answers: identity, generator and storage key.\<close>

definition same_base :: "manager \<Rightarrow> manager \<Rightarrow> bool" where
  "same_base m m' \<longleftrightarrow> m_identity m' = m_identity m \<and> m_rng m' = m_rng m
     \<and> k_secret_key (m_keyring m') = k_secret_key (m_keyring m)"

lemma same_base_ok: "same_base m m' \<Longrightarrow> rng_ok m' = rng_ok m \<and> box_ok (m_keyring m') = box_ok (m_keyring m)"
  by (simp add: same_base_def rng_ok_def box_ok_def)

lemma record_fields [simp]:
  "m_identity (record_trust_change n m) = m_identity m" "m_rng (record_trust_change n m) = m_rng m"
  "m_keyring (record_trust_change n m) = m_keyring m" "m_pending (record_trust_change n m) = m_pending m"
  "m_inbound (record_trust_change n m) = m_inbound m" "m_limiter (record_trust_change n m) = m_limiter m"
  by (simp_all add: record_trust_change_def Let_def)

lemma upsert_secret [simp]: "k_secret_key (upsert_peer p k) = k_secret_key k"
  by (simp add: upsert_peer_def)

lemma tofu_base:
  assumes "tofu_upsert_on_keyreq cr now h nick req fp m = (r, m')"
  shows "same_base m m'"
proof -
  have "keeps (same_base m) (tofu_upsert_on_keyreq cr now h nick req fp)"
    by (rule keeps_tofu) (simp_all add: same_base_def)
  from keepsD [OF this _ assms] show ?thesis by (simp add: same_base_def)
qed

text \<open>The way a request is answered: every gate of \<open>handle_keyreq\<close> was passed.\<close>

lemma keyreq_served:
  assumes "handle_keyreq_with_nick cr lowc now inst h nick req m = (Inr (Some rsp), m')"
  obtains m1 m2 mode trusted where
    "allow_incoming_keyreq inst h m = (True, m1)"
    "sig_verify cr (kq_pubkey req) (sig_payload_keyreq (wire_context (kq_channel req))
       (kq_pubkey req) (kq_eph_x25519 req) (kq_nonce req)) (kq_sig req) = Inr ()"
    "effective_channel_mode lowc h (kq_channel req) (m_keyring m1) = Some mode"
    "tofu_upsert_on_keyreq cr now h nick req (fingerprint cr (kq_pubkey req)) m1 = (Inr (), m2)"
    "trusted_session h (kq_channel req) (m_keyring m2) = Inr trusted"
    "mode = AutoAccept \<or> trusted" "serve_keyrsp cr now inst h req m2 = (Inr rsp, m')"
proof -
  obtain ok m1 where a: "allow_incoming_keyreq inst h m = (ok, m1)" by fastforce
  let ?fp = "fingerprint cr (kq_pubkey req)"
  let ?sig = "sig_verify cr (kq_pubkey req) (sig_payload_keyreq (wire_context (kq_channel req))
       (kq_pubkey req) (kq_eph_x25519 req) (kq_nonce req)) (kq_sig req)"
  from assms a have ok: ok
    by (cases ok) (simp_all add: handle_keyreq_with_nick_def chain_def calls_def)
  from assms a ok have sg: "?sig = Inr ()"
    by (cases ?sig) (simp_all add: handle_keyreq_with_nick_def chain_def calls_def)
  from a ok have c: "calls (allow_incoming_keyreq inst h) m = (Inr True, m1)" by (simp add: calls_def)
  from assms a ok sg obtain mode where md:
    "effective_channel_mode lowc h (kq_channel req) (m_keyring m1) = Some mode"
    by (cases "effective_channel_mode lowc h (kq_channel req) (m_keyring m1)")
      (simp_all add: handle_keyreq_with_nick_def chain_def calls_def)
  have run: "chain (tofu_upsert_on_keyreq cr now h nick req ?fp) (\<lambda>_.
      chain (kr_get (trusted_session h (kq_channel req))) (\<lambda>already_trusted.
       if mode = Normal \<and> \<not> already_trusted then
         chain (cache_pending_inbound_normal_mode cr now h nick req ?fp) (\<lambda>_. ret None)
       else if mode = Quiet \<and> \<not> already_trusted then ret None
       else chain (serve_keyrsp cr now inst h req) (\<lambda>rsp. ret (Some rsp)))) m1 = (Inr (Some rsp), m')"
    using assms [unfolded handle_keyreq_with_nick_def
        chain_Inr [of "calls (allow_incoming_keyreq inst h)" m, OF c]] sg md
    by (simp add: Let_def)
  obtain u m2 where t: "tofu_upsert_on_keyreq cr now h nick req ?fp m1 = (Inr u, m2)"
    and run2: "chain (kr_get (trusted_session h (kq_channel req))) (\<lambda>already_trusted.
       if mode = Normal \<and> \<not> already_trusted then
         chain (cache_pending_inbound_normal_mode cr now h nick req ?fp) (\<lambda>_. ret None)
       else if mode = Quiet \<and> \<not> already_trusted then ret None
       else chain (serve_keyrsp cr now inst h req) (\<lambda>rsp. ret (Some rsp))) m2 = (Inr (Some rsp), m')"
    using run by (rule chain_okE)
  from run2 obtain tr where tr: "trusted_session h (kq_channel req) (m_keyring m2) = Inr tr"
    by (cases "trusted_session h (kq_channel req) (m_keyring m2)") simp_all
  have "mode = AutoAccept \<or> tr" "serve_keyrsp cr now inst h req m2 = (Inr rsp, m')"
    using run2 tr by (cases mode; auto elim!: chain_okE split: if_splits)+
  with a ok sg md t tr that show thesis by auto
qed

lemma refuse_fails: "refuse_change cr h c ch pk m \<noteq> (Inr x, m')"
  by (simp add: refuse_change_def)

lemma tofu_Inr:
  assumes "tofu_upsert_on_keyreq cr now h nick req fp m = (Inr (), m')"
  obtains ch p where "classify_peer_change fp h (m_keyring m) = Inr ch" "ch = New \<or> ch = Known"
    "m' = m\<lparr>m_keyring := upsert_peer p (m_keyring m)\<rparr>" "p_fingerprint p = fp"
    "p_last_handle p = Some h" "p_pubkey p = kq_pubkey req"
proof -
  from assms obtain ch where ch: "classify_peer_change fp h (m_keyring m) = Inr ch"
    by (cases "classify_peer_change fp h (m_keyring m)") (simp_all add: tofu_upsert_on_keyreq_def)
  from assms ch have nk: "ch = New \<or> ch = Known"
    by (auto simp: tofu_upsert_on_keyreq_def refuse_fails split: if_splits)
  show thesis
  proof (cases "ch = Known")
    case True
    from assms ch True obtain found where "get_peer_by_fingerprint fp (m_keyring m) = Inr found"
      by (cases "get_peer_by_fingerprint fp (m_keyring m)") (simp_all add: tofu_upsert_on_keyreq_def chain_assoc)
    with assms ch True show thesis
      by (intro that [OF ch nk]) (auto simp: tofu_upsert_on_keyreq_def chain_assoc)
  next
    case False
    with nk have "ch = New" by simp
    with assms ch show thesis
      by (intro that [OF ch nk]) (auto simp: tofu_upsert_on_keyreq_def)
  qed
qed

lemma incoming_upsert [simp]: "get_incoming_session h c (upsert_peer p k) = get_incoming_session h c k"
proof -
  have "incoming_of_row (upsert_peer p k) = incoming_of_row k"
    by (rule ext) (rule incoming_of_row_cong, simp)
  moreover have "legacy_fallback (upsert_peer p k) c = legacy_fallback k c"
    by (rule legacy_fallback_cong) (simp add: upsert_peer_def)
  ultimately show ?thesis
    by (simp add: get_incoming_session_existing existing_incoming_def upsert_peer_def cong: option.case_cong)
qed

text \<open>C6: Our outgoing key is given away by policy only: \<open>handle_keyreq\<close> answers with a KEYRSP only to a
  request within the rate limit, whose signature verifies under the key it carries, on an enabled
  channel that accepts automatically, or from a handle on the autotrust list, or from a handle whose
  session on that channel is already trusted; and only to an identity that is new at a free handle,
  or known at this one.\<close>

theorem key_release_policy:
  assumes "handle_keyreq_with_nick cr lowc now inst h nick req m = (Inr (Some rsp), m')"
  shows "fst (allow_incoming_keyreq inst h m)
    \<and> ed_verify cr (kq_pubkey req) (sig_payload_keyreq (wire_context (kq_channel req))
        (kq_pubkey req) (kq_eph_x25519 req) (kq_nonce req)) (kq_sig req)
    \<and> (\<exists>cfg. get_channel_config (kq_channel req) (m_keyring m) = Some cfg \<and> c_enabled cfg
        \<and> (c_mode cfg = AutoAccept \<or> autotrust_matches lowc h (kq_channel req) (m_keyring m)
           \<or> (\<exists>s. get_incoming_session h (kq_channel req) (m_keyring m) = Inr (Some s) \<and> i_status s = Trusted)))
    \<and> (classify_peer_change (fingerprint cr (kq_pubkey req)) h (m_keyring m) = Inr New
       \<or> classify_peer_change (fingerprint cr (kq_pubkey req)) h (m_keyring m) = Inr Known)"
  using assms
proof (rule keyreq_served)
  fix m1 m2 mode trusted
  assume a: "allow_incoming_keyreq inst h m = (True, m1)"
    and sg: "sig_verify cr (kq_pubkey req) (sig_payload_keyreq (wire_context (kq_channel req))
       (kq_pubkey req) (kq_eph_x25519 req) (kq_nonce req)) (kq_sig req) = Inr ()"
    and md: "effective_channel_mode lowc h (kq_channel req) (m_keyring m1) = Some mode"
    and t: "tofu_upsert_on_keyreq cr now h nick req (fingerprint cr (kq_pubkey req)) m1 = (Inr (), m2)"
    and tr: "trusted_session h (kq_channel req) (m_keyring m2) = Inr trusted" "mode = AutoAccept \<or> trusted"
  from a have kr: "m_keyring m1 = m_keyring m" by (auto simp: allow_incoming_keyreq_def split: prod.splits)
  from t obtain ch p where ch: "classify_peer_change (fingerprint cr (kq_pubkey req)) h (m_keyring m) = Inr ch"
    "ch = New \<or> ch = Known" "m2 = m1\<lparr>m_keyring := upsert_peer p (m_keyring m1)\<rparr>"
    by (rule tofu_Inr) (simp add: kr)
  from sg have "ed_verify cr (kq_pubkey req) (sig_payload_keyreq (wire_context (kq_channel req))
        (kq_pubkey req) (kq_eph_x25519 req) (kq_nonce req)) (kq_sig req)"
    by (simp add: sig_verify_def split: if_splits)
  moreover from md obtain cfg where "get_channel_config (kq_channel req) (m_keyring m) = Some cfg" "c_enabled cfg"
    "mode = AutoAccept \<longrightarrow> c_mode cfg = AutoAccept \<or> autotrust_matches lowc h (kq_channel req) (m_keyring m)"
    by (auto simp: effective_channel_mode_def kr split: option.splits if_splits)
  moreover have "\<exists>s. get_incoming_session h (kq_channel req) (m_keyring m) = Inr (Some s) \<and> i_status s = Trusted"
    if trusted
    using tr(1) that by (auto simp: trusted_session_def ch(3) kr rbind_Inr split: option.splits)
  ultimately show ?thesis using a ch tr(2) by auto
qed

section \<open>The exchange\<close>

lemma prune_fields [simp]:
  "m_identity (prune_expired_pending t m) = m_identity m" "m_rng (prune_expired_pending t m) = m_rng m"
  "m_keyring (prune_expired_pending t m) = m_keyring m" "m_draws (prune_expired_pending t m) = m_draws m"
  "m_limiter (prune_expired_pending t m) = m_limiter m" "m_unresolved (prune_expired_pending t m) = m_unresolved m"
  "m_outbound (prune_expired_pending t m) = m_outbound m" "m_accepts (prune_expired_pending t m) = m_accepts m"
  by (simp_all add: prune_expired_pending_def)

lemma keyreq_built:
  assumes "build_keyreq_for_peer cr t0 ch peer a = (Inr req, a1)"
  obtains n e where "kq_channel req = wire_context ch" "kq_pubkey req = public_bytes cr (m_identity a)"
    "kq_eph_x25519 req = x_public cr e" "m_keyring a1 = m_keyring a" "m_rng a1 = m_rng a"
    "m_pending a1 = hm_put (ch, n) \<lparr>ph_channel = ch, ph_peer_handle = peer,
       ph_eph_x25519_secret = e, ph_created_at = t0\<rparr> (m_pending (prune_expired_pending t0 a))"
  using assms by (auto simp: build_keyreq_for_peer_def Let_def)

lemma only_pending:
  assumes "\<not> has_pending_keyreq ch a" "t2 - ph_created_at ph \<le> PENDING_KEYREQ_TTL_SECS"
    "m_pending a1 = hm_put (ch, n) ph (m_pending (prune_expired_pending t0 a))"
  shows "filter (\<lambda>((c, _), _). c = ch) (m_pending (prune_expired_pending t2 a1)) = [((ch, n), ph)]"
proof -
  have no: "\<forall>x\<in>set (m_pending a). fst (fst x) \<noteq> ch"
    using assms(1) by (auto simp: has_pending_keyreq_def list_ex_iff)
  let ?old = "m_pending (prune_expired_pending t0 a)"
  have sub: "set ?old \<subseteq> set (m_pending a)" by (auto simp: prune_expired_pending_def hm_retain_def)
  then have none: "hm_get ?old (ch, n) = None"
    using no by (fastforce simp: hm_get_def map_of_eq_None_iff)
  have "filter (\<lambda>((c, _), _). c = ch) (filter (\<lambda>(_, ph). t2 - ph_created_at ph \<le> PENDING_KEYREQ_TTL_SECS) ?old) = []"
    using no sub by (fastforce simp: filter_empty_conv)
  then show ?thesis
    by (simp add: prune_expired_pending_def [of t2] hm_retain_def assms(2,3) hm_put_fresh [OF none])
qed

lemma keyrsp_consumed:
  assumes "\<not> has_pending_keyreq ch a" "t2 - ph_created_at ph \<le> PENDING_KEYREQ_TTL_SECS"
    "m_pending a1 = hm_put (ch, n) ph (m_pending (prune_expired_pending t0 a))"
    "kr_channel rsp = ch" "unwrap_key cr (ph_eph_x25519_secret ph) rsp = Some sk"
  obtains a2 where "consume_matching_pending_for_keyrsp cr t2 rsp a1 = (Inr sk, a2)"
    "m_keyring a2 = m_keyring a1"
proof -
  have "filter (\<lambda>((c, _), _). c = kr_channel rsp) (m_pending (prune_expired_pending t2 a1)) = [((ch, n), ph)]"
    unfolding assms(4) by (rule only_pending [OF assms(1-3)])
  with assms(5) show thesis
    by (intro that [of "(prune_expired_pending t2 a1)\<lparr>m_pending
          := hm_del (ch, n) (m_pending (prune_expired_pending t2 a1))\<rparr>"])
      (simp_all add: consume_matching_pending_for_keyrsp_def)
qed

lemma keyrsp_installed:
  assumes "consume_matching_pending_for_keyrsp cr t2 rsp a1 = (Inr sk, a2)" "m_keyring a2 = k"
    "sig_verify cr (kr_pubkey rsp) (sig_payload_keyrsp (wire_context (kr_channel rsp)) (kr_pubkey rsp)
       (kr_ephemeral_pub rsp) (kr_wrap_nonce rsp) (kr_wrap_ct rsp) (kr_nonce rsp)) (kr_sig rsp) = Inr ()"
    "classify_peer_change (fingerprint cr (kr_pubkey rsp)) h k = Inr chg" "chg = New \<or> chg = Known"
    "get_incoming_session h (kr_channel rsp) k = Inr found"
    "\<And>old. found = Some old \<Longrightarrow> i_fingerprint old = fingerprint cr (kr_pubkey rsp)"
    "encode_secret k sk = Inr enc" "box_ok k" "length sk = 32" "sizes_ok cr"
  shows "\<exists>a3. handle_keyrsp cr t2 h rsp a1 = (Inr (), a3)
    \<and> get_incoming_session h (kr_channel rsp) (m_keyring a3) = Inr (Some
        \<lparr>i_handle = h, i_channel = kr_channel rsp, i_fingerprint = fingerprint cr (kr_pubkey rsp),
         i_sk = sk, i_status = Trusted, i_created_at = t2\<rparr>)"
proof -
  let ?p = "\<lparr>p_fingerprint = fingerprint cr (kr_pubkey rsp), p_pubkey = kr_pubkey rsp, p_last_handle = Some h,
      p_last_nick = None, p_first_seen = t2, p_last_seen = t2, p_global_status = Trusted\<rparr>"
  let ?s = "\<lparr>i_handle = h, i_channel = kr_channel rsp, i_fingerprint = fingerprint cr (kr_pubkey rsp),
         i_sk = sk, i_status = Trusted, i_created_at = t2\<rparr>"
  let ?k = "upsert_peer ?p k"
  have enc: "encode_secret ?k (i_sk ?s) = Inr enc" using assms(8) by (simp add: encode_secret_def)
  have box: "box_ok ?k" using assms(9) by (simp add: box_ok_def)
  have g: "get_incoming_session (i_handle ?s) (i_channel ?s) ?k = Inr found" using assms(6) by simp
  have fp: "i_fingerprint old = i_fingerprint ?s" if "found = Some old" for old
    using assms(7) [OF that] by simp
  obtain k' where k': "install_incoming_session_strict cr t2 ?s ?k = Inr k'"
    by (rule install_succeeds [OF enc g fp])
  from install_read [OF k' box] assms(10) fingerprint_length [OF assms(11)]
  have rd: "get_incoming_session h (kr_channel rsp) k' = Inr (Some ?s)" by simp
  have "handle_keyrsp cr t2 h rsp a1 = (Inr (), a2\<lparr>m_keyring := k'\<rparr>)"
    using assms(2-5) k'
    unfolding handle_keyrsp_def
    by (simp add: chain_Inr [of "consume_matching_pending_for_keyrsp cr t2 rsp" a1, OF assms(1)]
        Let_def install_from_keyrsp_def)
  with rd show ?thesis by simp
qed

lemma dh_wrap_key:
  "dh_ok cr \<Longrightarrow> derive_wrap_key cr a (x_public cr b) info = derive_wrap_key cr b (x_public cr a) info"
  unfolding derive_wrap_key_def dh_ok_def by metis

text \<open>C1: The exchange agrees on a key: Alice builds a KEYREQ for a context where none of hers is
  pending, Bob answers it (under his own name for the same wire channel), and Alice processes the
  KEYRSP within 900 seconds.  If she has not seen Bob's identity elsewhere, nor another one at his
  handle, it is accepted, and she then holds, for Bob's handle and that context, a trusted session
  pinned to his fingerprint under exactly the outgoing key Bob stores for the channel.\<close>

theorem handshake_agreement:
  assumes "dh_ok cr" "sig_ok cr" "aead_ok cr" "sizes_ok cr"
    "box_ok (m_keyring a)" "box_ok (m_keyring b)" "rng_ok b"
    "\<not> has_pending_keyreq ch a" "build_keyreq_for_peer cr t0 ch peer a = (Inr req, a1)"
    "handle_keyreq cr lowc t1 inst ha (req\<lparr>kq_channel := chb\<rparr>) b = (Inr (Some rsp), b1)"
    "wire_context chb = wire_context ch" "t2 - t0 \<le> 900"
    "classify_peer_change (own_fingerprint cr b) hb (m_keyring a) = Inr chg" "chg = New \<or> chg = Known"
    "get_incoming_session hb ch (m_keyring a) = Inr found"
    "\<And>old. found = Some old \<Longrightarrow> i_fingerprint old = own_fingerprint cr b"
    "\<And>sk. length sk = 32 \<Longrightarrow> \<exists>enc. encode_secret (m_keyring a) sk = Inr enc"
  shows "\<exists>a2 s own. handle_keyrsp cr t2 hb (rsp\<lparr>kr_channel := ch\<rparr>) a1 = (Inr (), a2)
    \<and> get_incoming_session hb ch (m_keyring a2) = Inr (Some s) \<and> i_status s = Trusted
    \<and> i_fingerprint s = own_fingerprint cr b
    \<and> get_outgoing_session chb (m_keyring b1) = Inr (Some own) \<and> i_sk s = o_sk own"
proof -
  obtain n e where req: "kq_eph_x25519 req = x_public cr e" and kr: "m_keyring a1 = m_keyring a"
    and p: "m_pending a1 = hm_put (ch, n) \<lparr>ph_channel = ch, ph_peer_handle = peer,
       ph_eph_x25519_secret = e, ph_created_at = t0\<rparr> (m_pending (prune_expired_pending t0 a))"
    by (rule keyreq_built [OF assms(9)]) (rule that; assumption)
  obtain b' where base: "same_base b b'" and srv: "serve_keyrsp cr t1 inst ha (req\<lparr>kq_channel := chb\<rparr>) b' = (Inr rsp, b1)"
    using assms(10) unfolding handle_keyreq_def
    by (rule keyreq_served) (rule that, auto dest!: tofu_base simp: same_base_def allow_incoming_keyreq_def split: prod.splits)
  note ok = same_base_ok [OF base]
  have bok: "box_ok (m_keyring b')" "rng_ok b'" using ok assms(6,7) by simp_all
  obtain eb own where r0: "kr_channel rsp = wire_context (kq_channel (req\<lparr>kq_channel := chb\<rparr>))"
    "kr_pubkey rsp = public_bytes cr (m_identity b')" and r3: "kr_ephemeral_pub rsp = x_public cr eb"
    and sg: "sig_verify cr (kr_pubkey rsp) (sig_payload_keyrsp (kr_channel rsp) (kr_pubkey rsp)
       (kr_ephemeral_pub rsp) (kr_wrap_nonce rsp) (kr_wrap_ct rsp) (kr_nonce rsp)) (kr_sig rsp) = Inr ()"
    and own0: "get_outgoing_session (kq_channel (req\<lparr>kq_channel := chb\<rparr>)) (m_keyring b1) = Inr (Some own)"
    and len: "length (o_sk own) = 32"
    and w0: "aead_decrypt cr (derive_wrap_key cr eb (kq_eph_x25519 (req\<lparr>kq_channel := chb\<rparr>))
       (wrap_info (kr_channel rsp))) (kr_wrap_nonce rsp) (wrap_info (kr_channel rsp)) (kr_wrap_ct rsp)
       = Inr (o_sk own)"
    by (rule serve_keyrsp_wraps [OF assms(3,2) bok srv])
  from r0 r3 base assms(11) have r: "kr_channel rsp = wire_context ch"
    "kr_pubkey rsp = public_bytes cr (m_identity b)" "kr_ephemeral_pub rsp = x_public cr eb"
    by (simp_all add: same_base_def)
  from own0 len have own: "get_outgoing_session chb (m_keyring b1) = Inr (Some own)" "length (o_sk own) = 32"
    by simp_all
  from w0 have w: "aead_decrypt cr (derive_wrap_key cr eb (kq_eph_x25519 req)
       (wrap_info (kr_channel rsp))) (kr_wrap_nonce rsp) (wrap_info (kr_channel rsp)) (kr_wrap_ct rsp)
       = Inr (o_sk own)" by simp
  let ?rsp = "rsp\<lparr>kr_channel := ch\<rparr>"
  have u: "unwrap_key cr (ph_eph_x25519_secret \<lparr>ph_channel = ch, ph_peer_handle = peer,
       ph_eph_x25519_secret = e, ph_created_at = t0\<rparr>) ?rsp = Some (o_sk own)"
    using w own(2) dh_wrap_key [OF assms(1), of e eb "wrap_info (wire_context ch)"]
    by (simp add: unwrap_key_def r(1,3) req)
  have ttl: "t2 - ph_created_at \<lparr>ph_channel = ch, ph_peer_handle = peer,
       ph_eph_x25519_secret = e, ph_created_at = t0\<rparr> \<le> PENDING_KEYREQ_TTL_SECS"
    using assms(12) by (simp add: PENDING_KEYREQ_TTL_SECS_def)
  have chn: "kr_channel ?rsp = ch" by simp
  obtain a2 where a2: "consume_matching_pending_for_keyrsp cr t2 ?rsp a1 = (Inr (o_sk own), a2)"
    "m_keyring a2 = m_keyring a1"
    by (rule keyrsp_consumed [OF assms(8) ttl p chn u])
  obtain enc where enc: "encode_secret (m_keyring a) (o_sk own) = Inr enc"
    using assms(17) [OF own(2)] by blast
  have fp: "fingerprint cr (kr_pubkey ?rsp) = own_fingerprint cr b"
    by (simp add: own_fingerprint_def r(2))
  have "\<exists>a3. handle_keyrsp cr t2 hb ?rsp a1 = (Inr (), a3)
    \<and> get_incoming_session hb (kr_channel ?rsp) (m_keyring a3) = Inr (Some
        \<lparr>i_handle = hb, i_channel = kr_channel ?rsp, i_fingerprint = fingerprint cr (kr_pubkey ?rsp),
         i_sk = o_sk own, i_status = Trusted, i_created_at = t2\<rparr>)"
  proof (rule keyrsp_installed [OF a2(1)])
    show "m_keyring a2 = m_keyring a" using a2(2) kr by simp
    show "sig_verify cr (kr_pubkey ?rsp) (sig_payload_keyrsp (wire_context (kr_channel ?rsp)) (kr_pubkey ?rsp)
       (kr_ephemeral_pub ?rsp) (kr_wrap_nonce ?rsp) (kr_wrap_ct ?rsp) (kr_nonce ?rsp)) (kr_sig ?rsp) = Inr ()"
      using sg by (simp add: r(1))
  qed (use assms(4,5,13-16) fp enc own(2) in auto)
  with own(1) fp show ?thesis by auto
qed

lemma reciprocal_total:
  assumes "get_incoming_session h c (m_keyring m) = Inr found"
  shows "\<exists>m'. queue_reciprocal cr now inst h c m = (Inr (), m')"
proof -
  obtain ok m1 where a: "allow_keyreq inst h m = (ok, m1)" by fastforce
  have b: "\<exists>req m2. build_keyreq_for_peer cr now c (Some h) m1 = (Inr req, m2)"
    by (simp add: build_keyreq_for_peer_def Let_def)
  from a have c: "calls (allow_keyreq inst h) m = (Inr ok, m1)" by (simp add: calls_def)
  from b show ?thesis
    unfolding queue_reciprocal_def
    by (auto simp: assms Let_def chain_Inr [of "calls (allow_keyreq inst h)" m, OF c] chain_def [of "build_keyreq_for_peer _ _ _ _"])
qed

lemma incoming_recipient [simp]:
  "get_incoming_session h c (record_outgoing_recipient d g fp now k) = get_incoming_session h c k"
proof -
  let ?k = "record_outgoing_recipient d g fp now k"
  have "incoming_of_row ?k = incoming_of_row k"
    by (rule ext) (rule incoming_of_row_cong, simp add: record_outgoing_recipient_def)
  moreover have "legacy_fallback ?k c = legacy_fallback k c"
    by (rule legacy_fallback_cong) (simp add: record_outgoing_recipient_def)
  ultimately show ?thesis
    by (simp add: get_incoming_session_existing existing_incoming_def record_outgoing_recipient_def
        cong: option.case_cong)
qed

lemma serve_total:
  assumes "aead_ok cr" "get_or_generate_outgoing_key cr now (kq_channel req) m = (Inr sk, m1)"
    "get_incoming_session h (kq_channel req) (m_keyring m1) = Inr found"
  shows "\<exists>rsp m'. serve_keyrsp cr now inst h req m = (Inr rsp, m')"
proof -
  have q: "\<exists>m'. queue_reciprocal cr now inst h (kq_channel req) (m1\<lparr>m_keyring := record_outgoing_recipient
      (kq_channel req) h (fingerprint cr (kq_pubkey req)) now (m_keyring m1), m_draws := i\<rparr>) = (Inr (), m')" for i
    by (rule reciprocal_total [of _ _ _ found]) (simp add: assms(3))
  show ?thesis
    unfolding serve_keyrsp_def
      chain_Inr [of "get_or_generate_outgoing_key cr now (kq_channel req)" m, OF assms(2)]
    using q [of "Suc (Suc (Suc (m_draws m1)))"] aead_encrypt_ok [OF assms(1)]
    by (auto simp: Let_def chain_def [of "queue_reciprocal _ _ _ _ _"])
qed

text \<open>Two concrete clients: Carol, with an empty keyring, and Dave, who accepts automatically on \<open>#x\<close>.\<close>

definition carol :: manager where
  "carol = with_identity keyring_new (replicate 32 (CHR ''c'')) 300 (\<lambda>i n. replicate n (byte_of i))"

definition dave :: manager where
  "dave = with_identity (keyring_new\<lparr>k_config := [\<lparr>cr_channel = ''#x'', cr_enabled = 1,
     cr_mode = ''auto-accept''\<rparr>]\<rparr>) (replicate 32 (CHR ''d'')) 300 (\<lambda>i n. replicate n (byte_of i))"

definition carol_req :: key_req where
  "carol_req = (case build_keyreq_for_peer demo 5 ''#x'' None carol of (Inr req, _) \<Rightarrow> req)"

definition carol_waiting :: manager where
  "carol_waiting = snd (build_keyreq_for_peer demo 5 ''#x'' None carol)"

lemma carol_builds: "build_keyreq_for_peer demo 5 ''#x'' None carol = (Inr carol_req, carol_waiting)"
  unfolding carol_req_def carol_waiting_def
  by (simp add: build_keyreq_for_peer_def Let_def)

lemma carol_req_fields:
  "kq_channel carol_req = ''#x''" "kq_pubkey carol_req = replicate 32 (CHR ''c'')"
  "sig_verify demo (kq_pubkey carol_req) (sig_payload_keyreq (wire_context ''#x'') (kq_pubkey carol_req)
     (kq_eph_x25519 carol_req) (kq_nonce carol_req)) (kq_sig carol_req) = Inr ()"
proof -
  have w: "wire_context ''#x'' = ''#x''" by (simp add: wire_context_def CONTEXT_NET_SEPARATOR_def)
  show "kq_channel carol_req = ''#x''" "kq_pubkey carol_req = replicate 32 (CHR ''c'')"
    "sig_verify demo (kq_pubkey carol_req) (sig_payload_keyreq (wire_context ''#x'') (kq_pubkey carol_req)
     (kq_eph_x25519 carol_req) (kq_nonce carol_req)) (kq_sig carol_req) = Inr ()"
    unfolding carol_req_def
    by (simp_all add: build_keyreq_for_peer_def Let_def carol_def with_identity_def public_bytes_def w
        sig_verify_def sig_sign_def prune_expired_pending_def)
      (simp_all add: demo_def)
qed

lemma carol_req_eq: "carol_req\<lparr>kq_channel := ''#x''\<rparr> = carol_req"
  using carol_req_fields(1) by (metis key_req.surjective key_req.update_convs(1) key_req.select_convs(1))

lemma new_peer: "k_peers k = [] \<Longrightarrow> classify_peer_change fp h k = Inr New"
  by (simp add: classify_peer_change_def get_peer_by_fingerprint_def get_peer_by_handle_def select_key_def)

lemma no_sessions: "k_incoming k = [] \<Longrightarrow> get_incoming_session h c k = Inr None"
  by (simp add: get_incoming_session_existing existing_incoming_def select_key_def split: option.split)

lemma no_outgoing: "k_outgoing k = [] \<Longrightarrow> get_outgoing_session c k = Inr None"
  by (simp add: get_outgoing_session_def with_fallback_def get_outgoing_session_exact_def select_key_def
      split: option.split)

lemma fresh_key:
  assumes "k_outgoing (m_keyring m) = []" "k_secret_key (m_keyring m) = None"
  shows "\<exists>sk m1. get_or_generate_outgoing_key cr now c m = (Inr sk, m1) \<and> k_incoming (m_keyring m1) = k_incoming (m_keyring m)"
  using assms by (simp add: get_or_generate_outgoing_key_def no_outgoing set_outgoing_session_def encode_secret_def)

text \<open>A request from a new identity on a channel that accepts automatically is answered.\<close>

lemma keyreq_answers_new:
  assumes "aead_ok cr" "allow_incoming_keyreq inst h m = (True, m1)"
    "sig_verify cr (kq_pubkey req) (sig_payload_keyreq (wire_context (kq_channel req))
       (kq_pubkey req) (kq_eph_x25519 req) (kq_nonce req)) (kq_sig req) = Inr ()"
    "effective_channel_mode lowc h (kq_channel req) (m_keyring m1) = Some AutoAccept"
    "k_peers (m_keyring m1) = []" "k_incoming (m_keyring m1) = []" "k_outgoing (m_keyring m1) = []"
    "k_secret_key (m_keyring m1) = None"
  shows "\<exists>rsp m'. handle_keyreq cr lowc now inst h req m = (Inr (Some rsp), m')"
proof -
  let ?fp = "fingerprint cr (kq_pubkey req)"
  let ?p = "\<lparr>p_fingerprint = ?fp, p_pubkey = kq_pubkey req, p_last_handle = Some h, p_last_nick = None,
      p_first_seen = now, p_last_seen = now, p_global_status = Pending\<rparr>"
  let ?m2 = "m1\<lparr>m_keyring := upsert_peer ?p (m_keyring m1)\<rparr>"
  from assms(2) have c: "calls (allow_incoming_keyreq inst h) m = (Inr True, m1)" by (simp add: calls_def)
  have t: "tofu_upsert_on_keyreq cr now h None req ?fp m1 = (Inr (), ?m2)"
    by (simp add: tofu_upsert_on_keyreq_def new_peer assms(5))
  have i: "k_incoming (upsert_peer ?p (m_keyring m1)) = []" "k_outgoing (upsert_peer ?p (m_keyring m1)) = []"
    using assms(6,7) by (simp_all add: upsert_peer_def)
  have tr: "trusted_session h (kq_channel req) (upsert_peer ?p (m_keyring m1)) = Inr False"
    by (simp add: trusted_session_def no_sessions [OF i(1)] no_sessions [OF assms(6)])
  obtain sk m3 where g: "get_or_generate_outgoing_key cr now (kq_channel req) ?m2 = (Inr sk, m3)"
    "k_incoming (m_keyring m3) = []"
    using fresh_key [of ?m2 cr now "kq_channel req"] i assms(8) by auto
  obtain rsp m' where s: "serve_keyrsp cr now inst h req ?m2 = (Inr rsp, m')"
    using serve_total [OF assms(1) g(1) no_sessions [OF g(2)]] by blast
  have "chain (tofu_upsert_on_keyreq cr now h None req ?fp) f m1 = f () ?m2"
    for f :: "unit \<Rightarrow> (manager, key_rsp option) op"
    by (rule chain_Inr [of "tofu_upsert_on_keyreq cr now h None req ?fp" m1, OF t])
  moreover have "chain (serve_keyrsp cr now inst h req) f ?m2 = f rsp m'"
    for f :: "key_rsp \<Rightarrow> (manager, key_rsp option) op"
    by (rule chain_Inr [of "serve_keyrsp cr now inst h req" ?m2, OF s])
  ultimately have "handle_keyreq cr lowc now inst h req m = (Inr (Some rsp), m')"
    unfolding handle_keyreq_def handle_keyreq_with_nick_def
      chain_Inr [of "calls (allow_incoming_keyreq inst h)" m, OF c]
    using assms(3,4) tr by (simp add: Let_def)
  then show ?thesis by blast
qed

lemma dave_answers:
  "\<exists>rsp d1. handle_keyreq demo lowc 6 0 ''~c@h'' (carol_req\<lparr>kq_channel := ''#x''\<rparr>) dave = (Inr (Some rsp), d1)"
  unfolding carol_req_eq
proof (rule keyreq_answers_new)
  let ?d = "snd (allow_incoming_keyreq 0 ''~c@h'' dave)"
  have kr: "m_keyring ?d = m_keyring dave" by (simp add: allow_incoming_keyreq_def split: prod.split)
  show "allow_incoming_keyreq 0 ''~c@h'' dave = (True, ?d)"
    by (simp add: allow_incoming_keyreq_def allow_incoming_def dave_def with_identity_def limiter_new_def
        incoming_step_def bucket_of_def INCOMING_MAX_PER_WINDOW_def)
  show "sig_verify demo (kq_pubkey carol_req) (sig_payload_keyreq (wire_context (kq_channel carol_req))
       (kq_pubkey carol_req) (kq_eph_x25519 carol_req) (kq_nonce carol_req)) (kq_sig carol_req) = Inr ()"
    using carol_req_fields by simp
  show "effective_channel_mode lowc ''~c@h'' (kq_channel carol_req) (m_keyring ?d) = Some AutoAccept"
    unfolding kr
    by (simp add: carol_req_fields(1) effective_channel_mode_def dave_def with_identity_def keyring_new_def
        get_channel_config_def get_channel_config_exact_def select_key_def config_of_row_def mode_parse_def)
qed (simp_all add: allow_incoming_keyreq_def dave_def with_identity_def keyring_new_def split: prod.split)

theorem key_release_policy_witness:
  "\<exists>rsp d1. handle_keyreq_with_nick demo (\<lambda>c. [c]) 6 0 ''~c@h'' None (carol_req\<lparr>kq_channel := ''#x''\<rparr>) dave
      = (Inr (Some rsp), d1) \<and> fst (allow_incoming_keyreq 0 ''~c@h'' dave)"
proof -
  obtain rsp d1 where r: "handle_keyreq_with_nick demo (\<lambda>c. [c]) 6 0 ''~c@h'' None
      (carol_req\<lparr>kq_channel := ''#x''\<rparr>) dave = (Inr (Some rsp), d1)"
    using dave_answers [of "\<lambda>c. [c]"] unfolding handle_keyreq_def by blast
  from key_release_policy [OF r] r show ?thesis by blast
qed

theorem handshake_agreement_witness:
  "\<exists>rsp d1 c2 s own. handle_keyreq demo (\<lambda>c. [c]) 6 0 ''~c@h'' (carol_req\<lparr>kq_channel := ''#x''\<rparr>) dave
      = (Inr (Some rsp), d1)
    \<and> handle_keyrsp demo 7 ''~d@h'' (rsp\<lparr>kr_channel := ''#x''\<rparr>) carol_waiting = (Inr (), c2)
    \<and> get_incoming_session ''~d@h'' ''#x'' (m_keyring c2) = Inr (Some s) \<and> i_status s = Trusted
    \<and> get_outgoing_session ''#x'' (m_keyring d1) = Inr (Some own) \<and> i_sk s = o_sk own"
proof -
  obtain rsp d1 where r: "handle_keyreq demo (\<lambda>c. [c]) 6 0 ''~c@h'' (carol_req\<lparr>kq_channel := ''#x''\<rparr>) dave
      = (Inr (Some rsp), d1)" using dave_answers by blast
  have 1: "box_ok (m_keyring carol)" "box_ok (m_keyring dave)" "rng_ok dave" "\<not> has_pending_keyreq ''#x'' carol"
    by (simp_all add: box_ok_def rng_ok_def carol_def dave_def with_identity_def keyring_new_def
        has_pending_keyreq_def)
  have 2: "classify_peer_change (own_fingerprint demo dave) ''~d@h'' (m_keyring carol) = Inr New"
    by (rule new_peer) (simp add: carol_def with_identity_def keyring_new_def)
  have 3: "get_incoming_session ''~d@h'' ''#x'' (m_keyring carol) = Inr None"
    by (rule no_sessions) (simp add: carol_def with_identity_def keyring_new_def)
  have 4: "\<exists>enc. encode_secret (m_keyring carol) sk = Inr enc" for sk
    by (simp add: encode_secret_def carol_def with_identity_def keyring_new_def)
  show ?thesis
    using handshake_agreement [OF demo_crypto 1 carol_builds r refl, of 7 "''~d@h''" New None] 2 3 4 r
    by fastforce
qed

end
