(* ===== verification/E2e_Rekey_Facts.thy ===== *)
theory E2e_Rekey_Facts
  imports E2e_Exchange_Facts
begin

text \<open>
  What a REKEY delivers, and what the three handlers leave alone: messages that do not verify,
  identities the classifier refuses, replays.
\<close>

section \<open>Delivery\<close>

text \<open>What \<open>handle_rekey\<close> does with an authentic message of a known identity.\<close>

lemma rekey_known:
  assumes "sig_verify cr (rk_pubkey rk) (sig_payload_keyrekey (wire_context (rk_channel rk))
      (rk_pubkey rk) (rk_eph_pub rk) (rk_wrap_nonce rk) (rk_wrap_ct rk) (rk_nonce rk)) (rk_sig rk) = Inr ()"
    "classify_peer_change (fingerprint cr (rk_pubkey rk)) h (m_keyring m) = Inr Known"
    "record_rekey_nonce (fingerprint cr (rk_pubkey rk)) (rk_channel rk) (rk_nonce rk) now (m_keyring m) = (True, k)"
    "aead_decrypt cr (hkdf cr ''RPE2E01-WRAP'' (x_dh cr (ed_seed_to_x cr (m_identity m)) (rk_eph_pub rk))
        (rekey_info (wire_context (rk_channel rk)))) (rk_wrap_nonce rk)
        (rekey_info (wire_context (rk_channel rk))) (rk_wrap_ct rk) = Inr sk"
    "length sk = 32"
    "install_incoming_session_strict cr now \<lparr>i_handle = h, i_channel = rk_channel rk,
       i_fingerprint = fingerprint cr (rk_pubkey rk), i_sk = sk, i_status = Trusted, i_created_at = now\<rparr> k = Inr k'"
  shows "handle_rekey cr now h rk m = (Inr (), m\<lparr>m_keyring := k'\<rparr>)"
proof -
  have c: "kr_call (record_rekey_nonce (fingerprint cr (rk_pubkey rk)) (rk_channel rk) (rk_nonce rk) now) m
      = (Inr True, m\<lparr>m_keyring := k\<rparr>)" using assms(3) by simp
  show ?thesis
    using assms(1,2,4-6)
    by (simp add: handle_rekey_def Let_def
        chain_Inr [of "kr_call (record_rekey_nonce (fingerprint cr (rk_pubkey rk)) (rk_channel rk) (rk_nonce rk) now)" m, OF c])
qed

lemma record_rekey_secret:
  "record_rekey_nonce fp c n now k = (b, k') \<Longrightarrow> k_secret_key k' = k_secret_key k
     \<and> get_incoming_session h d k' = get_incoming_session h d k \<and> k_incoming k' = k_incoming k
     \<and> k_peers k' = k_peers k"
proof -
  assume "record_rekey_nonce fp c n now k = (b, k')"
  then have k': "k' = k\<lparr>k_rekeys := k_rekeys k'\<rparr>"
    by (auto simp: record_rekey_nonce_def Let_def)
  have "incoming_of_row k' = incoming_of_row k"
    by (rule ext) (rule incoming_of_row_cong, subst k', simp)
  moreover have "legacy_fallback k' d = legacy_fallback k d"
    by (rule legacy_fallback_cong) (subst k', simp)
  moreover have "k_incoming k' = k_incoming k" by (subst k') simp
  moreover have "k_secret_key k' = k_secret_key k" "k_peers k' = k_peers k" by (subst k', simp)+
  ultimately show ?thesis
    by (simp add: get_incoming_session_existing existing_incoming_def cong: option.case_cong)
qed

lemma rekey_accepted:
  assumes "dh_ok cr" "sig_ok cr" "aead_ok cr" "sizes_ok cr" "box_ok (m_keyring b)"
    "p_pubkey p = public_bytes cr (m_identity b)" "length sk = 32"
    "build_rekey_for_peer cr c p sk a = (Inr rk, a')" "wire_context cb = wire_context c"
    "classify_peer_change (own_fingerprint cr a) h (m_keyring b) = Inr Known"
    "fst (record_rekey_nonce (own_fingerprint cr a) cb (rk_nonce rk) now (m_keyring b))"
    "get_incoming_session h cb (m_keyring b) = Inr found"
    "\<And>old. found = Some old \<Longrightarrow> i_fingerprint old = own_fingerprint cr a"
    "encode_secret (m_keyring b) sk = Inr enc"
  shows "\<exists>b'. handle_rekey cr now h (rk\<lparr>rk_channel := cb\<rparr>) b = (Inr (), b')
    \<and> get_incoming_session h cb (m_keyring b') = Inr (Some \<lparr>i_handle = h, i_channel = cb,
        i_fingerprint = own_fingerprint cr a, i_sk = sk, i_status = Trusted, i_created_at = now\<rparr>)"
proof -
  let ?rk = "rk\<lparr>rk_channel := cb\<rparr>"
  let ?s = "\<lparr>i_handle = h, i_channel = cb, i_fingerprint = own_fingerprint cr a, i_sk = sk,
      i_status = Trusted, i_created_at = now\<rparr>"
  obtain e x where x: "ed_pub_to_x cr (p_pubkey p) = Some x" and r: "rk_channel rk = wire_context c"
    "rk_pubkey rk = public_bytes cr (m_identity a)" "rk_eph_pub rk = x_public cr e"
    and w: "aead_decrypt cr (hkdf cr ''RPE2E01-WRAP'' (x_dh cr e x) (rekey_info (wire_context c)))
       (rk_wrap_nonce rk) (rekey_info (wire_context c)) (rk_wrap_ct rk) = Inr sk"
    and sg: "rk_sig rk = sig_sign cr (m_identity a) (sig_payload_keyrekey (wire_context c) (rk_pubkey rk)
       (rk_eph_pub rk) (rk_wrap_nonce rk) (rk_wrap_ct rk) (rk_nonce rk))"
    by (rule rekey_built [OF assms(3,8)])
  have "x = x_public cr (ed_seed_to_x cr (m_identity b))"
    using x assms(1,6) by (simp add: dh_ok_def public_bytes_def)
  then have dh: "x_dh cr (ed_seed_to_x cr (m_identity b)) (x_public cr e) = x_dh cr e x"
    using assms(1) unfolding dh_ok_def by metis
  have fp: "fingerprint cr (rk_pubkey ?rk) = own_fingerprint cr a" by (simp add: r(2) own_fingerprint_def)
  obtain k where k: "record_rekey_nonce (own_fingerprint cr a) cb (rk_nonce rk) now (m_keyring b) = (True, k)"
    using assms(11) by (metis prod.collapse)
  note same = record_rekey_secret [OF k]
  have enc: "encode_secret k (i_sk ?s) = Inr enc" "box_ok k"
    using assms(5,14) same by (simp_all add: encode_secret_def box_ok_def)
  have g: "get_incoming_session (i_handle ?s) (i_channel ?s) k = Inr found" using assms(12) same by simp
  have pin: "i_fingerprint old = i_fingerprint ?s" if "found = Some old" for old
    using assms(13) [OF that] by simp
  obtain k' where k': "install_incoming_session_strict cr now ?s k = Inr k'"
    by (rule install_succeeds [OF enc(1) g pin])
  have len: "length (i_sk ?s) = 32" "length (i_fingerprint ?s) = 16"
    using assms(7) fingerprint_length [OF assms(4)] by (simp_all add: own_fingerprint_def)
  have "handle_rekey cr now h ?rk b = (Inr (), b\<lparr>m_keyring := k'\<rparr>)"
  proof (rule rekey_known)
    show "sig_verify cr (rk_pubkey ?rk) (sig_payload_keyrekey (wire_context (rk_channel ?rk))
      (rk_pubkey ?rk) (rk_eph_pub ?rk) (rk_wrap_nonce ?rk) (rk_wrap_ct ?rk) (rk_nonce ?rk)) (rk_sig ?rk) = Inr ()"
      using assms(2,9) sg by (simp add: sig_verify_def sig_ok_def sig_sign_def public_bytes_def r(2))
    show "aead_decrypt cr (hkdf cr ''RPE2E01-WRAP'' (x_dh cr (ed_seed_to_x cr (m_identity b)) (rk_eph_pub ?rk))
        (rekey_info (wire_context (rk_channel ?rk)))) (rk_wrap_nonce ?rk)
        (rekey_info (wire_context (rk_channel ?rk))) (rk_wrap_ct ?rk) = Inr sk"
      using w dh assms(9) by (simp add: r(3))
  qed (use fp k k' assms(7,10) in simp_all)
  then show ?thesis
    using install_read [OF k' enc(2) len] by (intro exI [of _ "b\<lparr>m_keyring := k'\<rparr>"]) simp
qed

text \<open>C7: Rotation reaches the peer: a REKEY that Alice builds for Bob's identity key, handed to Bob under
  his own name for the wire channel, is accepted when he knows Alice at the handle it came from, has
  not consumed its nonce, and has no other identity pinned there; he then holds exactly the rotated
  key as a trusted session pinned to Alice's fingerprint.\<close>

theorem rekey_delivers:
  assumes "dh_ok cr" "sig_ok cr" "aead_ok cr" "sizes_ok cr" "box_ok (m_keyring b)"
    "p_pubkey p = public_bytes cr (m_identity b)" "length sk = 32"
    "build_rekey_for_peer cr c p sk a = (Inr rk, a')" "wire_context cb = wire_context c"
    "classify_peer_change (own_fingerprint cr a) h (m_keyring b) = Inr Known"
    "fst (record_rekey_nonce (own_fingerprint cr a) cb (rk_nonce rk) now (m_keyring b))"
    "get_incoming_session h cb (m_keyring b) = Inr found"
    "\<And>old. found = Some old \<Longrightarrow> i_fingerprint old = own_fingerprint cr a"
    "encode_secret (m_keyring b) sk = Inr enc"
  shows "\<exists>b'. handle_rekey cr now h (rk\<lparr>rk_channel := cb\<rparr>) b = (Inr (), b')
    \<and> get_incoming_session h cb (m_keyring b') = Inr (Some \<lparr>i_handle = h, i_channel = cb,
        i_fingerprint = own_fingerprint cr a, i_sk = sk, i_status = Trusted, i_created_at = now\<rparr>)"
  using assms by (rule rekey_accepted)

definition peer_carol :: peer_record where
  "peer_carol = \<lparr>p_fingerprint = own_fingerprint demo carol, p_pubkey = replicate 32 (CHR ''c''),
     p_last_handle = Some ''~c@h'', p_last_nick = None, p_first_seen = 1, p_last_seen = 1,
     p_global_status = Trusted\<rparr>"

definition erin :: manager where
  "erin = with_identity (keyring_new\<lparr>k_peers := [peer_to_row peer_carol]\<rparr>)
     (replicate 32 (CHR ''e'')) 300 (\<lambda>i n. replicate n (byte_of i))"

definition peer_erin :: peer_record where
  "peer_erin = peer_bob\<lparr>p_pubkey := public_bytes demo (m_identity erin)\<rparr>"

lemma erin_knows_carol: "classify_peer_change (own_fingerprint demo carol) ''~c@h'' (m_keyring erin) = Inr Known"
  by (simp add: classify_peer_change_def erin_def with_identity_def get_peer_by_fingerprint_def
      select_key_def peer_to_row_def peer_of_row_def peer_carol_def status_parse_def)

lemma carol_rekeys:
  "\<exists>rk c'. build_rekey_for_peer demo ''#x'' peer_erin (replicate 32 (CHR ''k'')) carol = (Inr rk, c')"
proof -
  have "ed_pub_to_x demo (p_pubkey peer_erin) = Some (p_pubkey peer_erin)" by (simp add: demo_def)
  from build_rekey_ok [OF demo_crypto(3) this, of "''#x''" "replicate 32 (CHR ''k'')" carol]
  show ?thesis by blast
qed

theorem rekey_delivers_witness:
  "\<exists>rk b'. handle_rekey demo 9 ''~c@h'' (rk\<lparr>rk_channel := ''#x''\<rparr>) erin = (Inr (), b')
    \<and> get_incoming_session ''~c@h'' ''#x'' (m_keyring b') = Inr (Some \<lparr>i_handle = ''~c@h'', i_channel = ''#x'',
        i_fingerprint = own_fingerprint demo carol, i_sk = replicate 32 (CHR ''k''), i_status = Trusted,
        i_created_at = 9\<rparr>)"
proof -
  obtain rk c' where r: "build_rekey_for_peer demo ''#x'' peer_erin (replicate 32 (CHR ''k'')) carol = (Inr rk, c')"
    using carol_rekeys by blast
  have 1: "box_ok (m_keyring erin)" "p_pubkey peer_erin = public_bytes demo (m_identity erin)"
    "length (replicate 32 (CHR ''k'')) = 32"
    by (simp_all add: box_ok_def erin_def with_identity_def keyring_new_def peer_erin_def)
  have 2: "fst (record_rekey_nonce (own_fingerprint demo carol) ''#x'' (rk_nonce rk) 9 (m_keyring erin))"
    by (simp add: record_rekey_nonce_def erin_def with_identity_def keyring_new_def Let_def)
  have 3: "get_incoming_session ''~c@h'' ''#x'' (m_keyring erin) = Inr None"
    by (rule no_sessions) (simp add: erin_def with_identity_def keyring_new_def)
  have 4: "encode_secret (m_keyring erin) (replicate 32 (CHR ''k'')) = Inr (replicate 32 (CHR ''k''))"
    by (simp add: encode_secret_def erin_def with_identity_def keyring_new_def)
  show ?thesis
    using rekey_delivers [OF demo_crypto 1 r refl erin_knows_carol 2 3 _ 4] by auto
qed

section \<open>Refusals\<close>

lemma refuse_keyring: "m_keyring (snd (refuse_change cr h c ch pk m)) = m_keyring m"
  by (simp add: refuse_change_def)

lemma refuse_Inl: "\<exists>e. fst (refuse_change cr h c ch pk m) = Inl e"
  by (simp add: refuse_change_def)

lemma consume_keyring: "m_keyring (snd (consume_matching_pending_for_keyrsp cr now rsp m)) = m_keyring m"
  by (auto simp: consume_matching_pending_for_keyrsp_def split: option.split)

lemma allow_incoming_one:
  "allow_incoming inst h l = (ok, l') \<Longrightarrow> last_sent l' = last_sent l \<and> (\<forall>j. j \<noteq> h \<longrightarrow> hm_get (incoming l') j = hm_get (incoming l) j)
     \<and> hm_get (incoming l') h = Some (snd (incoming_step inst (bucket_of l h)))"
  by (auto simp: allow_incoming_def rmap split: prod.splits)

text \<open>C9: A message whose signature does not verify under the key it carries changes nothing: a REKEY
  and a KEYRSP leave the whole state as it was, a KEYREQ counts in the sender's bucket of the limiter of incoming
  requests and leaves every other bucket, the limiter of outgoing ones and the rest of the state alone,
  and all three fail.\<close>

theorem forged_messages_change_nothing:
  shows "(\<not> ed_verify cr (rk_pubkey rk) (sig_payload_keyrekey (wire_context (rk_channel rk)) (rk_pubkey rk)
            (rk_eph_pub rk) (rk_wrap_nonce rk) (rk_wrap_ct rk) (rk_nonce rk)) (rk_sig rk) \<longrightarrow>
          handle_rekey cr now h rk m = (Inl (Crypto ''signature verify''), m))
    \<and> (\<not> ed_verify cr (kr_pubkey rsp) (sig_payload_keyrsp (wire_context (kr_channel rsp)) (kr_pubkey rsp)
            (kr_ephemeral_pub rsp) (kr_wrap_nonce rsp) (kr_wrap_ct rsp) (kr_nonce rsp)) (kr_sig rsp) \<longrightarrow>
          handle_keyrsp cr now h rsp m = (Inl (Crypto ''signature verify''), m))
    \<and> (\<not> ed_verify cr (kq_pubkey req) (sig_payload_keyreq (wire_context (kq_channel req)) (kq_pubkey req)
            (kq_eph_x25519 req) (kq_nonce req)) (kq_sig req) \<longrightarrow>
          (\<exists>e l. handle_keyreq cr lowc now inst h req m = (Inl e, m\<lparr>m_limiter := l\<rparr>)
             \<and> last_sent l = last_sent (m_limiter m)
             \<and> (\<forall>j. j \<noteq> h \<longrightarrow> hm_get (incoming l) j = hm_get (incoming (m_limiter m)) j)
             \<and> hm_get (incoming l) h = Some (snd (incoming_step inst (bucket_of (m_limiter m) h)))))"
proof (intro conjI impI)
  assume bad: "\<not> ed_verify cr (kq_pubkey req) (sig_payload_keyreq (wire_context (kq_channel req)) (kq_pubkey req)
            (kq_eph_x25519 req) (kq_nonce req)) (kq_sig req)"
  obtain ok l where l: "allow_incoming inst h (m_limiter m) = (ok, l)" by fastforce
  have "\<exists>e. handle_keyreq cr lowc now inst h req m = (Inl e, m\<lparr>m_limiter := l\<rparr>)"
    using bad l by (auto simp: handle_keyreq_def handle_keyreq_with_nick_def sig_verify_def chain_def calls_def
        allow_incoming_keyreq_def split: prod.split)
  with allow_incoming_one [OF l] show "\<exists>e l. handle_keyreq cr lowc now inst h req m = (Inl e, m\<lparr>m_limiter := l\<rparr>)
      \<and> last_sent l = last_sent (m_limiter m)
      \<and> (\<forall>j. j \<noteq> h \<longrightarrow> hm_get (incoming l) j = hm_get (incoming (m_limiter m)) j)
      \<and> hm_get (incoming l) h = Some (snd (incoming_step inst (bucket_of (m_limiter m) h)))"
    by blast
qed (simp_all add: handle_rekey_def handle_keyrsp_def sig_verify_def)

theorem forged_messages_change_nothing_witness:
  "handle_rekey demo 9 ''~c@h'' \<lparr>rk_channel = ''#x'', rk_pubkey = ''p'', rk_eph_pub = [], rk_wrap_nonce = [],
      rk_wrap_ct = [], rk_nonce = [], rk_sig = ''bad''\<rparr> erin = (Inl (Crypto ''signature verify''), erin)
   \<and> (\<exists>e l. handle_keyreq demo (\<lambda>c. [c]) 9 7 ''~c@h'' \<lparr>kq_channel = ''#x'', kq_pubkey = ''p'', kq_eph_x25519 = [],
      kq_nonce = [], kq_sig = ''bad''\<rparr> erin = (Inl e, erin\<lparr>m_limiter := l\<rparr>)
      \<and> hm_get (incoming l) ''~c@h'' = Some \<lparr>recent = [7], backoff_until = None\<rparr>)"
proof -
  have bad: "\<not> ed_verify demo ''p'' msg ''bad''" for msg by (simp add: demo_def pad_def)
  have b: "snd (incoming_step 7 (bucket_of (m_limiter erin) ''~c@h'')) = \<lparr>recent = [7], backoff_until = None\<rparr>"
    by (simp add: erin_def with_identity_def limiter_new_def bucket_of_def hm_get_def incoming_step_def Let_def
        INCOMING_MAX_PER_WINDOW_def)
  note f = forged_messages_change_nothing [of demo "\<lparr>rk_channel = ''#x'', rk_pubkey = ''p'', rk_eph_pub = [],
      rk_wrap_nonce = [], rk_wrap_ct = [], rk_nonce = [], rk_sig = ''bad''\<rparr>" 9 "''~c@h''" erin _
      "\<lparr>kq_channel = ''#x'', kq_pubkey = ''p'', kq_eph_x25519 = [], kq_nonce = [], kq_sig = ''bad''\<rparr>" "\<lambda>c. [c]" 7]
  show ?thesis using conjunct1 [OF f] conjunct2 [OF conjunct2 [OF f]] bad unfolding b by simp blast
qed

text \<open>An identity to refuse: the key is stored as revoked or under another handle, or the handle is bound to
  another key.\<close>

lemma refused_class:
  assumes "(\<exists>p. peer_at fp k = Some p \<and> (p_global_status p = Revoked \<or> p_last_handle p \<noteq> Some h))
      \<or> (peer_at fp k = None \<and> peer_by_handle h k \<noteq> None)" "classify_peer_change fp h k = Inr ch"
  shows "ch \<noteq> New \<and> ch \<noteq> Known"
  using assms classify_New [of fp h k] classify_Known [of fp h k] by auto

lemma refused_rekey:
  assumes "\<And>ch. classify_peer_change (fingerprint cr (rk_pubkey rk)) h (m_keyring m) = Inr ch \<Longrightarrow> ch \<noteq> New \<and> ch \<noteq> Known"
  shows "(\<exists>e. fst (handle_rekey cr now h rk m) = Inl e) \<and> m_keyring (snd (handle_rekey cr now h rk m)) = m_keyring m"
  using assms by (simp add: handle_rekey_def Let_def refuse_keyring refuse_Inl split: sum.split)

lemma refused_keyrsp:
  assumes "\<And>ch. classify_peer_change (fingerprint cr (kr_pubkey rsp)) h (m_keyring m) = Inr ch \<Longrightarrow> ch \<noteq> New \<and> ch \<noteq> Known"
  shows "(\<exists>e. fst (handle_keyrsp cr now h rsp m) = Inl e) \<and> m_keyring (snd (handle_keyrsp cr now h rsp m)) = m_keyring m"
proof -
  obtain r m1 where c: "consume_matching_pending_for_keyrsp cr now rsp m = (r, m1)" by fastforce
  with consume_keyring [of cr now rsp m] have k: "m_keyring m1 = m_keyring m" by simp
  from c k assms show ?thesis
    by (cases r) (simp_all add: handle_keyrsp_def chain_def [of "consume_matching_pending_for_keyrsp _ _ _"]
        refuse_keyring refuse_Inl Let_def split: sum.split)
qed

lemma refused_keyreq:
  assumes "\<And>ch. classify_peer_change (fingerprint cr (kq_pubkey req)) h (m_keyring m) = Inr ch \<Longrightarrow> ch \<noteq> New \<and> ch \<noteq> Known"
  shows "(\<forall>rsp'. fst (handle_keyreq cr lowc now inst h req m) \<noteq> Inr (Some rsp'))
    \<and> m_keyring (snd (handle_keyreq cr lowc now inst h req m)) = m_keyring m"
proof -
  let ?fp = "fingerprint cr (kq_pubkey req)"
  obtain ok m1 where a: "allow_incoming_keyreq inst h m = (ok, m1)" by fastforce
  then have c: "calls (allow_incoming_keyreq inst h) m = (Inr ok, m1)" and k: "m_keyring m1 = m_keyring m"
    by (auto simp: calls_def allow_incoming_keyreq_def split: prod.splits)
  from k assms have t: "\<exists>e m2. tofu_upsert_on_keyreq cr now h None req ?fp m1 = (Inl e, m2) \<and> m_keyring m2 = m_keyring m"
    by (cases "classify_peer_change ?fp h (m_keyring m)") (simp_all add: tofu_upsert_on_keyreq_def refuse_change_def)
  show ?thesis
    using t k
    unfolding handle_keyreq_def handle_keyreq_with_nick_def
      chain_Inr [of "calls (allow_incoming_keyreq inst h)" m, OF c]
    by (auto simp: Let_def chain_def [of "tofu_upsert_on_keyreq _ _ _ _ _ _"] split: option.split sum.split)
qed

text \<open>C8: An identity that must not be trusted is refused everywhere: if the sender's key is stored as revoked, at
  whatever handle it comes, or under another handle, or the key is unknown and the handle bound to another one, then
  a REKEY, a KEYRSP and a KEYREQ from it all fail to change the keyring, no KEYRSP is produced, and the
  first two fail.\<close>

theorem refused_identity_keeps_keyring:
  assumes "(\<exists>p. peer_at fp (m_keyring m) = Some p \<and> (p_global_status p = Revoked \<or> p_last_handle p \<noteq> Some h))
      \<or> (peer_at fp (m_keyring m) = None \<and> peer_by_handle h (m_keyring m) \<noteq> None)"
  shows "(fp = fingerprint cr (rk_pubkey rk) \<longrightarrow> (\<exists>e. fst (handle_rekey cr now h rk m) = Inl e)
          \<and> m_keyring (snd (handle_rekey cr now h rk m)) = m_keyring m)
    \<and> (fp = fingerprint cr (kr_pubkey rsp) \<longrightarrow> (\<exists>e. fst (handle_keyrsp cr now h rsp m) = Inl e)
          \<and> m_keyring (snd (handle_keyrsp cr now h rsp m)) = m_keyring m)
    \<and> (fp = fingerprint cr (kq_pubkey req) \<longrightarrow>
          (\<forall>rsp'. fst (handle_keyreq cr lowc now inst h req m) \<noteq> Inr (Some rsp'))
          \<and> m_keyring (snd (handle_keyreq cr lowc now inst h req m)) = m_keyring m)"
proof -
  have r: "\<And>ch. classify_peer_change fp h (m_keyring m) = Inr ch \<Longrightarrow> ch \<noteq> New \<and> ch \<noteq> Known"
    using refused_class [OF assms] by blast
  show ?thesis
    using refused_rekey [of cr rk h m now] refused_keyrsp [of cr rsp h m now] refused_keyreq [of cr req h m lowc now inst] r
    by simp
qed

definition rekey_carol :: key_rekey where
  "rekey_carol = \<lparr>rk_channel = ''#x'', rk_pubkey = replicate 32 (CHR ''c''), rk_eph_pub = [], rk_wrap_nonce = [],
     rk_wrap_ct = [], rk_nonce = [], rk_sig = pad 64 (replicate 32 (CHR ''c''))\<rparr>"

definition erin_revoked :: manager where
  "erin_revoked = erin\<lparr>m_keyring := (m_keyring erin)\<lparr>k_peers := [peer_to_row (peer_carol\<lparr>p_global_status := Revoked\<rparr>)]\<rparr>\<rparr>"

text \<open>A stranger at another handle, and a revoked peer at its own.\<close>

theorem refused_identity_keeps_keyring_witness:
  "(\<exists>e. fst (handle_rekey demo 9 ''~evil@h'' rekey_carol erin) = Inl e)
    \<and> m_keyring (snd (handle_rekey demo 9 ''~evil@h'' rekey_carol erin)) = m_keyring erin
    \<and> (\<exists>e. fst (handle_rekey demo 9 ''~c@h'' rekey_carol erin_revoked) = Inl e)
    \<and> m_keyring (snd (handle_rekey demo 9 ''~c@h'' rekey_carol erin_revoked)) = m_keyring erin_revoked"
proof -
  let ?fp = "own_fingerprint demo carol"
  have p: "peer_at ?fp (m_keyring erin) = Some peer_carol" "p_last_handle peer_carol \<noteq> Some ''~evil@h''"
    "peer_at ?fp (m_keyring erin_revoked) = Some (peer_carol\<lparr>p_global_status := Revoked\<rparr>)"
    by (simp_all add: peer_at_def erin_def erin_revoked_def with_identity_def select_key_def peer_to_row_def peer_of_row_def
        peer_carol_def status_parse_def)
  have fp: "?fp = fingerprint demo (rk_pubkey rekey_carol)"
    by (simp add: own_fingerprint_def public_bytes_def carol_def with_identity_def rekey_carol_def)
      (simp add: demo_def)
  show ?thesis
    using refused_identity_keeps_keyring [of ?fp erin "''~evil@h''" demo rekey_carol 9]
      refused_identity_keeps_keyring [of ?fp erin_revoked "''~c@h''" demo rekey_carol 9] p fp by simp
qed

end
