(* ===== verification/E2e_Commands_Facts.thy ===== *)
theory E2e_Commands_Facts
  imports E2e_Rekey_Facts
begin

text \<open>
  What \<open>/e2e accept\<close>, \<open>decline\<close>, \<open>revoke\<close> and \<open>unrevoke\<close> achieve, and where they fall short of the
  documentation.
\<close>

section \<open>Changing a status\<close>

lemma existing_update:
  "existing_incoming (update_incoming_status h c st k) h c =
     map_option (\<lambda>r. r\<lparr>nr_status := status_as_str st\<rparr>) (existing_incoming k h c)"
proof -
  have leg: "legacy_fallback (update_incoming_status h c st k) c = legacy_fallback k c"
    by (rule legacy_fallback_cong) (simp add: update_incoming_status_def)
  have wire: "legacy_fallback k c = Some w \<Longrightarrow> w = wire_context c" for w
    by (auto simp: legacy_fallback_def legacy_wire_fallback_def Let_def split: option.splits if_splits)
  have sel: "select_key in_key (h, d) (k_incoming (update_incoming_status h c st k))
      = map_option (\<lambda>r. r\<lparr>nr_status := status_as_str st\<rparr>) (select_key in_key (h, d) (k_incoming k))"
    if "d = c \<or> d = wire_context c" for d
    using that select_key_Some [of in_key "(h, d)" "k_incoming k"]
    by (cases "select_key in_key (h, d) (k_incoming k)")
      (auto simp: update_incoming_status_def select_update_where)
  show ?thesis
    using sel wire by (auto simp: existing_incoming_def leg split: option.split)
qed

lemma incoming_update:
  assumes "get_incoming_session h c k = Inr (Some s)"
  shows "get_incoming_session h c (update_incoming_status h c st k) = Inr (Some (s\<lparr>i_status := st\<rparr>))"
proof -
  from assms obtain r where r: "existing_incoming k h c = Some r" "incoming_of_row k r = Inr s"
    by (auto simp: get_incoming_session_existing rbind_Inr split: option.splits)
  have "incoming_of_row (update_incoming_status h c st k) = incoming_of_row k"
    by (rule ext) (rule incoming_of_row_cong, simp add: update_incoming_status_def)
  moreover have "incoming_of_row k (r\<lparr>nr_status := status_as_str st\<rparr>) = Inr (s\<lparr>i_status := st\<rparr>)"
    using r(2) by (auto simp: incoming_of_row_def rbind_Inr split: if_splits)
  ultimately show ?thesis using r(1) by (simp add: get_incoming_session_existing existing_update)
qed

section \<open>Revoke\<close>

lemma incoming_cong:
  assumes "k_incoming k' = k_incoming k" "k_secret_key k' = k_secret_key k"
    "k_configured_networks k' = k_configured_networks k"
  shows "get_incoming_session h c k' = get_incoming_session h c k"
proof -
  have "incoming_of_row k' = incoming_of_row k"
    by (rule ext) (rule incoming_of_row_cong [OF assms(2)])
  then show ?thesis
    by (simp add: get_incoming_session_existing existing_incoming_def assms(1)
        legacy_fallback_cong [OF assms(3)] cong: option.case_cong)
qed

lemma outgoing_marked:
  assumes "get_outgoing_session c k = Inr (Some s)"
  shows "get_outgoing_session c (mark_outgoing_pending_rotation c k)
    = Inr (Some (s\<lparr>o_pending_rotation := True\<rparr>))"
proof -
  let ?k = "mark_outgoing_pending_rotation c k" and ?f = "\<lambda>r. r\<lparr>or_pending_rotation := 1\<rparr>"
  have row: "outgoing_of_row ?k = outgoing_of_row k"
    by (rule ext) (rule outgoing_of_row_cong, simp add: mark_outgoing_pending_rotation_def set_pending_rotation_def)
  have leg: "legacy_fallback ?k c = legacy_fallback k c"
    by (rule legacy_fallback_cong) (simp add: mark_outgoing_pending_rotation_def set_pending_rotation_def)
  have wire: "legacy_fallback k c = Some w \<Longrightarrow> w = wire_context c" for w
    by (auto simp: legacy_fallback_def legacy_wire_fallback_def Let_def split: option.splits if_splits)
  have sel: "select_key or_channel d (k_outgoing ?k) = map_option ?f (select_key or_channel d (k_outgoing k))"
    if "d = c \<or> d = wire_context c" for d
    using that select_key_Some [of or_channel d "k_outgoing k"]
    by (cases "select_key or_channel d (k_outgoing k)")
      (auto simp: mark_outgoing_pending_rotation_def set_pending_rotation_def select_update_where)
  have upd: "outgoing_of_row k r = Inr s \<Longrightarrow> outgoing_of_row k (?f r) = Inr (s\<lparr>o_pending_rotation := True\<rparr>)" for r
    by (auto simp: outgoing_of_row_def rbind_Inr)
  have ex: "get_outgoing_session_exact ?k d = rbind (get_outgoing_session_exact k d)
      (\<lambda>x. Inr (map_option (\<lambda>s. s\<lparr>o_pending_rotation := True\<rparr>) x))" if "d = c \<or> d = wire_context c" for d
    using sel [OF that]
    by (auto simp: get_outgoing_session_exact_def row outgoing_of_row_def rbind_def split: option.split sum.split)
  show ?thesis
  proof (cases "get_outgoing_session_exact k c")
    case (Inl e)
    with assms show ?thesis by (simp add: get_outgoing_session_def with_fallback_def)
  next
    case (Inr x)
    show ?thesis
    proof (cases x)
      case (Some t)
      with Inr assms ex [of c] show ?thesis by (simp add: get_outgoing_session_def with_fallback_def)
    next
      case None
      with Inr assms obtain w where "legacy_fallback k c = Some w" "get_outgoing_session_exact k w = Inr (Some s)"
        by (auto simp: get_outgoing_session_def with_fallback_def split: option.splits)
      with None Inr ex [of c] ex [of w] wire [of w] show ?thesis
        by (simp add: get_outgoing_session_def with_fallback_def leg)
    qed
  qed
qed

lemma set_union_by: "set (union_by key acc xs) \<subseteq> set acc \<union> set xs"
  by (induction key acc xs rule: union_by.induct) (auto split: if_splits)

lemma recipients_fst: "rows_to_recipients rs = Inr ps \<Longrightarrow> map fst ps = map rr_handle rs"
  by (induction rs arbitrary: ps) (auto simp: rbind_Inr split: if_splits)

lemma removed_recipient:
  assumes "list_outgoing_recipients c (remove_outgoing_recipient c h k) = Inr ps"
  shows "h \<notin> fst ` set ps"
proof -
  let ?k = "remove_outgoing_recipient c h k"
  have wire: "legacy_fallback ?k c = Some w \<Longrightarrow> w = wire_context c" for w
    by (auto simp: legacy_fallback_def legacy_wire_fallback_def Let_def split: option.splits if_splits)
  have gone: "h \<notin> fst ` set qs"
    if "list_outgoing_recipients_exact ?k d = Inr qs" "d = c \<or> d = wire_context c" for d qs
  proof -
    let ?rows = "sort_key rr_first_sent_at (filter (\<lambda>r. rr_channel r = d) (k_recipients ?k))"
    have "rows_to_recipients ?rows = Inr qs" using that(1) by (simp add: list_outgoing_recipients_exact_def)
    then have "set (map fst qs) = set (map rr_handle ?rows)" by (simp only: recipients_fst)
    moreover have "h \<notin> set (map rr_handle ?rows)"
      using that(2) by (auto simp: remove_outgoing_recipient_def set_delete_where)
    ultimately show ?thesis by simp
  qed
  from assms obtain rs where rs: "list_outgoing_recipients_exact ?k c = Inr rs"
    by (auto simp: list_outgoing_recipients_def rbind_Inr)
  show ?thesis
  proof (cases "legacy_fallback ?k c")
    case None
    with assms rs gone [OF rs] show ?thesis by (simp add: list_outgoing_recipients_def)
  next
    case (Some w)
    with assms rs obtain ls where ls: "list_outgoing_recipients_exact ?k w = Inr ls" "ps = union_by fst rs ls"
      by (auto simp: list_outgoing_recipients_def rbind_Inr)
    with gone [OF rs] gone [OF ls(1)] wire [OF Some] set_union_by [of fst rs ls]
    show ?thesis by auto
  qed
qed

lemma list_recipients_cong:
  assumes "k_recipients k = k_recipients k'" "k_configured_networks k = k_configured_networks k'"
  shows "list_outgoing_recipients c k = list_outgoing_recipients c k'"
proof -
  have "list_outgoing_recipients_exact k = list_outgoing_recipients_exact k'"
    by (rule ext) (simp add: list_outgoing_recipients_exact_def assms(1))
  then show ?thesis by (simp add: list_outgoing_recipients_def legacy_fallback_cong [OF assms(2)]
      cong: option.case_cong)
qed

lemma outgoing_cong:
  assumes "k_outgoing k' = k_outgoing k" "k_secret_key k' = k_secret_key k"
    "k_configured_networks k' = k_configured_networks k"
  shows "get_outgoing_session c k' = get_outgoing_session c k"
proof -
  have "outgoing_of_row k' = outgoing_of_row k"
    by (rule ext) (rule outgoing_of_row_cong [OF assms(2)])
  then have "get_outgoing_session_exact k' = get_outgoing_session_exact k"
    by (intro ext) (simp add: get_outgoing_session_exact_def assms(1) cong: option.case_cong)
  then show ?thesis
    by (simp add: get_outgoing_session_def with_fallback_def legacy_fallback_cong [OF assms(3)]
        cong: option.case_cong)
qed

lemma revoked_session:
  "get_incoming_session h oc k = Inr (Some s) \<Longrightarrow>
     get_incoming_session h oc (e2e_revoke h pc oc k) = Inr (Some (s\<lparr>i_status := Revoked\<rparr>))"
  unfolding e2e_revoke_def
  by (subst incoming_cong [where k = "update_incoming_status h oc Revoked k"])
    (simp_all add: incoming_update remove_outgoing_recipient_def mark_outgoing_pending_rotation_def
      set_pending_rotation_def)

text \<open>What a revoke leaves alone: every row of another handle, of another channel, and every other table.\<close>

lemma filter_update_where: "(\<And>r. P r \<Longrightarrow> \<not> Q r \<and> \<not> Q (f r)) \<Longrightarrow> filter Q (update_where P f rows) = filter Q rows"
  by (induction rows) (auto simp: update_where_def)

lemma filter_delete_where: "(\<And>r. P r \<Longrightarrow> \<not> Q r) \<Longrightarrow> filter Q (delete_where P rows) = filter Q rows"
  by (induction rows) (auto simp: delete_where_def)

lemma revoke_frame:
  "\<exists>ins outs rcps. e2e_revoke h pc oc k = k\<lparr>k_incoming := ins, k_outgoing := outs, k_recipients := rcps\<rparr>
    \<and> filter (\<lambda>r. nr_handle r \<noteq> h \<or> nr_channel r \<notin> {oc, wire_context oc}) ins
        = filter (\<lambda>r. nr_handle r \<noteq> h \<or> nr_channel r \<notin> {oc, wire_context oc}) (k_incoming k)
    \<and> filter (\<lambda>r. or_channel r \<notin> {pc, wire_context pc}) outs
        = filter (\<lambda>r. or_channel r \<notin> {pc, wire_context pc}) (k_outgoing k)
    \<and> filter (\<lambda>r. rr_handle r \<noteq> h \<or> rr_channel r \<notin> {pc, wire_context pc}) rcps
        = filter (\<lambda>r. rr_handle r \<noteq> h \<or> rr_channel r \<notin> {pc, wire_context pc}) (k_recipients k)"
  by (intro exI [of _ "k_incoming (e2e_revoke h pc oc k)"] exI [of _ "k_outgoing (e2e_revoke h pc oc k)"]
      exI [of _ "k_recipients (e2e_revoke h pc oc k)"])
    (auto simp: e2e_revoke_def mark_outgoing_pending_rotation_def set_pending_rotation_def
      remove_outgoing_recipient_def update_incoming_status_def filter_update_where intro!: filter_delete_where)

lemma revoke_other_session:
  assumes "g \<noteq> h"
  shows "get_incoming_session g c (e2e_revoke h pc oc k) = get_incoming_session g c k"
proof -
  let ?k = "update_incoming_status h oc Revoked k"
  have row: "incoming_of_row ?k = incoming_of_row k"
    by (rule ext) (rule incoming_of_row_cong, simp add: update_incoming_status_def)
  have leg: "legacy_fallback ?k c = legacy_fallback k c"
    by (rule legacy_fallback_cong) (simp add: update_incoming_status_def)
  have sel: "select_key in_key (g, d) (k_incoming ?k) = select_key in_key (g, d) (k_incoming k)" for d
    using assms select_key_Some [of in_key "(g, d)" "k_incoming k"]
    by (cases "select_key in_key (g, d) (k_incoming k)") (auto simp: update_incoming_status_def select_update_where)
  have "get_incoming_session g c (e2e_revoke h pc oc k) = get_incoming_session g c ?k"
    by (rule incoming_cong) (simp_all add: e2e_revoke_def remove_outgoing_recipient_def
        mark_outgoing_pending_rotation_def set_pending_rotation_def)
  also have "\<dots> = get_incoming_session g c k"
    by (simp add: get_incoming_session_existing existing_incoming_def row leg sel cong: option.case_cong)
  finally show ?thesis .
qed

lemma filter_union_by:
  "filter (\<lambda>x. Q (key x)) (union_by key acc xs)
     = union_by key (filter (\<lambda>x. Q (key x)) acc) (filter (\<lambda>x. Q (key x)) xs)"
  by (induction key acc xs rule: union_by.induct) auto

lemma filter_rows_to_recipients:
  "rows_to_recipients rs = Inr ps \<Longrightarrow>
     rows_to_recipients (filter (\<lambda>r. rr_handle r \<noteq> h) rs) = Inr (filter (\<lambda>p. fst p \<noteq> h) ps)"
  by (induction rs arbitrary: ps) (auto simp: rbind_Inr split: if_splits)

lemma remaining_recipients:
  assumes "list_outgoing_recipients c k = Inr ps"
  shows "list_outgoing_recipients c (remove_outgoing_recipient c h k) = Inr (filter (\<lambda>p. fst p \<noteq> h) ps)"
proof -
  let ?k = "remove_outgoing_recipient c h k"
  have leg: "legacy_fallback ?k c = legacy_fallback k c"
    by (rule legacy_fallback_cong) (simp add: remove_outgoing_recipient_def)
  have wire: "legacy_fallback k c = Some w \<Longrightarrow> w = wire_context c" for w
    by (auto simp: legacy_fallback_def legacy_wire_fallback_def Let_def split: option.splits if_splits)
  have rows: "filter (\<lambda>r. rr_channel r = d) (k_recipients ?k)
      = filter (\<lambda>r. rr_handle r \<noteq> h) (filter (\<lambda>r. rr_channel r = d) (k_recipients k))"
    if "d = c \<or> d = wire_context c" for d
    using that by (auto simp: remove_outgoing_recipient_def delete_where_def intro!: filter_cong)
  have ex: "list_outgoing_recipients_exact ?k d = Inr (filter (\<lambda>p. fst p \<noteq> h) qs)"
    if "list_outgoing_recipients_exact k d = Inr qs" "d = c \<or> d = wire_context c" for d qs
    using filter_rows_to_recipients [OF that(1) [unfolded list_outgoing_recipients_exact_def], of h]
    by (simp only: list_outgoing_recipients_exact_def rows [OF that(2)] filter_sort)
  from assms obtain rs where rs: "list_outgoing_recipients_exact k c = Inr rs"
    by (auto simp: list_outgoing_recipients_def rbind_Inr)
  show ?thesis
  proof (cases "legacy_fallback k c")
    case None
    with assms rs ex [OF rs] leg show ?thesis by (simp add: list_outgoing_recipients_def)
  next
    case (Some w)
    with assms rs obtain ls where ls: "list_outgoing_recipients_exact k w = Inr ls" "ps = union_by fst rs ls"
      by (auto simp: list_outgoing_recipients_def rbind_Inr)
    with ex [OF rs] ex [OF ls(1)] wire [OF Some] leg Some filter_union_by [of "\<lambda>x. x \<noteq> h" fst rs ls]
    show ?thesis by (simp add: list_outgoing_recipients_def)
  qed
qed

text \<open>C11: Revoking a peer takes effect at once in both directions: the stored session is marked revoked
  (so decryption rejects it), the peer is off the recipient list of our key, and the key is flagged,
  so that the next message is encrypted under a fresh one.  Nothing else of the sessions changes: the
  sessions of every other handle read as before, the other recipients stay in their order, and no row of
  another channel and no other table is touched.\<close>

theorem revoke_cuts_peer:
  shows "(\<forall>s. get_incoming_session h oc k = Inr (Some s) \<longrightarrow>
        get_incoming_session h oc (e2e_revoke h pc oc k) = Inr (Some (s\<lparr>i_status := Revoked\<rparr>)))
    \<and> (\<forall>s. get_outgoing_session pc k = Inr (Some s) \<longrightarrow>
        get_outgoing_session pc (e2e_revoke h pc oc k) = Inr (Some (s\<lparr>o_pending_rotation := True\<rparr>)))
    \<and> (\<forall>ps. list_outgoing_recipients pc (e2e_revoke h pc oc k) = Inr ps \<longrightarrow> h \<notin> fst ` set ps)
    \<and> (\<forall>ps. list_outgoing_recipients pc k = Inr ps \<longrightarrow>
        list_outgoing_recipients pc (e2e_revoke h pc oc k) = Inr (filter (\<lambda>p. fst p \<noteq> h) ps))
    \<and> (\<forall>g c. g \<noteq> h \<longrightarrow> get_incoming_session g c (e2e_revoke h pc oc k) = get_incoming_session g c k)
    \<and> (\<exists>ins outs rcps. e2e_revoke h pc oc k = k\<lparr>k_incoming := ins, k_outgoing := outs, k_recipients := rcps\<rparr>
        \<and> filter (\<lambda>r. nr_handle r \<noteq> h \<or> nr_channel r \<notin> {oc, wire_context oc}) ins
            = filter (\<lambda>r. nr_handle r \<noteq> h \<or> nr_channel r \<notin> {oc, wire_context oc}) (k_incoming k)
        \<and> filter (\<lambda>r. or_channel r \<notin> {pc, wire_context pc}) outs
            = filter (\<lambda>r. or_channel r \<notin> {pc, wire_context pc}) (k_outgoing k)
        \<and> filter (\<lambda>r. rr_handle r \<noteq> h \<or> rr_channel r \<notin> {pc, wire_context pc}) rcps
            = filter (\<lambda>r. rr_handle r \<noteq> h \<or> rr_channel r \<notin> {pc, wire_context pc}) (k_recipients k))"
proof -
  let ?k = "remove_outgoing_recipient pc h (update_incoming_status h oc Revoked k)"
  have lists: "list_outgoing_recipients pc (e2e_revoke h pc oc k) = list_outgoing_recipients pc ?k"
    by (rule list_recipients_cong)
      (simp_all add: e2e_revoke_def mark_outgoing_pending_rotation_def set_pending_rotation_def)
  have upd: "list_outgoing_recipients pc (update_incoming_status h oc Revoked k) = list_outgoing_recipients pc k"
    by (rule list_recipients_cong) (simp_all add: update_incoming_status_def)
  have out: "get_outgoing_session pc ?k = get_outgoing_session pc k"
    by (rule outgoing_cong) (simp_all add: remove_outgoing_recipient_def update_incoming_status_def)
  have flag: "get_outgoing_session pc (e2e_revoke h pc oc k) = Inr (Some (s\<lparr>o_pending_rotation := True\<rparr>))"
    if "get_outgoing_session pc k = Inr (Some s)" for s
    using outgoing_marked [of pc ?k s] that out by (simp add: e2e_revoke_def)
  have rest: "list_outgoing_recipients pc (e2e_revoke h pc oc k) = Inr (filter (\<lambda>p. fst p \<noteq> h) ps)"
    if "list_outgoing_recipients pc k = Inr ps" for ps
    using remaining_recipients [of pc "update_incoming_status h oc Revoked k" ps h] upd lists that by simp
  have off: "h \<notin> fst ` set ps" if "list_outgoing_recipients pc (e2e_revoke h pc oc k) = Inr ps" for ps
    using that removed_recipient lists by simp
  show ?thesis
    by (intro conjI allI impI revoked_session flag off rest revoke_other_session revoke_frame)
qed

theorem revoke_cuts_peer_witness:
  "get_incoming_session ''~a@h'' ''#x'' (e2e_revoke ''~a@h'' ''#x'' ''#x'' ring_alice)
     = Inr (Some (sess_alice\<lparr>i_status := Revoked\<rparr>))
   \<and> get_incoming_session ''~a@h'' ''#x'' (e2e_revoke ''~b@h'' ''#x'' ''#x'' ring_alice)
     = Inr (Some sess_alice)"
  using conjunct1 [OF revoke_cuts_peer [of "''~a@h''" "''#x''" ring_alice "''#x''"]]
    conjunct1 [OF conjunct2 [OF conjunct2 [OF conjunct2 [OF conjunct2
      [OF revoke_cuts_peer [of "''~b@h''" "''#x''" ring_alice "''#x''"]]]]]] ring_alice_session
  by simp

section \<open>Where the commands fall short\<close>

lemma revoke_peers: "k_peers (e2e_revoke h pc oc k) = k_peers k"
  by (simp add: e2e_revoke_def mark_outgoing_pending_rotation_def set_pending_rotation_def
      remove_outgoing_recipient_def update_incoming_status_def)

lemma revoke_other [simp]:
  "k_secret_key (e2e_revoke h pc oc k) = k_secret_key k" "k_rekeys (e2e_revoke h pc oc k) = k_rekeys k"
  by (simp_all add: e2e_revoke_def mark_outgoing_pending_rotation_def set_pending_rotation_def
      remove_outgoing_recipient_def update_incoming_status_def)

lemma classify_cong:
  "k_peers k' = k_peers k \<Longrightarrow> classify_peer_change fp h k' = classify_peer_change fp h k"
  by (simp add: classify_peer_change_def get_peer_by_fingerprint_def get_peer_by_handle_def
      cong: option.case_cong)

text \<open>C12: A revocation by command does not reach the identity: \<open>/e2e revoke\<close> leaves the peer table as it
  is, so the classifier answers as before (never \<open>Revoked\<close>), and the next REKEY of the revoked peer
  makes its session trusted again, although the documentation of \<open>TrustChange::Revoked\<close> says that
  only \<open>/e2e unrevoke\<close> can restore it.\<close>

theorem revoke_undone_by_rekey:
  assumes "dh_ok cr" "sig_ok cr" "aead_ok cr" "sizes_ok cr" "box_ok (m_keyring b)"
    "p_pubkey p = public_bytes cr (m_identity b)" "length sk = 32"
    "build_rekey_for_peer cr c p sk a = (Inr rk, a')" "wire_context cb = wire_context c"
    "classify_peer_change (own_fingerprint cr a) h (m_keyring b) = Inr Known"
    "fst (record_rekey_nonce (own_fingerprint cr a) cb (rk_nonce rk) now (m_keyring b))"
    "get_incoming_session h cb (m_keyring b) = Inr (Some s)" "i_fingerprint s = own_fingerprint cr a"
    "encode_secret (m_keyring b) sk = Inr enc"
    "b1 = b\<lparr>m_keyring := e2e_revoke h cb cb (m_keyring b)\<rparr>"
  shows "get_incoming_session h cb (m_keyring b1) = Inr (Some (s\<lparr>i_status := Revoked\<rparr>))
    \<and> (\<exists>b2 s2. handle_rekey cr now h (rk\<lparr>rk_channel := cb\<rparr>) b1 = (Inr (), b2)
        \<and> get_incoming_session h cb (m_keyring b2) = Inr (Some s2)
        \<and> i_status s2 = Trusted \<and> i_fingerprint s2 = own_fingerprint cr a)"
proof -
  have rv: "get_incoming_session h cb (m_keyring b1) = Inr (Some (s\<lparr>i_status := Revoked\<rparr>))"
    using revoked_session [OF assms(12)] by (simp add: assms(15))
  have "box_ok (m_keyring b1)" using assms(5) by (simp add: box_ok_def assms(15))
  moreover have "p_pubkey p = public_bytes cr (m_identity b1)" using assms(6,15) by simp
  moreover have "classify_peer_change (own_fingerprint cr a) h (m_keyring b1) = Inr Known"
    using assms(10,15) classify_cong [OF revoke_peers] by simp
  moreover have "fst (record_rekey_nonce (own_fingerprint cr a) cb (rk_nonce rk) now (m_keyring b1))"
    using assms(11,15) by (simp add: record_rekey_nonce_def Let_def)
  moreover have "encode_secret (m_keyring b1) sk = Inr enc" using assms(14,15) by (simp add: encode_secret_def)
  moreover have "i_fingerprint old = own_fingerprint cr a" if "Some (s\<lparr>i_status := Revoked\<rparr>) = Some old" for old
    using that assms(13) by auto
  ultimately show ?thesis
    using rekey_accepted [OF assms(1-4) _ _ assms(7-9) _ _ rv] rv by fastforce
qed

definition sess_carol :: incoming_session where
  "sess_carol = sess_alice\<lparr>i_handle := ''~c@h'', i_fingerprint := own_fingerprint demo carol\<rparr>"

definition frank :: manager where
  "frank = erin\<lparr>m_keyring := (m_keyring erin)\<lparr>k_incoming := [incoming_to_row sess_carol (i_sk sess_carol) None]\<rparr>\<rparr>"

lemma frank_session: "get_incoming_session ''~c@h'' ''#x'' (m_keyring frank) = Inr (Some sess_carol)"
  using fingerprint_length [OF demo_crypto(4)]
  by (simp add: get_incoming_session_existing existing_incoming_def select_key_def frank_def erin_def
      keyring_new_def incoming_to_row_def sess_carol_def sess_alice_def incoming_of_row_def decode_secret_def
      status_parse_def with_identity_def own_fingerprint_def)

theorem revoke_undone_by_rekey_witness:
  "\<exists>rk b2 s2. handle_rekey demo 9 ''~c@h'' (rk\<lparr>rk_channel := ''#x''\<rparr>)
        (frank\<lparr>m_keyring := e2e_revoke ''~c@h'' ''#x'' ''#x'' (m_keyring frank)\<rparr>) = (Inr (), b2)
    \<and> get_incoming_session ''~c@h'' ''#x'' (m_keyring b2) = Inr (Some s2) \<and> i_status s2 = Trusted"
proof -
  obtain rk c' where r: "build_rekey_for_peer demo ''#x'' peer_erin (replicate 32 (CHR ''k'')) carol = (Inr rk, c')"
    using carol_rekeys by blast
  have 1: "box_ok (m_keyring frank)" "p_pubkey peer_erin = public_bytes demo (m_identity frank)"
    "length (replicate 32 (CHR ''k'')) = 32"
    by (simp_all add: box_ok_def frank_def erin_def with_identity_def keyring_new_def peer_erin_def)
  have 2: "fst (record_rekey_nonce (own_fingerprint demo carol) ''#x'' (rk_nonce rk) 9 (m_keyring frank))"
    by (simp add: record_rekey_nonce_def frank_def erin_def with_identity_def keyring_new_def Let_def)
  have 3: "classify_peer_change (own_fingerprint demo carol) ''~c@h'' (m_keyring frank) = Inr Known"
    using erin_knows_carol classify_cong [of "m_keyring frank" "m_keyring erin"] by (simp add: frank_def)
  have 4: "encode_secret (m_keyring frank) (replicate 32 (CHR ''k'')) = Inr (replicate 32 (CHR ''k''))"
    by (simp add: encode_secret_def frank_def erin_def with_identity_def keyring_new_def)
  have 5: "i_fingerprint sess_carol = own_fingerprint demo carol" by (simp add: sess_carol_def)
  show ?thesis
    using revoke_undone_by_rekey [OF demo_crypto 1 r refl 3 2 frank_session 5 4 refl] by blast
qed

text \<open>C13: The guard of \<open>/e2e accept\<close> against the all-zero placeholder key tests the status \<open>Pending\<close> only:
  after \<open>/e2e decline\<close> of a first request, once the cached request is gone (a restart, or six hours),
  \<open>/e2e accept\<close> reports success and makes the placeholder a trusted session, and every chunk sealed
  under 32 zero bytes is then shown as an authentic message of that peer.\<close>

theorem decline_then_accept_trusts_zero_key:
  assumes "get_incoming_session h c (m_keyring m) = Inr (Some s)" "i_sk s = ZERO_KEY"
    "m1 = m\<lparr>m_keyring := e2e_decline h c (m_keyring m)\<rparr>"
    "hm_get (m_inbound (prune_expired_pending now m1)) (h, c) = None"
  shows "\<exists>m2. e2e_accept cr now inst h c (Some c) m1 = (Inr Accepted, m2)
    \<and> get_incoming_session h c (m_keyring m2) = Inr (Some (s\<lparr>i_status := Trusted\<rparr>))
    \<and> (\<forall>line w plain. parse cr line = Inr (Some w) \<longrightarrow> opens cr ZERO_KEY c w plain \<longrightarrow>
         ts_skew now (w_ts w) \<le> m_ts_tolerance_secs m2 \<longrightarrow> utf8_valid plain \<longrightarrow>
         decrypt_incoming cr now h c line m2 = Inr (Plaintext plain))"
proof -
  let ?m = "(prune_expired_pending now m1)\<lparr>m_inbound := hm_del (h, c) (m_inbound (prune_expired_pending now m1))\<rparr>"
  let ?m2 = "?m\<lparr>m_keyring := update_incoming_status h c Trusted (m_keyring ?m)\<rparr>"
  have d: "get_incoming_session h c (m_keyring ?m) = Inr (Some (s\<lparr>i_status := Revoked\<rparr>))"
    using incoming_update [OF assms(1), of Revoked] by (simp add: assms(3) e2e_decline_def)
  have t: "get_incoming_session h c (m_keyring ?m2) = Inr (Some (s\<lparr>i_status := Trusted\<rparr>))"
    using incoming_update [OF d, of Trusted] by simp
  have a: "accept_pending_inbound cr now inst h c m1 = (Inr None, ?m)"
    using assms(4) by (simp add: accept_pending_inbound_def chain_def calls_def)
  have "e2e_accept cr now inst h c (Some c) m1 = (Inr Accepted, ?m2)"
    unfolding e2e_accept_def chain_Inr [of "accept_pending_inbound cr now inst h c" m1, OF a]
    using d by simp
  moreover have "decrypt_incoming cr now h c line ?m2 = Inr (Plaintext plain)"
    if "parse cr line = Inr (Some w)" "opens cr ZERO_KEY c w plain"
      "ts_skew now (w_ts w) \<le> m_ts_tolerance_secs ?m2" "utf8_valid plain" for line w plain
    using decrypt_opened [OF that(1) t _ _ that(3,4)] that(2) assms(2) by simp
  ultimately show ?thesis using t by blast
qed

definition sess_placeholder :: incoming_session where
  "sess_placeholder = sess_alice\<lparr>i_sk := ZERO_KEY, i_status := Pending\<rparr>"

definition bob_asked :: manager where
  "bob_asked = bob\<lparr>m_keyring := keyring_new\<lparr>k_incoming := [incoming_to_row sess_placeholder ZERO_KEY None]\<rparr>\<rparr>"

theorem decline_then_accept_trusts_zero_key_witness:
  "\<exists>m2. e2e_accept demo 9 0 ''~a@h'' ''#x'' (Some ''#x'')
      (bob_asked\<lparr>m_keyring := e2e_decline ''~a@h'' ''#x'' (m_keyring bob_asked)\<rparr>) = (Inr Accepted, m2)
    \<and> get_incoming_session ''~a@h'' ''#x'' (m_keyring m2) = Inr (Some (sess_placeholder\<lparr>i_status := Trusted\<rparr>))"
proof -
  have 1: "get_incoming_session ''~a@h'' ''#x'' (m_keyring bob_asked) = Inr (Some sess_placeholder)"
    by (simp add: get_incoming_session_existing existing_incoming_def select_key_def bob_asked_def bob_def
      keyring_new_def incoming_to_row_def sess_placeholder_def sess_alice_def incoming_of_row_def decode_secret_def
      status_parse_def with_identity_def ZERO_KEY_def)
  have 2: "i_sk sess_placeholder = ZERO_KEY" by (simp add: sess_placeholder_def)
  have 3: "hm_get (m_inbound (prune_expired_pending 9
      (bob_asked\<lparr>m_keyring := e2e_decline ''~a@h'' ''#x'' (m_keyring bob_asked)\<rparr>))) (''~a@h'', ''#x'') = None"
    by (simp add: prune_expired_pending_def hm_retain_def bob_asked_def bob_def with_identity_def)
  show ?thesis
    using decline_then_accept_trusts_zero_key [OF 1 2 refl 3, of demo 0] by blast
qed

end
