(* ===== verification/Irc_Isupport.thy ===== *)
theory Irc_Isupport
  imports Rust_Text Rust_Map
begin

text \<open>
  The server's ISUPPORT (005) parameters (\<open>src/src/irc/isupport.rs\<close>): the token store, its typed
  accessors and the case mapping.  The \<open>reqwest\<close> crate's URL parser is an argument: what it makes
  of a text is a \<open>url\<close> with the parts the code reads.
\<close>

section \<open>The token store\<close>

record isupport =
  is_tokens :: "(bytes, bytes) hmap"
  bare_tokens :: "bytes list"

definition isupport_new :: isupport where
  "isupport_new = \<lparr>is_tokens = [], bare_tokens = []\<rparr>"

definition set_remove :: "bytes \<Rightarrow> bytes list \<Rightarrow> bytes list" where
  "set_remove x xs = filter (\<lambda>y. y \<noteq> x) xs"

definition set_insert :: "bytes \<Rightarrow> bytes list \<Rightarrow> bytes list" where
  "set_insert x xs = (if x \<in> set xs then xs else xs @ [x])"

definition parse_token :: "bytes \<Rightarrow> isupport \<Rightarrow> isupport" where
  "parse_token tok s =
     (case strip_prefix ''-'' tok of
        Some negated \<Rightarrow>
          s\<lparr>is_tokens := hm_del negated (is_tokens s), bare_tokens := set_remove negated (bare_tokens s)\<rparr>
      | None \<Rightarrow>
          (case split_once CHR ''='' tok of
             Some (key, v) \<Rightarrow>
               s\<lparr>is_tokens := hm_put key v (is_tokens s), bare_tokens := set_remove key (bare_tokens s)\<rparr>
           | None \<Rightarrow>
               s\<lparr>is_tokens := hm_put tok [] (is_tokens s), bare_tokens := set_insert tok (bare_tokens s)\<rparr>))"

definition parse_tokens :: "bytes list \<Rightarrow> isupport \<Rightarrow> isupport" where
  "parse_tokens toks s = fold parse_token toks s"

definition token_ok :: "bytes \<Rightarrow> bool" where
  "token_ok tok \<longleftrightarrow>
     (let key = hd (split_on CHR ''='' (case strip_prefix ''-'' tok of Some r \<Rightarrow> r | None \<Rightarrow> tok)) in
      \<not> (starts_with ''-'' tok \<and> CHR ''='' \<in> set tok) \<and>
      key \<noteq> [] \<and> list_all (\<lambda>b. is_ascii_alphanumeric b \<or> b \<in> set ''./-_'') key \<and>
      \<not> list_ex (\<lambda>ch. char_is_whitespace ch \<or> char_is_control ch) (chars_of tok))"

definition response_tokens :: "bytes list \<Rightarrow> bytes list option" where
  "response_tokens args =
     (case args of
        [] \<Rightarrow> None
      | _ # rest \<Rightarrow>
          if rest = [] then None
          else
            let rest1 = (if CHR '' '' \<in> set (last rest) then butlast rest else rest) in
            if list_all token_ok rest1 then Some rest1 else None)"

definition is_get :: "isupport \<Rightarrow> bytes \<Rightarrow> bytes option" where
  "is_get s key = hm_get (is_tokens s) key"

section \<open>Accessors\<close>

record url =
  url_scheme :: bytes
  url_host :: "bytes option"
  url_username :: bytes
  url_password :: "bytes option"
  url_text :: bytes

definition network_icon :: "(bytes \<Rightarrow> url option) \<Rightarrow> isupport \<Rightarrow> nat \<Rightarrow> bytes option" where
  "network_icon url_parse s sz =
     (case is_get s ''draft/ICON'' of
        None \<Rightarrow> None
      | Some v \<Rightarrow>
          if v = [] \<or> list_ex (\<lambda>ch. char_is_whitespace ch \<or> char_is_control ch) (chars_of v) then None
          else case url_parse (replace_all ''{size}'' (show_nat (max 1 (min 512 sz))) v) of
            None \<Rightarrow> None
          | Some u \<Rightarrow>
              if \<not> (url_scheme u = ''http'' \<or> url_scheme u = ''https'') \<or> url_host u = None
                 \<or> url_username u \<noteq> [] \<or> url_password u \<noteq> None
              then None else Some (url_text u))"

definition has_saferate :: "isupport \<Rightarrow> bool" where
  "has_saferate s \<longleftrightarrow> ''soju.im/SAFERATE'' \<in> set (bare_tokens s)"

definition default_prefix :: "(bytes \<times> bytes) list" where
  "default_prefix = [(''o'', ''@''), (''v'', ''+'')]"

definition prefix_map :: "isupport \<Rightarrow> (bytes \<times> bytes) list" where
  "prefix_map s =
     (case hm_get (is_tokens s) ''PREFIX'' of
        None \<Rightarrow> default_prefix
      | Some v \<Rightarrow>
          (case strip_prefix ''('' v of
             None \<Rightarrow> default_prefix
           | Some rest \<Rightarrow>
               (case split_once CHR '')'' rest of
                  None \<Rightarrow> default_prefix
                | Some (mode_chars, prefix_chars) \<Rightarrow> zip (chars_of mode_chars) (chars_of prefix_chars))))"

definition nth_or :: "bytes list \<Rightarrow> nat \<Rightarrow> bytes" where
  "nth_or xs i = (if i < length xs then xs ! i else [])"

definition chanmode_types :: "isupport \<Rightarrow> bytes \<times> bytes \<times> bytes \<times> bytes" where
  "chanmode_types s =
     (case hm_get (is_tokens s) ''CHANMODES'' of
        None \<Rightarrow> ([], [], [], [])
      | Some v \<Rightarrow>
          let parts = splitn 4 CHR '','' v
          in (nth_or parts 0, nth_or parts 1, nth_or parts 2, nth_or parts 3))"

definition network :: "isupport \<Rightarrow> bytes option" where
  "network s = hm_get (is_tokens s) ''NETWORK''"

definition has_whox :: "isupport \<Rightarrow> bool" where
  "has_whox s \<longleftrightarrow> hm_get (is_tokens s) ''WHOX'' \<noteq> None"

definition is_ircnet_lineage :: "isupport \<Rightarrow> bool" where
  "is_ircnet_lineage s \<longleftrightarrow> hm_get (is_tokens s) ''IDCHAN'' \<noteq> None"

definition WHOX_FIELDS :: bytes where "WHOX_FIELDS = ''%tcuihnfar''"
definition WHOX_FIELDS_IRCNET :: bytes where "WHOX_FIELDS_IRCNET = ''%tcuihnfaUr''"

definition whox_field_selector :: "isupport \<Rightarrow> bytes" where
  "whox_field_selector s = (if is_ircnet_lineage s then WHOX_FIELDS_IRCNET else WHOX_FIELDS)"

definition whox_request :: "isupport \<Rightarrow> bytes option" where
  "whox_request s = (if has_whox s then Some (whox_field_selector s) else None)"

definition number_or :: "nat \<Rightarrow> isupport \<Rightarrow> bytes \<Rightarrow> nat" where
  "number_or d s key =
     (case hm_get (is_tokens s) key of
        None \<Rightarrow> d
      | Some v \<Rightarrow> (case parse_usize v of Inr n \<Rightarrow> n | Inl _ \<Rightarrow> d))"

definition max_modes :: "isupport \<Rightarrow> nat" where "max_modes s = number_or 3 s ''MODES''"

definition statusmsg :: "isupport \<Rightarrow> bytes" where
  "statusmsg s = unwrap_or [] (hm_get (is_tokens s) ''STATUSMSG'')"

definition client_tag_step :: "bytes \<Rightarrow> bytes \<Rightarrow> bool \<Rightarrow> bool" where
  "client_tag_step tag ent allowed =
     (case strip_prefix ''-'' ent of
        Some exempt \<Rightarrow> if exempt = tag then True else allowed
      | None \<Rightarrow> if ent = ''*'' \<or> ent = tag then False else allowed)"

definition client_tag_allowed :: "isupport \<Rightarrow> bytes \<Rightarrow> bool" where
  "client_tag_allowed s tag =
     (case hm_get (is_tokens s) ''CLIENTTAGDENY'' of
        None \<Rightarrow> True
      | Some v \<Rightarrow> if v = [] then True else fold (client_tag_step tag) (split_on CHR '','' v) True)"

definition casemapping :: "isupport \<Rightarrow> bytes" where
  "casemapping s = unwrap_or ''rfc1459'' (hm_get (is_tokens s) ''CASEMAPPING'')"

definition channel_len :: "isupport \<Rightarrow> nat" where "channel_len s = number_or 200 s ''CHANNELLEN''"
definition nick_len :: "isupport \<Rightarrow> nat" where "nick_len s = number_or 9 s ''NICKLEN''"
definition topic_len :: "isupport \<Rightarrow> nat" where "topic_len s = number_or 307 s ''TOPICLEN''"

definition chan_types :: "isupport \<Rightarrow> bytes" where
  "chan_types s = unwrap_or ''#&'' (hm_get (is_tokens s) ''CHANTYPES'')"

definition extban :: "isupport \<Rightarrow> (bytes \<times> bytes) option" where
  "extban s =
     (case hm_get (is_tokens s) ''EXTBAN'' of
        None \<Rightarrow> None
      | Some v \<Rightarrow>
          (case split_once CHR '','' v of
             None \<Rightarrow> None
           | Some (prefix_str, types) \<Rightarrow>
               (case chars_of prefix_str of [] \<Rightarrow> None | c # _ \<Rightarrow> Some (c, types))))"

definition supports_multi_target_mode :: "isupport \<Rightarrow> bool" where
  "supports_multi_target_mode s =
     (case hm_get (is_tokens s) ''TARGMAX'' of
        None \<Rightarrow> True
      | Some targmax \<Rightarrow>
          list_ex (\<lambda>ent. case split_once CHR '':'' ent of
              Some (cmd, limit) \<Rightarrow> cmd = ''MODE'' \<and> limit \<noteq> ''1'' \<and> limit \<noteq> ''0''
            | None \<Rightarrow> False) (split_on CHR '','' targmax))"

fun targmax_loop :: "bytes \<Rightarrow> bytes list \<Rightarrow> nat option" where
  "targmax_loop command [] = None"
| "targmax_loop command (ent # es) =
     (case split_once CHR '':'' ent of
        None \<Rightarrow> targmax_loop command es
      | Some (cmd, limit) \<Rightarrow>
          if eq_ignore_ascii_case cmd command
          then opt_filter (\<lambda>n. n > 0) (result_ok (parse_usize limit))
          else targmax_loop command es)"

definition targmax :: "isupport \<Rightarrow> bytes \<Rightarrow> nat option" where
  "targmax s command =
     (case hm_get (is_tokens s) ''TARGMAX'' of
        None \<Rightarrow> None
      | Some v \<Rightarrow> targmax_loop command (split_on CHR '','' v))"

definition chathistory_max :: "isupport \<Rightarrow> nat option" where
  "chathistory_max s =
     (case hm_get (is_tokens s) ''CHATHISTORY'' of
        None \<Rightarrow> None
      | Some v \<Rightarrow> opt_filter (\<lambda>n. n \<noteq> 0) (result_ok (parse_usize v)))"

definition msgreftypes :: "isupport \<Rightarrow> bytes list" where
  "msgreftypes s =
     (case hm_get (is_tokens s) ''MSGREFTYPES'' of
        None \<Rightarrow> []
      | Some v \<Rightarrow> map to_ascii_lowercase (filter (\<lambda>x. x \<noteq> []) (split_on CHR '','' v)))"

section \<open>Case mapping\<close>

text \<open>
  The characters the mapping changes are ASCII, and in UTF-8 an ASCII byte is always a character
  of its own: the mapping works byte by byte.
\<close>

definition fold_char :: "bytes \<Rightarrow> byte \<Rightarrow> byte" where
  "fold_char mapping c =
     (if c = CHR ''['' \<and> mapping \<noteq> ''ascii'' then CHR ''{''
      else if c = CHR '']'' \<and> mapping \<noteq> ''ascii'' then CHR ''}''
      else if c = CHR 0x5C \<and> mapping \<noteq> ''ascii'' then CHR ''|''
      else if c = CHR ''^'' \<and> mapping = ''rfc1459'' then CHR ''~''
      else ascii_lower c)"

definition casefold :: "bytes \<Rightarrow> bytes \<Rightarrow> bytes" where
  "casefold nick mapping = map (fold_char mapping) nick"

section \<open>What the store holds\<close>

text \<open>The key a token is about, and what it leaves there.\<close>

definition token_key :: "bytes \<Rightarrow> bytes" where
  "token_key tok =
     (case strip_prefix ''-'' tok of Some negated \<Rightarrow> negated
      | None \<Rightarrow> (case split_once CHR ''='' tok of Some (key, _) \<Rightarrow> key | None \<Rightarrow> tok))"

definition token_value :: "bytes \<Rightarrow> bytes option" where
  "token_value tok =
     (case strip_prefix ''-'' tok of Some _ \<Rightarrow> None
      | None \<Rightarrow> (case split_once CHR ''='' tok of Some (_, v) \<Rightarrow> Some v | None \<Rightarrow> Some []))"

definition token_bare :: "bytes \<Rightarrow> bool" where
  "token_bare tok \<longleftrightarrow> strip_prefix ''-'' tok = None \<and> CHR ''='' \<notin> set tok"

lemma parse_token_get:
  "is_get (parse_token tok s) key = (if token_key tok = key then token_value tok else is_get s key)"
  by (auto simp: parse_token_def token_key_def token_value_def is_get_def rmap split: option.split prod.split)

lemma parse_token_bare:
  "key \<in> set (bare_tokens (parse_token tok s)) \<longleftrightarrow>
     (if token_key tok = key then token_bare tok else key \<in> set (bare_tokens s))"
  by (auto simp: parse_token_def token_key_def token_bare_def set_remove_def set_insert_def
      split_once_None [symmetric] split: option.split prod.split)

lemma last_token:
  assumes "\<And>tok s. view (parse_token tok s) = (if token_key tok = key then val tok else view s)"
  shows "view (parse_tokens toks s) =
     (case find (\<lambda>t. token_key t = key) (rev toks) of None \<Rightarrow> view s | Some t \<Rightarrow> val t)"
  by (induction toks rule: rev_induct) (simp_all add: parse_tokens_def assms)

lemma client_tag_last:
  "fold (client_tag_step tag) es b =
     (case find (\<lambda>e. e = ''-'' @ tag \<or> (strip_prefix ''-'' e = None \<and> (e = ''*'' \<or> e = tag))) (rev es) of
        None \<Rightarrow> b | Some e \<Rightarrow> strip_prefix ''-'' e \<noteq> None)"
proof (induction es rule: rev_induct)
  case (snoc e es)
  show ?case
  proof (cases "strip_prefix ''-'' e")
    case None
    with snoc show ?thesis by (auto simp: client_tag_step_def)
  next
    case (Some r)
    then have "e = ''-'' @ r" by (simp add: strip_prefix_Some)
    with snoc Some show ?thesis by (auto simp: client_tag_step_def)
  qed
qed simp

lemma ascii_lower_eq:
  "bval d < 65 \<or> 90 < bval d \<Longrightarrow> bval d < 97 \<or> 122 < bval d \<Longrightarrow> ascii_lower c = d \<longleftrightarrow> c = d"
  by (auto simp: ascii_lower_def bval_byte_of)

lemma fold_char_lower: "fold_char m (ascii_lower c) = fold_char m c"
  unfolding fold_char_def by (simp add: ascii_lower_eq)

lemma fold_char_fixed: "d \<in> {CHR ''{'', CHR ''}'', CHR ''|'', CHR ''~''} \<Longrightarrow> fold_char m d = d"
  unfolding insert_iff empty_iff fold_char_def by (elim disjE) (simp_all add: ascii_lower_def)

lemma fold_char_idem: "fold_char m (fold_char m c) = fold_char m c"
proof (cases "fold_char m c = ascii_lower c")
  case True
  then show ?thesis by (simp only: fold_char_lower)
next
  case False
  then have "fold_char m c \<in> {CHR ''{'', CHR ''}'', CHR ''|'', CHR ''~''}"
    unfolding fold_char_def by (simp split: if_splits)
  then show ?thesis by (rule fold_char_fixed)
qed

section \<open>Properties\<close>

text \<open>After any sequence of ISUPPORT lines a parameter holds what the last token about it says,
  its value, the empty value of a bare key, or nothing after a negation; and it counts as bare
  exactly when that token is a bare key.\<close>

theorem isupport_last_token_wins:
  "is_get (parse_tokens toks isupport_new) key =
     (case find (\<lambda>t. token_key t = key) (rev toks) of None \<Rightarrow> None | Some t \<Rightarrow> token_value t)"
  "key \<in> set (bare_tokens (parse_tokens toks isupport_new)) \<longleftrightarrow>
     (case find (\<lambda>t. token_key t = key) (rev toks) of None \<Rightarrow> False | Some t \<Rightarrow> token_bare t)"
proof -
  have new: "is_get isupport_new key = None" "key \<notin> set (bare_tokens isupport_new)"
    by (simp_all add: isupport_new_def is_get_def)
  show "is_get (parse_tokens toks isupport_new) key =
     (case find (\<lambda>t. token_key t = key) (rev toks) of None \<Rightarrow> None | Some t \<Rightarrow> token_value t)"
    using last_token [of "\<lambda>s. is_get s key" key token_value toks isupport_new] new(1)
    by (simp add: parse_token_get split: option.split)
  show "key \<in> set (bare_tokens (parse_tokens toks isupport_new)) \<longleftrightarrow>
     (case find (\<lambda>t. token_key t = key) (rev toks) of None \<Rightarrow> False | Some t \<Rightarrow> token_bare t)"
    using last_token [of "\<lambda>s. key \<in> set (bare_tokens s)" key token_bare toks isupport_new] new(2)
    by (simp add: parse_token_bare split: option.split)
qed

text \<open>The case mapping is a normal form: folding twice is folding once, and names that differ
  only in the case of ASCII letters fold to the same name under every mapping.\<close>

theorem casefold_normal_form:
  "casefold (casefold nick m) m = casefold nick m"
  "casefold (to_ascii_lowercase nick) m = casefold nick m"
  by (simp_all add: casefold_def to_ascii_lowercase_def fold_char_idem fold_char_lower)

end
