(* ===== verification/Irc_Formatting.thy ===== *)
theory Irc_Formatting
  imports Rust_Text
begin

text \<open>
  Text formatting and nick prefixes (\<open>src/src/irc/formatting.rs\<close>).  The index loop of
  \<open>strip_irc_formatting\<close> reads the text from a position on; the model carries the rest of the text.
  \<open>Prefix\<close> is the \<open>irc\<close> crate's public type.
\<close>

section \<open>Stripping the mIRC codes\<close>

definition is_ascii_hexdigit :: "byte \<Rightarrow> bool" where
  "is_ascii_hexdigit c \<longleftrightarrow> is_ascii_digit c \<or> (65 \<le> bval c \<and> bval c \<le> 70) \<or> (97 \<le> bval c \<and> bval c \<le> 102)"

definition toggle :: "byte \<Rightarrow> bool" where
  "toggle c \<longleftrightarrow> bval c \<in> {2, 29, 31, 30, 22, 15}"

text \<open>The loops that skip at most \<open>n\<close> bytes of a kind.\<close>

fun skip_upto :: "nat \<Rightarrow> (byte \<Rightarrow> bool) \<Rightarrow> bytes \<Rightarrow> bytes" where
  "skip_upto (Suc n) P (c # cs) = (if P c then skip_upto n P cs else c # cs)"
| "skip_upto n P cs = cs"

text \<open>The digits of a colour, and those of a background after a comma that a digit follows.\<close>

definition skip_color :: "nat \<Rightarrow> (byte \<Rightarrow> bool) \<Rightarrow> bytes \<Rightarrow> bytes" where
  "skip_color n P s =
     (let rest = skip_upto n P s in
      case rest of
        c # d # ds \<Rightarrow> if c = CHR '','' \<and> P d then skip_upto n P (d # ds) else rest
      | _ \<Rightarrow> rest)"

lemma length_skip_upto: "length (skip_upto n P s) \<le> length s"
  by (induction n P s rule: skip_upto.induct) auto

lemma length_skip_color: "length (skip_color n P s) \<le> length s"
proof -
  have "length (skip_color n P s) \<le> length (skip_upto n P s)"
  proof (cases "skip_upto n P s")
    case (Cons c t)
    then show ?thesis using length_skip_upto [of n P t]
      by (cases t) (auto simp: skip_color_def)
  qed (simp add: skip_color_def)
  then show ?thesis using length_skip_upto [of n P s] by simp
qed

function strip_irc_formatting :: "bytes \<Rightarrow> bytes" where
  "strip_irc_formatting [] = []"
| "strip_irc_formatting (c # cs) =
     (if toggle c then strip_irc_formatting cs
      else if bval c = 3 then strip_irc_formatting (skip_color 2 is_ascii_digit cs)
      else if bval c = 4 then strip_irc_formatting (skip_color 6 is_ascii_hexdigit cs)
      else (c # takeWhile is_cont cs) @ strip_irc_formatting (dropWhile is_cont cs))"
  by pat_completeness auto
termination
  by (relation "measure length")
    (auto simp: length_dropWhile_le le_imp_less_Suc length_skip_color)

section \<open>Nick prefixes\<close>

definition PREFIXES :: bytes where "PREFIXES = ''~&@%+''"

text \<open>The prefixes are ASCII, so the loop over the characters stops at the first other byte.\<close>

definition split_nick_prefix :: "bytes \<Rightarrow> bytes \<times> bytes" where
  "split_nick_prefix s = (takeWhile (\<lambda>c. c \<in> set PREFIXES) s, dropWhile (\<lambda>c. c \<in> set PREFIXES) s)"

fun prefix_mode_char :: "bytes \<Rightarrow> bytes" where
  "prefix_mode_char c =
     (if c = ''~'' then ''q'' else if c = ''&'' then ''a'' else if c = ''@'' then ''o''
      else if c = ''%'' then ''h'' else if c = ''+'' then ''v'' else c)"

definition prefix_to_mode :: "bytes \<Rightarrow> bytes" where
  "prefix_to_mode p = concat (map prefix_mode_char (chars_of p))"

definition modes_to_prefix :: "bytes \<Rightarrow> bytes \<Rightarrow> bytes" where
  "modes_to_prefix mode_str prefix_order =
     concat (filter (\<lambda>p. contains_str (prefix_mode_char p) mode_str) (chars_of prefix_order))"

definition is_channel :: "bytes \<Rightarrow> bool" where
  "is_channel target \<longleftrightarrow>
     starts_with ''#'' target \<or> starts_with ''&'' target \<or> starts_with ''+'' target \<or> starts_with ''!'' target"

datatype irc_prefix = Nickname bytes bytes bytes | ServerName bytes

definition extract_nick :: "irc_prefix option \<Rightarrow> bytes option" where
  "extract_nick p = map_option (\<lambda>x. case x of Nickname nick _ _ \<Rightarrow> nick | ServerName name \<Rightarrow> name) p"

fun extract_nick_userhost :: "irc_prefix option \<Rightarrow> bytes \<times> bytes \<times> bytes" where
  "extract_nick_userhost (Some (Nickname nick user host)) = (nick, user, host)"
| "extract_nick_userhost (Some (ServerName name)) = (name, [], [])"
| "extract_nick_userhost None = ([], [], [])"

fun is_server_prefix :: "irc_prefix option \<Rightarrow> bool" where
  "is_server_prefix (Some (ServerName _)) = True"
| "is_server_prefix None = True"
| "is_server_prefix (Some (Nickname _ user _)) = (user = [])"

section \<open>What is left of a text\<close>

definition control_code :: "byte \<Rightarrow> bool" where
  "control_code c \<longleftrightarrow> toggle c \<or> bval c = 3 \<or> bval c = 4"

lemma cont_no_code: "is_cont c \<Longrightarrow> \<not> control_code c"
  by (auto simp: is_cont_def control_code_def toggle_def)

lemma strip_no_codes: "c \<in> set (strip_irc_formatting s) \<Longrightarrow> \<not> control_code c"
proof (induction s rule: strip_irc_formatting.induct)
  case (2 x xs)
  show ?case
  proof (cases "control_code x")
    case True
    with 2 show ?thesis by (auto simp: control_code_def split: if_splits)
  next
    case False
    with 2 show ?thesis using cont_no_code
      by (auto simp: control_code_def dest: set_takeWhileD)
  qed
qed simp

lemma strip_clean: "\<forall>c\<in>set s. \<not> control_code c \<Longrightarrow> strip_irc_formatting s = s"
proof (induction s rule: strip_irc_formatting.induct)
  case (2 x xs)
  then have "\<not> toggle x" "bval x \<noteq> 3" "bval x \<noteq> 4" by (auto simp: control_code_def)
  moreover have "strip_irc_formatting (dropWhile is_cont xs) = dropWhile is_cont xs"
    using 2 calculation by (auto dest: set_dropWhileD)
  ultimately show ?case by simp
qed simp

lemma split_prefix_join: "fst (split_nick_prefix s) @ snd (split_nick_prefix s) = s"
  by (simp add: split_nick_prefix_def)

section \<open>Property\<close>

text \<open>Stripping removes every formatting code: no bold, italic, underline, strike-through,
  reverse, reset, colour or hex colour byte is left; a text without codes is unchanged; and
  stripping a second time changes nothing.\<close>

theorem strip_irc_formatting_complete:
  "(\<forall>c\<in>set (strip_irc_formatting s). bval c \<notin> {2, 3, 4, 15, 22, 29, 30, 31}) \<and>
   (strip_irc_formatting s = s \<longleftrightarrow> (\<forall>c\<in>set s. bval c \<notin> {2, 3, 4, 15, 22, 29, 30, 31})) \<and>
   strip_irc_formatting (strip_irc_formatting s) = strip_irc_formatting s"
proof -
  have code: "bval c \<notin> {2, 3, 4, 15, 22, 29, 30, 31} \<longleftrightarrow> \<not> control_code c" for c
    by (auto simp: control_code_def toggle_def)
  show ?thesis unfolding code using strip_no_codes strip_clean by metis
qed

text \<open>For example: codes and their digits go, while digits that are text stay.\<close>

lemma strip_example:
  "strip_irc_formatting ([CHR 0x02] @ ''a'' @ [CHR 0x03] @ ''04,12b,'' @ [CHR 0x03] @ ''123,x'') = ''ab,3,x''"
  by code_simp

end
