(* ===== verification/Irc_Cap.thy ===== *)
theory Irc_Cap
  imports Rust_Text
begin

text \<open>
  Capability negotiation (\<open>src/src/irc/cap.rs\<close>).  \<open>str::to_uppercase\<close> follows the Unicode case
  table and is the argument \<open>uc\<close>.
\<close>

section \<open>Model\<close>

definition METADATA_CAP :: bytes where "METADATA_CAP = ''draft/metadata-2''"

definition DESIRED_CAPS :: "bytes list" where
  "DESIRED_CAPS =
     [''multi-prefix'', ''extended-join'', ''ircnet.com/extended-join'', ''server-time'', ''account-tag'',
      ''cap-notify'', ''away-notify'', ''account-notify'', ''chghost'', ''setname'', ''extended-monitor'',
      ''draft/extended-monitor'', ''echo-message'', ''invite-notify'', ''batch'', ''draft/extended-isupport'',
      ''labeled-response'', ''userhost-in-names'', ''no-implicit-names'', ''draft/no-implicit-names'',
      ''soju.im/no-implicit-names'', ''message-tags'', ''draft/multiline'', ''draft/chathistory'',
      ''draft/event-playback'', ''sasl'']"

type_synonym server_caps = "(bytes \<times> bytes option) list"

definition parse_cap :: "bytes \<Rightarrow> bytes \<times> bytes option" where
  "parse_cap tok =
     (case split_once CHR ''='' tok of
        Some (name, v) \<Rightarrow> (to_ascii_lowercase name, Some v)
      | None \<Rightarrow> (to_ascii_lowercase tok, None))"

definition caps_parse :: "bytes \<Rightarrow> server_caps" where
  "caps_parse caps_str = map parse_cap (split_whitespace caps_str)"

definition caps_merge :: "bytes \<Rightarrow> server_caps \<Rightarrow> server_caps" where
  "caps_merge caps_str caps = caps @ caps_parse caps_str"

definition caps_has :: "server_caps \<Rightarrow> bytes \<Rightarrow> bool" where
  "caps_has caps cap = list_ex (\<lambda>(name, _). eq_ignore_ascii_case name cap) caps"

definition caps_value :: "server_caps \<Rightarrow> bytes \<Rightarrow> bytes option" where
  "caps_value caps cap =
     (case find (\<lambda>(name, _). eq_ignore_ascii_case name cap) caps of None \<Rightarrow> None | Some (_, v) \<Rightarrow> v)"

definition negotiate :: "server_caps \<Rightarrow> bytes list \<Rightarrow> bytes list" where
  "negotiate caps desired = map to_ascii_lowercase (filter (caps_has caps) desired)"

definition bouncer_network_caps :: "server_caps \<Rightarrow> bytes list" where
  "bouncer_network_caps caps =
     negotiate caps [''draft/read-marker'', ''soju.im/read'', ''draft/message-redaction'',
       ''draft/account-registration'', ''soju.im/search'', METADATA_CAP]"

definition sasl_mechanisms_advertised :: "(bytes \<Rightarrow> bytes) \<Rightarrow> server_caps \<Rightarrow> bytes list option" where
  "sasl_mechanisms_advertised uc caps =
     (case caps_value caps ''sasl'' of
        Some v \<Rightarrow> if v \<noteq> [] then Some (map uc (split_on CHR '','' v)) else None
      | None \<Rightarrow> None)"

definition sasl_mechanisms :: "(bytes \<Rightarrow> bytes) \<Rightarrow> server_caps \<Rightarrow> bytes list" where
  "sasl_mechanisms uc caps =
     (if \<not> caps_has caps ''sasl'' then []
      else unwrap_or [''PLAIN''] (sasl_mechanisms_advertised uc caps))"

definition all_names :: "server_caps \<Rightarrow> bytes set" where
  "all_names caps = set (map fst caps)"

section \<open>Lemmas\<close>

lemma parse_cap_lower: "to_ascii_lowercase (fst (parse_cap tok)) = fst (parse_cap tok)"
  by (simp add: parse_cap_def to_ascii_lowercase_def split: option.split prod.split)

lemma caps_lower: "c \<in> set (caps_parse s) \<Longrightarrow> to_ascii_lowercase (fst c) = fst c"
  by (auto simp: caps_parse_def parse_cap_lower)

lemma caps_has_parse:
  "caps_has (caps_parse s) cap \<longleftrightarrow> to_ascii_lowercase cap \<in> all_names (caps_parse s)"
proof
  assume "caps_has (caps_parse s) cap"
  then obtain c where c: "c \<in> set (caps_parse s)" "to_ascii_lowercase (fst c) = to_ascii_lowercase cap"
    by (auto simp: caps_has_def list_ex_iff eq_ignore_ascii_case_def)
  then have "fst c = to_ascii_lowercase cap" using caps_lower [OF c(1)] by simp
  with c(1) show "to_ascii_lowercase cap \<in> all_names (caps_parse s)" by (auto simp: all_names_def rev_image_eqI)
next
  assume "to_ascii_lowercase cap \<in> all_names (caps_parse s)"
  then obtain c where c: "c \<in> set (caps_parse s)" "fst c = to_ascii_lowercase cap" by (auto simp: all_names_def)
  then have "eq_ignore_ascii_case (fst c) cap"
    using caps_lower [OF c(1)] by (simp add: eq_ignore_ascii_case_def)
  with c(1) show "caps_has (caps_parse s) cap" by (auto simp: caps_has_def list_ex_iff case_prod_unfold)
qed

lemma caps_has_merge: "caps_has (caps_merge s caps) cap \<longleftrightarrow> caps_has caps cap \<or> caps_has (caps_parse s) cap"
  by (auto simp: caps_has_def caps_merge_def)

text \<open>A capability list split over several lines negotiates as if it had come in one.\<close>

lemma negotiate_lines:
  "negotiate (fold caps_merge more (caps_parse first)) desired =
     map to_ascii_lowercase (filter (\<lambda>d. \<exists>l\<in>set (first # more). to_ascii_lowercase d \<in> all_names (caps_parse l)) desired)"
proof -
  have "caps_has (fold caps_merge more caps) d \<longleftrightarrow> caps_has caps d \<or> (\<exists>l\<in>set more. caps_has (caps_parse l) d)" for d caps
    by (induction more arbitrary: caps) (auto simp: caps_has_merge)
  then show ?thesis unfolding negotiate_def by (intro arg_cong2 [where f = map] filter_cong refl) (simp add: caps_has_parse)
qed

text \<open>A bare \<open>sasl\<close> reads as PLAIN, but counts as no list of mechanisms.\<close>

lemma bare_sasl:
  "sasl_mechanisms uc (caps_parse ''sasl'') = [''PLAIN'']"
  "sasl_mechanisms_advertised uc (caps_parse ''sasl'') = None"
proof -
  have "caps_parse ''sasl'' = [(to_ascii_lowercase ''sasl'', None)]"
  proof -
    have "split_whitespace ''sasl'' = [''sasl'']" by (rule split_whitespace_last) (simp_all add: no_ws_graphic del: no_ws.simps)
    then show ?thesis by (simp add: caps_parse_def parse_cap_def)
  qed
  then show "sasl_mechanisms uc (caps_parse ''sasl'') = [''PLAIN'']"
    "sasl_mechanisms_advertised uc (caps_parse ''sasl'') = None"
    by (simp_all add: sasl_mechanisms_def caps_has_def sasl_mechanisms_advertised_def caps_value_def
        eq_ignore_ascii_case_def to_ascii_lowercase_def)
qed

end
