(* ===== verification/Irc_Extban.thy ===== *)
theory Irc_Extban
  imports Rust_Text
begin

text \<open>
  Extended ban masks (\<open>src/src/irc/extban.rs\<close>): the parser, the printer and the friendly text.
  A \<open>char\<close> is the list of its UTF-8 bytes.
\<close>

section \<open>Model\<close>

record extban_mask =
  ban_type :: bytes
  parameter :: "bytes option"
  eb_user :: bytes
  eb_host :: bytes

definition extban_new :: "bytes \<Rightarrow> bytes option \<Rightarrow> bytes \<Rightarrow> bytes \<Rightarrow> extban_mask" where
  "extban_new bt param user host = \<lparr>ban_type = bt, parameter = param, eb_user = user, eb_host = host\<rparr>"

text \<open>The parameter after the type: none, a text after a colon, or no extended ban at all.\<close>

definition parse_parameter :: "bytes \<Rightarrow> bytes option option" where
  "parse_parameter type_part =
     (case strip_prefix '':'' type_part of
        Some param \<Rightarrow> Some (if param = [] then None else Some param)
      | None \<Rightarrow> if type_part = [] then Some None else None)"

definition split_userhost :: "bytes \<Rightarrow> bytes \<times> bytes" where
  "split_userhost userhost = (case split_once CHR ''@'' userhost of None \<Rightarrow> (userhost, ''*'') | Some uh \<Rightarrow> uh)"

definition parse_with_prefix :: "bytes \<Rightarrow> bytes \<Rightarrow> extban_mask option" where
  "parse_with_prefix msk pfx =
     (case strip_prefix pfx msk of
        None \<Rightarrow> None
      | Some rest \<Rightarrow>
          (case chars_of rest of
             [] \<Rightarrow> None
           | bt # _ \<Rightarrow>
               let remainder = drop (length bt) rest;
                   (type_part, userhost) =
                     (case find_byte CHR ''!'' remainder of
                        None \<Rightarrow> (remainder, ''*@*'')
                      | Some bang \<Rightarrow> (take bang remainder, drop (bang + 1) remainder))
               in case parse_parameter type_part of
                 None \<Rightarrow> None
               | Some param \<Rightarrow>
                   (case split_userhost userhost of (user, host) \<Rightarrow>
                      Some \<lparr>ban_type = bt, parameter = param, eb_user = user, eb_host = host\<rparr>)))"

definition extban_parse :: "bytes \<Rightarrow> extban_mask option" where
  "extban_parse msk = parse_with_prefix msk ''$''"

definition eb_userhost :: "extban_mask \<Rightarrow> bytes" where
  "eb_userhost eb = eb_user eb @ ''@'' @ eb_host eb"

definition friendly :: "bytes \<Rightarrow> extban_mask \<Rightarrow> bytes" where
  "friendly name eb =
     (case parameter eb of
        None \<Rightarrow> name @ '' (any) ('' @ eb_userhost eb @ '')''
      | Some p \<Rightarrow> name @ '':'' @ p @ '' ('' @ eb_userhost eb @ '')'')"

definition display_friendly_unknown :: "extban_mask \<Rightarrow> bytes" where
  "display_friendly_unknown eb = friendly (ban_type eb) eb"

definition display_friendly :: "extban_mask \<Rightarrow> bytes" where
  "display_friendly eb =
     (if ban_type eb = ''a'' then friendly ''account'' eb
      else if ban_type eb = ''c'' then friendly ''channel'' eb
      else if ban_type eb = ''j'' then friendly ''realname'' eb
      else if ban_type eb = ''n'' then friendly ''nick-change'' eb
      else if ban_type eb = ''o'' then friendly ''oper'' eb
      else if ban_type eb = ''r'' then friendly ''gecos'' eb
      else if ban_type eb = ''s'' then friendly ''server'' eb
      else display_friendly_unknown eb)"

definition extban_show :: "extban_mask \<Rightarrow> bytes" where
  "extban_show eb =
     ''$'' @ ban_type eb @ (case parameter eb of None \<Rightarrow> [] | Some p \<Rightarrow> '':'' @ p)
     @ ''!'' @ eb_user eb @ ''@'' @ eb_host eb"

text \<open>The dash U+2014 in UTF-8.\<close>

definition em_dash :: bytes where
  "em_dash = [CHR 0xE2, CHR 0x80, CHR 0x94]"

definition format_ban_mask :: "bytes \<Rightarrow> bytes option \<Rightarrow> bytes" where
  "format_ban_mask msk extban_prefix =
     (case parse_with_prefix msk (unwrap_or ''$'' extban_prefix) of
        None \<Rightarrow> msk
      | Some eb \<Rightarrow> display_friendly eb @ '' '' @ em_dash @ '' '' @ msk)"

definition compose_account_ban :: "bytes \<Rightarrow> bytes option \<Rightarrow> bytes" where
  "compose_account_ban account extban_prefix =
     unwrap_or ''$'' extban_prefix @ ''a:'' @ account @ ''!*@*''"

section \<open>Printing and parsing\<close>

text \<open>The masks the printer writes unambiguously.\<close>

definition extban_ok :: "extban_mask \<Rightarrow> bool" where
  "extban_ok eb \<longleftrightarrow>
     (\<exists>a as. ban_type eb = a # as \<and> list_all is_cont as) \<and>
     (\<forall>p. parameter eb = Some p \<longrightarrow> p \<noteq> [] \<and> CHR ''!'' \<notin> set p) \<and> CHR ''@'' \<notin> set (eb_user eb)"

lemma chars_of_head:
  "list_all is_cont as \<Longrightarrow> \<not> is_cont b \<Longrightarrow> chars_of (a # as @ b # s) = (a # as) # chars_of (b # s)"
  by (simp add: list_all_iff takeWhile_append2 dropWhile_append2)

lemma find_byte_append: "c \<notin> set a \<Longrightarrow> find_byte c (a @ c # b) = Some (length a)"
  by (induction a) auto

lemma parse_show:
  assumes "extban_ok eb"
  shows "parse_with_prefix (pre @ tl (extban_show eb)) pre = Some eb"
proof -
  obtain a as where bt: "ban_type eb = a # as" "list_all is_cont as"
    using assms by (auto simp: extban_ok_def)
  define tp where "tp = (case parameter eb of None \<Rightarrow> [] | Some p \<Rightarrow> '':'' @ p)"
  define uh where "uh = eb_user eb @ CHR ''@'' # eb_host eb"
  have show_eq: "tl (extban_show eb) = ban_type eb @ tp @ CHR ''!'' # uh"
    by (simp add: extban_show_def tp_def uh_def)
  have tp: "CHR ''!'' \<notin> set tp" "parse_parameter tp = Some (parameter eb)"
    using assms by (auto simp: tp_def extban_ok_def parse_parameter_def split: option.split)
  obtain c s where cs: "tp @ CHR ''!'' # uh = c # s" "\<not> is_cont c"
    by (cases "parameter eb") (simp_all add: tp_def is_cont_def)
  have "chars_of (ban_type eb @ tp @ CHR ''!'' # uh) = ban_type eb # chars_of (c # s)"
    using chars_of_head [OF bt(2) cs(2)] bt(1) cs(1) by simp
  moreover have "split_userhost uh = (eb_user eb, eb_host eb)"
    using assms by (simp add: split_userhost_def uh_def extban_ok_def split_once_append)
  ultimately show ?thesis
    using tp by (simp add: parse_with_prefix_def show_eq find_byte_append Let_def)
qed

section \<open>Properties\<close>

text \<open>C40: Round trip of extended bans: a mask with a type character, a parameter that is not empty
  and has no exclamation mark, and a user part without an at sign is read back as it was printed.\<close>

theorem extban_roundtrip:
  assumes "extban_ok eb"
  shows "extban_parse (extban_show eb) = Some eb"
proof -
  have "extban_show eb = ''$'' @ tl (extban_show eb)" by (simp add: extban_show_def)
  with parse_show [OF assms, of "''$''"] show ?thesis by (simp add: extban_parse_def)
qed

theorem extban_roundtrip_witness:
  "extban_parse (extban_show \<lparr>ban_type = ''a'', parameter = Some ''patrick'', eb_user = ''*'', eb_host = ''*''\<rparr>)
     = Some \<lparr>ban_type = ''a'', parameter = Some ''patrick'', eb_user = ''*'', eb_host = ''*''\<rparr> \<and>
   extban_show \<lparr>ban_type = ''a'', parameter = Some ''patrick'', eb_user = ''*'', eb_host = ''*''\<rparr> = ''$a:patrick!*@*''"
  using extban_roundtrip [of "\<lparr>ban_type = ''a'', parameter = Some ''patrick'', eb_user = ''*'', eb_host = ''*''\<rparr>"]
  by (simp add: extban_ok_def extban_show_def)

text \<open>An account ban composed for a server is read back with that server's prefix.\<close>

lemma compose_account_ban_parses:
  assumes "account \<noteq> []" "CHR ''!'' \<notin> set account"
  shows "parse_with_prefix (compose_account_ban account pfx) (unwrap_or ''$'' pfx) =
     Some \<lparr>ban_type = ''a'', parameter = Some account, eb_user = ''*'', eb_host = ''*''\<rparr>"
  using parse_show [of "\<lparr>ban_type = ''a'', parameter = Some account, eb_user = ''*'', eb_host = ''*''\<rparr>" "unwrap_or ''$'' pfx"]
    assms by (simp add: extban_ok_def extban_show_def compose_account_ban_def)

text \<open>With a server prefix of its own, a mask that starts with the usual \<open>$\<close> is shown raw.\<close>

lemma dollar_mask_stays_raw: "format_ban_mask ''$a:patrick!*@*'' (Some ''~'') = ''$a:patrick!*@*''"
  by (simp add: format_ban_mask_def parse_with_prefix_def)

end
