(* ===== verification/Irc_Flood.thy ===== *)
theory Irc_Flood
  imports Limiter Rust_Time "HOL-Library.Word"
begin

text \<open>
  Flood protection (\<open>src/src/irc/flood.rs\<close>): five detectors over sliding windows of time stamps.
  \<open>hash_text\<close> is \<open>DefaultHasher\<close>, whose algorithm its documentation leaves unspecified: the
  function \<open>h\<close> is an argument.
\<close>

section \<open>State\<close>

datatype flood_result = Allow | Triggered | Blocked

fun suppressed :: "flood_result \<Rightarrow> bool" where
  "suppressed Triggered = True"
| "suppressed Blocked = True"
| "suppressed Allow = False"

definition CTCP_THRESHOLD :: nat where "CTCP_THRESHOLD = 5"
definition CTCP_WINDOW :: nat where "CTCP_WINDOW = secs 5"
definition CTCP_BLOCK :: nat where "CTCP_BLOCK = secs 60"
definition TILDE_NICK_THRESHOLD :: nat where "TILDE_NICK_THRESHOLD = 5"
definition TILDE_NICK_WINDOW :: nat where "TILDE_NICK_WINDOW = secs 5"
definition TILDE_NICK_BLOCK :: nat where "TILDE_NICK_BLOCK = secs 60"
definition PM_STORM_THRESHOLD :: nat where "PM_STORM_THRESHOLD = 6"
definition PM_STORM_WINDOW :: nat where "PM_STORM_WINDOW = secs 5"
definition PM_STORM_BLOCK :: nat where "PM_STORM_BLOCK = secs 60"
definition DUP_MIN_IN_WINDOW :: nat where "DUP_MIN_IN_WINDOW = 5"
definition DUP_THRESHOLD :: nat where "DUP_THRESHOLD = 3"
definition DUP_WINDOW :: nat where "DUP_WINDOW = secs 5"
definition DUP_BLOCK :: nat where "DUP_BLOCK = secs 60"
definition NICK_THRESHOLD :: nat where "NICK_THRESHOLD = 5"
definition NICK_WINDOW :: nat where "NICK_WINDOW = secs 3"
definition NICK_BLOCK :: nat where "NICK_BLOCK = secs 60"

lemmas flood_times = CTCP_WINDOW_def CTCP_BLOCK_def TILDE_NICK_WINDOW_def TILDE_NICK_BLOCK_def
  PM_STORM_WINDOW_def PM_STORM_BLOCK_def DUP_WINDOW_def DUP_BLOCK_def NICK_WINDOW_def NICK_BLOCK_def secs_def

lemmas flood_limits = CTCP_THRESHOLD_def TILDE_NICK_THRESHOLD_def PM_STORM_THRESHOLD_def
  DUP_MIN_IN_WINDOW_def DUP_THRESHOLD_def NICK_THRESHOLD_def

type_synonym text_hash = "64 word"

record flood_state =
  ctcp_times :: "nat list"
  ctcp_blocked_until :: "nat option"
  tilde_nick_times :: "(text_hash, nat list) hmap"
  tilde_nick_blocked :: "(text_hash, nat) hmap"
  pm_storm_nicks :: "(text_hash \<times> nat) list"
  pm_storm_blocked_until :: "nat option"
  msg_window :: "(text_hash \<times> nat) list"
  blocked_texts :: "(text_hash, nat) hmap"
  nick_times :: "(bytes, nat list) hmap"
  nick_blocked_until :: "(bytes, nat) hmap"

definition flood_new :: flood_state where
  "flood_new = \<lparr>ctcp_times = [], ctcp_blocked_until = None, tilde_nick_times = [], tilde_nick_blocked = [],
     pm_storm_nicks = [], pm_storm_blocked_until = None, msg_window = [], blocked_texts = [],
     nick_times = [], nick_blocked_until = []\<rparr>"

section \<open>Operations\<close>

text \<open>The loop drops the time stamps older than the window from the front; the caller reads the length.\<close>

definition prune_window :: "nat list \<Rightarrow> nat \<Rightarrow> nat \<Rightarrow> nat list" where
  "prune_window ts now window = dropWhile (\<lambda>t. t < cutoff now window) ts"

fun unique_loop :: "text_hash list \<Rightarrow> (text_hash \<times> nat) list \<Rightarrow> text_hash list" where
  "unique_loop seen [] = seen"
| "unique_loop seen ((hash, t) # es) =
     unique_loop (if hash \<in> set seen then seen else seen @ [hash]) es"

definition unique_count :: "(text_hash \<times> nat) list \<Rightarrow> nat" where
  "unique_count es = length (unique_loop [] es)"

definition ctcp_count :: "nat \<Rightarrow> flood_state \<Rightarrow> flood_result \<times> flood_state" where
  "ctcp_count now s =
     (let win = prune_window (ctcp_times s @ [now]) now CTCP_WINDOW in
      if length win \<ge> CTCP_THRESHOLD
      then (Triggered, s\<lparr>ctcp_blocked_until := Some (now + CTCP_BLOCK), ctcp_times := []\<rparr>)
      else (Allow, s\<lparr>ctcp_times := win\<rparr>))"

definition check_ctcp_flood :: "nat \<Rightarrow> flood_state \<Rightarrow> flood_result \<times> flood_state" where
  "check_ctcp_flood now s =
     (case ctcp_blocked_until s of
        Some until \<Rightarrow>
          if now < until then (Blocked, s\<lparr>ctcp_blocked_until := Some (now + CTCP_BLOCK)\<rparr>)
          else ctcp_count now (s\<lparr>ctcp_blocked_until := None\<rparr>)
      | None \<Rightarrow> ctcp_count now s)"

text \<open>The clean-up of idle keys once there are more than 200 of them.\<close>

definition prune_times :: "nat \<Rightarrow> ('k, nat list) hmap \<Rightarrow> ('k, nat list) hmap" where
  "prune_times oldest m =
     filter (\<lambda>(_, v). v \<noteq> []) (map (\<lambda>(k, v). (k, filter (\<lambda>t. t \<ge> oldest) v)) m)"

definition tilde_cleanup :: "nat \<Rightarrow> flood_state \<Rightarrow> flood_state" where
  "tilde_cleanup now s =
     (if length (tilde_nick_times s) > 200
      then s\<lparr>tilde_nick_times := prune_times (cutoff now TILDE_NICK_WINDOW) (tilde_nick_times s),
             tilde_nick_blocked := hm_retain (\<lambda>(_, until). until > now) (tilde_nick_blocked s)\<rparr>
      else s)"

definition times_of :: "('k, nat list) hmap \<Rightarrow> 'k \<Rightarrow> nat list" where
  "times_of m k = (case hm_get m k of Some ts \<Rightarrow> ts | None \<Rightarrow> [])"

definition tilde_count :: "text_hash \<Rightarrow> nat \<Rightarrow> flood_state \<Rightarrow> flood_result \<times> flood_state" where
  "tilde_count nick_hash now s =
     (let win = prune_window (times_of (tilde_nick_times s) nick_hash @ [now]) now TILDE_NICK_WINDOW in
      if length win \<ge> TILDE_NICK_THRESHOLD
      then (Triggered,
        s\<lparr>tilde_nick_blocked := hm_put nick_hash (now + TILDE_NICK_BLOCK) (tilde_nick_blocked s),
          tilde_nick_times := hm_put nick_hash [] (tilde_nick_times s)\<rparr>)
      else (Allow, tilde_cleanup now (s\<lparr>tilde_nick_times := hm_put nick_hash win (tilde_nick_times s)\<rparr>)))"

definition check_tilde_nick_flood ::
  "(bytes \<Rightarrow> text_hash) \<Rightarrow> bytes \<Rightarrow> nat \<Rightarrow> flood_state \<Rightarrow> flood_result \<times> flood_state" where
  "check_tilde_nick_flood h nick now s =
     (let nick_hash = h nick in
      case hm_get (tilde_nick_blocked s) nick_hash of
        Some until \<Rightarrow>
          if now < until
          then (Blocked, s\<lparr>tilde_nick_blocked := hm_put nick_hash (now + TILDE_NICK_BLOCK) (tilde_nick_blocked s)\<rparr>)
          else tilde_count nick_hash now (s\<lparr>tilde_nick_blocked := hm_del nick_hash (tilde_nick_blocked s)\<rparr>)
      | None \<Rightarrow> tilde_count nick_hash now s)"

definition storm_count :: "text_hash \<Rightarrow> nat \<Rightarrow> flood_state \<Rightarrow> flood_result \<times> flood_state" where
  "storm_count nick_hash now s =
     (let kept = filter (\<lambda>(_, t). t \<ge> cutoff now PM_STORM_WINDOW) (pm_storm_nicks s @ [(nick_hash, now)]) in
      if unique_count kept \<ge> PM_STORM_THRESHOLD
      then (Triggered, s\<lparr>pm_storm_blocked_until := Some (now + PM_STORM_BLOCK), pm_storm_nicks := []\<rparr>)
      else (Allow, s\<lparr>pm_storm_nicks := kept\<rparr>))"

definition check_pm_tilde_storm ::
  "(bytes \<Rightarrow> text_hash) \<Rightarrow> bytes \<Rightarrow> nat \<Rightarrow> flood_state \<Rightarrow> flood_result \<times> flood_state" where
  "check_pm_tilde_storm h nick now s =
     (case pm_storm_blocked_until s of
        Some until \<Rightarrow>
          if now < until then (Blocked, s\<lparr>pm_storm_blocked_until := Some (now + PM_STORM_BLOCK)\<rparr>)
          else storm_count (h nick) now (s\<lparr>pm_storm_blocked_until := None\<rparr>)
      | None \<Rightarrow> storm_count (h nick) now s)"

definition dup_count :: "text_hash \<Rightarrow> nat \<Rightarrow> flood_state \<Rightarrow> flood_result \<times> flood_state" where
  "dup_count hash now s =
     (let win = filter (\<lambda>(_, t). t \<ge> cutoff now DUP_WINDOW) (msg_window s @ [(hash, now)]);
          s1 = s\<lparr>msg_window := win\<rparr> in
      if length win \<ge> DUP_MIN_IN_WINDOW \<and> length (filter (\<lambda>(k, _). k = hash) win) \<ge> DUP_THRESHOLD
      then (Triggered, s1\<lparr>blocked_texts := hm_put hash (now + DUP_BLOCK) (blocked_texts s)\<rparr>)
      else (Allow,
        if length (blocked_texts s) > 50
        then s1\<lparr>blocked_texts := hm_retain (\<lambda>(_, until). until > now) (blocked_texts s)\<rparr> else s1))"

definition check_duplicate_flood ::
  "(bytes \<Rightarrow> text_hash) \<Rightarrow> bytes \<Rightarrow> bool \<Rightarrow> nat \<Rightarrow> flood_state \<Rightarrow> flood_result \<times> flood_state" where
  "check_duplicate_flood h txt is_channel now s =
     (if \<not> is_channel \<or> txt = [] then (Allow, s)
      else
        let hash = h txt in
        if (case hm_get (blocked_texts s) hash of Some until \<Rightarrow> now < until | None \<Rightarrow> False)
        then (Blocked, s\<lparr>blocked_texts := hm_put hash (now + DUP_BLOCK) (blocked_texts s)\<rparr>)
        else dup_count hash now s)"

definition nick_cleanup :: "nat \<Rightarrow> flood_state \<Rightarrow> flood_state" where
  "nick_cleanup now s =
     (if length (nick_times s) > 200
      then s\<lparr>nick_times := prune_times (cutoff now NICK_WINDOW) (nick_times s),
             nick_blocked_until := hm_retain (\<lambda>(_, until). until > now) (nick_blocked_until s)\<rparr>
      else s)"

definition nick_count :: "bytes \<Rightarrow> nat \<Rightarrow> flood_state \<Rightarrow> bool \<times> flood_state" where
  "nick_count buffer_id now s =
     (let win = prune_window (times_of (nick_times s) buffer_id @ [now]) now NICK_WINDOW in
      if length win \<ge> NICK_THRESHOLD
      then (True,
        s\<lparr>nick_blocked_until := hm_put buffer_id (now + NICK_BLOCK) (nick_blocked_until s),
          nick_times := hm_put buffer_id [] (nick_times s)\<rparr>)
      else (False, nick_cleanup now (s\<lparr>nick_times := hm_put buffer_id win (nick_times s)\<rparr>)))"

definition should_suppress_nick_flood :: "bytes \<Rightarrow> nat \<Rightarrow> flood_state \<Rightarrow> bool \<times> flood_state" where
  "should_suppress_nick_flood buffer_id now s =
     (case hm_get (nick_blocked_until s) buffer_id of
        Some until \<Rightarrow>
          if now < until
          then (True, s\<lparr>nick_blocked_until := hm_put buffer_id (now + NICK_BLOCK) (nick_blocked_until s)\<rparr>)
          else nick_count buffer_id now (s\<lparr>nick_blocked_until := hm_del buffer_id (nick_blocked_until s)\<rparr>)
      | None \<Rightarrow> nick_count buffer_id now s)"

definition remove_buffer :: "bytes \<Rightarrow> flood_state \<Rightarrow> flood_state" where
  "remove_buffer buffer_id s =
     s\<lparr>nick_times := hm_del buffer_id (nick_times s),
       nick_blocked_until := hm_del buffer_id (nick_blocked_until s)\<rparr>"

section \<open>Sliding windows\<close>

text \<open>
  The shape the CTCP, tilde and nick detectors share, on the slot of one key: its block and its
  time stamps.
\<close>

type_synonym flood_window = "nat option \<times> nat list"

fun window_step :: "nat \<Rightarrow> nat \<Rightarrow> nat \<Rightarrow> nat \<Rightarrow> flood_window \<Rightarrow> flood_result \<times> flood_window" where
  "window_step thr W B now (bl, ts) =
     (if (case bl of Some u \<Rightarrow> now < u | None \<Rightarrow> False) then (Blocked, (Some (now + B), ts))
      else
        let ts' = prune_window (ts @ [now]) now W in
        if length ts' \<ge> thr then (Triggered, (Some (now + B), [])) else (Allow, (None, ts')))"

declare window_step.simps [simp del]

text \<open>
  What a slot says of the calls accepted so far: the time stamps are the accepted times, but for
  a prefix that has left the window or will have left it when the block ends.
\<close>

definition window_rel :: "nat \<Rightarrow> nat list \<Rightarrow> nat \<Rightarrow> flood_window \<Rightarrow> bool" where
  "window_rel W acc t w \<longleftrightarrow>
     W \<le> t \<and> sorted acc \<and> (\<forall>a\<in>set acc. a \<le> t) \<and>
     (\<exists>pre. acc = pre @ snd w \<and> (\<forall>a\<in>set pre. a + W < t \<or> (\<exists>u. fst w = Some u \<and> a + W < u)))"

lemma window_relI:
  assumes "W \<le> t" "sorted acc" "\<And>a. a \<in> set acc \<Longrightarrow> a \<le> t" "acc = pre @ ts"
    "\<And>a. a \<in> set pre \<Longrightarrow> a + W < t \<or> (\<exists>u. bl = Some u \<and> a + W < u)"
  shows "window_rel W acc t (bl, ts)"
  using assms unfolding window_rel_def by auto

lemma window_relE:
  assumes "window_rel W acc t (bl, ts)" "t \<le> now"
  obtains pre where "W \<le> now" "sorted acc" "\<And>a. a \<in> set acc \<Longrightarrow> a \<le> now" "acc = pre @ ts"
    "\<And>a. a \<in> set pre \<Longrightarrow> a + W < now \<or> (\<exists>u. bl = Some u \<and> a + W < u)"
proof -
  from assms(1) obtain pre where p: "acc = pre @ ts" "W \<le> t" "sorted acc" "\<forall>a\<in>set acc. a \<le> t"
    "\<forall>a\<in>set pre. a + W < t \<or> (\<exists>u. bl = Some u \<and> a + W < u)"
    unfolding window_rel_def by auto
  show thesis
  proof (rule that [OF _ p(3) _ p(1)])
    show "W \<le> now" using p(2) assms(2) by simp
    show "a \<le> now" if "a \<in> set acc" for a using p(4) assms(2) that le_trans by blast
    show "a + W < now \<or> (\<exists>u. bl = Some u \<and> a + W < u)" if "a \<in> set pre" for a
      using p(5) that assms(2) by (meson less_le_trans)
  qed
qed

lemma dropWhile_sorted:
  "sorted (xs :: nat list) \<Longrightarrow> dropWhile (\<lambda>t. t < c) xs = filter (\<lambda>t. t \<ge> c) xs"
proof (induction xs)
  case (Cons x xs)
  show ?case
  proof (cases "x < c")
    case False
    then have "\<forall>y\<in>set (x # xs). y \<ge> c" using Cons.prems by auto
    then have "filter (\<lambda>t. t \<ge> c) (x # xs) = x # xs" by (simp add: filter_id_conv)
    with False show ?thesis by simp
  qed (use Cons in simp)
qed simp

lemma window_rel_fresh [simp]: "window_rel W [] t (None, []) \<longleftrightarrow> W \<le> t"
  by (simp add: window_rel_def)

lemma window_rel_later: "window_rel W acc t w \<Longrightarrow> t \<le> now \<Longrightarrow> window_rel W acc now w"
  by (cases w) (auto elim!: window_relE intro!: window_relI)

text \<open>What leaves the window at \<open>now\<close>.\<close>

lemma pruned_old: "W \<le> now \<Longrightarrow> a \<in> set (takeWhile (\<lambda>t. t < cutoff now W) ts) \<Longrightarrow> a + W < now"
  by (auto dest!: set_takeWhileD simp: cutoff_less)

text \<open>A clean-up forgets blocks that are over and time stamps that have left the window.\<close>

definition live_block :: "nat \<Rightarrow> nat option \<Rightarrow> nat option" where
  "live_block now bl = (case bl of Some u \<Rightarrow> if u > now then Some u else None | None \<Rightarrow> None)"

definition cleaned :: "nat \<Rightarrow> nat \<Rightarrow> flood_window \<Rightarrow> flood_window" where
  "cleaned W now w = (live_block now (fst w), filter (\<lambda>t. t \<ge> cutoff now W) (snd w))"

lemma window_rel_cleaned:
  assumes "window_rel W acc t w" "t \<le> now"
  shows "window_rel W acc now (cleaned W now w)"
proof -
  obtain bl ts where w: "w = (bl, ts)" by force
  let ?P = "\<lambda>t. t < cutoff now W"
  from assms w obtain pre where W: "W \<le> now" and s: "sorted acc" and le: "\<And>a. a \<in> set acc \<Longrightarrow> a \<le> now"
    and p: "acc = pre @ ts" and old: "\<And>a. a \<in> set pre \<Longrightarrow> a + W < now \<or> (\<exists>u. bl = Some u \<and> a + W < u)"
    by (auto elim: window_relE)
  have "sorted ts" using s p by (simp add: sorted_append)
  then have f: "filter (\<lambda>t. t \<ge> cutoff now W) ts = dropWhile ?P ts" by (simp add: dropWhile_sorted)
  show ?thesis unfolding cleaned_def w fst_conv snd_conv f
  proof (rule window_relI [OF W s le])
    show "acc = (pre @ takeWhile ?P ts) @ dropWhile ?P ts" using p by simp
    show "a + W < now \<or> (\<exists>u. live_block now bl = Some u \<and> a + W < u)"
      if "a \<in> set (pre @ takeWhile ?P ts)" for a
    proof (cases "a \<in> set pre")
      case True
      from old [OF this] show ?thesis by (auto simp: live_block_def)
    next
      case False
      with that pruned_old [OF W] show ?thesis by auto
    qed
  qed
qed

lemma window_step_rel:
  assumes r: "window_rel W acc t w" and le: "t \<le> now" and st: "window_step (Suc k) W B now w = (res, w')"
    and B: "W < B"
  shows "window_rel W (if res = Allow then acc @ [now] else acc) now w' \<and>
     (res = Allow \<longrightarrow> 0 < k \<longrightarrow> k \<le> length acc \<longrightarrow> acc ! (length acc - k) + (W + 1) \<le> now)"
proof -
  obtain bl ts where w: "w = (bl, ts)" by force
  from r le w obtain pre where W: "W \<le> now" and s: "sorted acc" and ale: "\<And>a. a \<in> set acc \<Longrightarrow> a \<le> now"
    and p: "acc = pre @ ts" and old: "\<And>a. a \<in> set pre \<Longrightarrow> a + W < now \<or> (\<exists>u. bl = Some u \<and> a + W < u)"
    by (auto elim: window_relE)
  have soon: "a + W < now + B" if "a \<in> set acc" for a using ale [OF that] B by simp
  show ?thesis
  proof (cases "case bl of Some u \<Rightarrow> now < u | None \<Rightarrow> False")
    case True
    with st w have e: "res = Blocked" "w' = (Some (now + B), ts)" by (auto simp: window_step.simps)
    have "window_rel W acc now w'" unfolding e
      by (rule window_relI [OF W s ale p]) (use soon p in auto)
    with e show ?thesis by simp
  next
    case False
    let ?P = "\<lambda>t. t < cutoff now W"
    define ts' where "ts' = prune_window (ts @ [now]) now W"
    let ?q = "pre @ takeWhile ?P (ts @ [now])"
    have q: "acc @ [now] = ?q @ ts'" using p by (simp add: ts'_def prune_window_def)
    have gone: "a + W < now" if "a \<in> set ?q" for a
    proof (cases "a \<in> set pre")
      case True
      from old [OF this] False show ?thesis by (auto split: option.splits)
    next
      case nin: False
      with that pruned_old [OF W] show ?thesis by auto
    qed
    show ?thesis
    proof (cases "length ts' \<ge> Suc k")
      case True
      with False st w have e: "res = Triggered" "w' = (Some (now + B), [])" by (auto simp: window_step.simps ts'_def Let_def)
      have "window_rel W acc now w'" unfolding e
        by (rule window_relI [OF W s ale, where pre = acc]) (use soon in auto)
      with e show ?thesis by simp
    next
      case small: False
      with False st w have e: "res = Allow" "w' = (None, ts')" by (auto simp: window_step.simps ts'_def Let_def)
      have so: "sorted (acc @ [now])" using s ale by (simp add: sorted_append)
      have al: "a \<le> now" if "a \<in> set (acc @ [now])" for a using that ale by auto
      have left: "a + W < now \<or> (\<exists>u. None = Some u \<and> a + W < u)" if "a \<in> set ?q" for a
        using gone [OF that] by simp
      have "window_rel W (acc @ [now]) now w'" unfolding e by (rule window_relI [OF W so al q left])
      moreover have "acc ! (length acc - k) + (W + 1) \<le> now" if l: "k \<le> length acc" "0 < k"
      proof -
        have len: "length acc + 1 = length ?q + length ts'" using arg_cong [OF q, of length] by simp
        then have i: "length acc - k < length ?q" using small l by linarith
        have lt: "length acc - k < length acc" using l by linarith
        have "acc ! (length acc - k) = (acc @ [now]) ! (length acc - k)"
          using lt by (simp only: nth_append if_True)
        also have "\<dots> = (?q @ ts') ! (length acc - k)" by (simp only: q)
        also have "\<dots> = ?q ! (length acc - k)" using i by (simp only: nth_append if_True)
        finally show ?thesis using gone [OF nth_mem [OF i]] by simp
      qed
      ultimately show ?thesis using e(1) by simp
    qed
  qed
qed

section \<open>The detectors keep the contract of a limiter\<close>

definition like :: "nat \<Rightarrow> nat \<Rightarrow> flood_window \<Rightarrow> flood_window \<Rightarrow> bool" where
  "like W now a b \<longleftrightarrow> a = b \<or> a = cleaned W now b"

lemma like_rel: "like W now a b \<Longrightarrow> window_rel W acc t b \<Longrightarrow> t \<le> now \<Longrightarrow> window_rel W acc now a"
  by (auto simp: like_def intro: window_rel_later window_rel_cleaned)

text \<open>A detector moves its key's slot as \<open>window_step\<close> does, and at most cleans the others up.\<close>

definition detects ::
  "nat \<Rightarrow> nat \<Rightarrow> nat \<Rightarrow> ('s \<Rightarrow> bool) \<Rightarrow> (nat \<Rightarrow> 'k \<Rightarrow> 's \<Rightarrow> bool \<times> 's) \<Rightarrow> ('s \<Rightarrow> 'k \<Rightarrow> flood_window) \<Rightarrow> bool" where
  "detects thr W B good step slot \<longleftrightarrow>
     (\<forall>now k s. good s \<longrightarrow>
        good (snd (step now k s)) \<and>
        fst (step now k s) = (fst (window_step thr W B now (slot s k)) = Allow) \<and>
        like W now (slot (snd (step now k s)) k) (snd (window_step thr W B now (slot s k))) \<and>
        (\<forall>j. j \<noteq> k \<longrightarrow> like W now (slot (snd (step now k s)) j) (slot s j)))"

lemma detects_keyed:
  assumes d: "detects (Suc n) W B good step slot" and n: "0 < n" and B: "W < B"
  shows "keyed_limiter good step slot (window_rel W) n (W + 1)"
proof unfold_locales
  fix m now h ok m' assume "good m" "step now h m = (ok, m')"
  with d show "good m'" unfolding detects_def by (metis snd_conv)
next
  fix m acc t j now h ok m'
  assume a: "good m" "window_rel W acc t (slot m j)" "t \<le> now" "step now h m = (ok, m')" "j \<noteq> h"
  with d have "like W now (slot m' j) (slot m j)" unfolding detects_def by (metis snd_conv)
  with a show "window_rel W acc now (slot m' j)" by (blast intro: like_rel)
next
  fix m acc t h now m'
  assume a: "good m" "window_rel W acc t (slot m h)" "t \<le> now" "step now h m = (True, m')"
  obtain r w where w: "window_step (Suc n) W B now (slot m h) = (r, w)" by (metis surj_pair)
  from d a(1,4) w have "r = Allow" and l: "like W now (slot m' h) w" unfolding detects_def
    by (metis fst_conv, metis snd_conv)
  with window_step_rel [OF a(2,3) w B] have "window_rel W (acc @ [now]) now w"
    and g: "n \<le> length acc \<longrightarrow> acc ! (length acc - n) + (W + 1) \<le> now" using n by simp_all
  with like_rel [OF l] show "window_rel W (acc @ [now]) now (slot m' h) \<and>
      (n \<le> length acc \<longrightarrow> acc ! (length acc - n) + (W + 1) \<le> now)" by blast
next
  fix m acc t h now m'
  assume a: "good m" "window_rel W acc t (slot m h)" "t \<le> now" "step now h m = (False, m')"
  obtain r w where w: "window_step (Suc n) W B now (slot m h) = (r, w)" by (metis surj_pair)
  from d a(1,4) w have "r \<noteq> Allow" and l: "like W now (slot m' h) w" unfolding detects_def
    by (metis fst_conv, metis snd_conv)
  with window_step_rel [OF a(2,3) w B] have "window_rel W acc now w" by simp
  with like_rel [OF l] show "window_rel W acc now (slot m' h)" by blast
qed (rule n)

definition ctcp_slot :: "flood_state \<Rightarrow> unit \<Rightarrow> flood_window" where
  "ctcp_slot s _ = (ctcp_blocked_until s, ctcp_times s)"

definition ctcp_pass :: "nat \<Rightarrow> unit \<Rightarrow> flood_state \<Rightarrow> bool \<times> flood_state" where
  "ctcp_pass now k s = (case check_ctcp_flood now s of (r, s') \<Rightarrow> (r = Allow, s'))"

lemma ctcp_detects: "detects 5 CTCP_WINDOW CTCP_BLOCK (\<lambda>_. True) ctcp_pass ctcp_slot"
  unfolding detects_def ctcp_pass_def check_ctcp_flood_def ctcp_count_def ctcp_slot_def like_def
  by (simp add: CTCP_THRESHOLD_def Let_def window_step.simps split: option.split)

interpretation ctcp: keyed_limiter "\<lambda>_. True" ctcp_pass ctcp_slot "window_rel CTCP_WINDOW" 4 "CTCP_WINDOW + 1"
  by (rule detects_keyed [where B = CTCP_BLOCK])
    (use ctcp_detects in \<open>simp_all add: CTCP_WINDOW_def CTCP_BLOCK_def secs_def\<close>)

section \<open>Clean-up\<close>

lemma keys_prune_times: "set (map fst (prune_times c m)) \<subseteq> set (map fst m)"
  by (auto simp: prune_times_def rev_image_eqI)

lemma hm_ok_prune_times: "hm_ok m \<Longrightarrow> hm_ok (prune_times c m)"
  unfolding hm_ok_def
proof (induction m)
  case (Cons x m)
  obtain k v where x: "x = (k, v)" by force
  have "k \<notin> set (map fst (prune_times c m))" using Cons.prems x keys_prune_times [of c m] by auto
  then show ?case using Cons x by (simp add: prune_times_def)
qed (simp add: prune_times_def)

lemma times_of_prune:
  "hm_ok m \<Longrightarrow> times_of (prune_times c m) k = filter (\<lambda>t. t \<ge> c) (times_of m k)"
  unfolding hm_ok_def
proof (induction m)
  case (Cons x m)
  obtain j v where x: "x = (j, v)" by force
  have "k = j \<Longrightarrow> hm_get (prune_times c m) k = None"
    using Cons.prems x keys_prune_times [of c m] by (auto simp: hm_get_def map_of_eq_None_iff)
  then show ?case using Cons x by (auto simp: prune_times_def times_of_def hm_get_def)
qed (simp add: prune_times_def times_of_def)

lemma times_of_put [simp]: "times_of (hm_put k v m) j = (if j = k then v else times_of m j)"
  by (simp add: times_of_def rmap)

lemma live_block_retain:
  "hm_ok m \<Longrightarrow> hm_get (hm_retain (\<lambda>(_, until). until > now) m) k = live_block now (hm_get m k)"
  by (simp add: hm.get_retain live_block_def split: option.split)

section \<open>Detectors with a window per key\<close>

text \<open>What the tilde and the nick detector do, on their two maps.\<close>

definition keyed_count :: "nat \<Rightarrow> nat \<Rightarrow> nat \<Rightarrow> nat \<Rightarrow> 'k \<Rightarrow> ('k, nat) hmap \<Rightarrow> ('k, nat list) hmap \<Rightarrow>
    flood_result \<times> ('k, nat) hmap \<times> ('k, nat list) hmap" where
  "keyed_count thr W B now k b m =
     (let win = prune_window (times_of m k @ [now]) now W; m1 = hm_put k win m in
      if length win \<ge> thr then (Triggered, hm_put k (now + B) b, hm_put k [] m)
      else (Allow, if length m1 > 200
            then (hm_retain (\<lambda>(_, until). until > now) b, prune_times (cutoff now W) m1) else (b, m1)))"

definition keyed_step :: "nat \<Rightarrow> nat \<Rightarrow> nat \<Rightarrow> nat \<Rightarrow> 'k \<Rightarrow> ('k, nat) hmap \<times> ('k, nat list) hmap \<Rightarrow>
    flood_result \<times> ('k, nat) hmap \<times> ('k, nat list) hmap" where
  "keyed_step thr W B now k bm =
     (case hm_get (fst bm) k of
        Some until \<Rightarrow>
          if now < until then (Blocked, hm_put k (now + B) (fst bm), snd bm)
          else keyed_count thr W B now k (hm_del k (fst bm)) (snd bm)
      | None \<Rightarrow> keyed_count thr W B now k (fst bm) (snd bm))"

definition keyed_slot :: "('k, nat) hmap \<times> ('k, nat list) hmap \<Rightarrow> 'k \<Rightarrow> flood_window" where
  "keyed_slot bm k = (hm_get (fst bm) k, times_of (snd bm) k)"

definition keyed_ok :: "('k, nat) hmap \<times> ('k, nat list) hmap \<Rightarrow> bool" where
  "keyed_ok bm \<longleftrightarrow> hm_ok (fst bm) \<and> hm_ok (snd bm)"

lemma keyed_cleanup:
  "hm_ok b \<Longrightarrow> hm_ok m \<Longrightarrow>
     like W now (keyed_slot (hm_retain (\<lambda>(_, until). until > now) b, prune_times (cutoff now W) m) k) (keyed_slot (b, m) k)"
  by (simp add: keyed_slot_def like_def cleaned_def times_of_prune live_block_retain)

lemma keyed_count_slots:
  assumes b: "hm_ok b" "hm_ok m" "hm_get b k = None"
    and c: "keyed_count thr W B now k b m = (r, bm')"
    and w: "win = prune_window (times_of m k @ [now]) now W"
  shows "keyed_ok bm' \<and> r = (if thr \<le> length win then Triggered else Allow) \<and>
     like W now (keyed_slot bm' k) (if thr \<le> length win then (Some (now + B), []) else (None, win)) \<and>
     (\<forall>j. j \<noteq> k \<longrightarrow> like W now (keyed_slot bm' j) (keyed_slot (b, m) j))"
proof (cases "thr \<le> length win")
  case True
  with c w have "r = Triggered" "bm' = (hm_put k (now + B) b, hm_put k [] m)"
    by (simp_all add: keyed_count_def Let_def)
  with b True show ?thesis by (simp add: keyed_ok_def keyed_slot_def like_def rmap)
next
  case False
  let ?m1 = "hm_put k win m"
  have slots: "keyed_slot (b, ?m1) k = (None, win)" "j \<noteq> k \<Longrightarrow> keyed_slot (b, ?m1) j = keyed_slot (b, m) j" for j
    using b(3) by (simp_all add: keyed_slot_def)
  have ok: "hm_ok ?m1" using b(2) by (simp add: rmap)
  from False c w consider (all) "r = Allow" "bm' = (b, ?m1)"
    | (few) "r = Allow" "bm' = (hm_retain (\<lambda>(_, until). until > now) b, prune_times (cutoff now W) ?m1)"
    by (cases "length ?m1 > 200") (simp_all add: keyed_count_def Let_def)
  then show ?thesis
  proof cases
    case all
    with b ok slots False show ?thesis by (simp add: keyed_ok_def like_def)
  next
    case few
    have "keyed_ok bm'" using few(2) b(1) ok by (simp add: keyed_ok_def rmap hm_ok_prune_times)
    moreover have "like W now (keyed_slot bm' j) (keyed_slot (b, ?m1) j)" for j
      unfolding few(2) by (rule keyed_cleanup [OF b(1) ok])
    ultimately show ?thesis using few(1) slots False by metis
  qed
qed

lemma keyed_step_slots:
  assumes ok: "keyed_ok bm" and st: "keyed_step thr W B now k bm = (r, bm')"
  shows "keyed_ok bm' \<and> r = fst (window_step thr W B now (keyed_slot bm k)) \<and>
     like W now (keyed_slot bm' k) (snd (window_step thr W B now (keyed_slot bm k))) \<and>
     (\<forall>j. j \<noteq> k \<longrightarrow> like W now (keyed_slot bm' j) (keyed_slot bm j))"
proof (cases "case hm_get (fst bm) k of Some u \<Rightarrow> now < u | None \<Rightarrow> False")
  case True
  then have "r = Blocked" "bm' = (hm_put k (now + B) (fst bm), snd bm)"
    using st by (auto simp: keyed_step_def split: option.splits if_splits)
  moreover have "window_step thr W B now (keyed_slot bm k) = (Blocked, (Some (now + B), times_of (snd bm) k))"
    using True by (simp add: keyed_slot_def window_step.simps)
  ultimately show ?thesis using ok by (simp add: keyed_ok_def keyed_slot_def like_def rmap)
next
  case False
  define b where "b = (if hm_get (fst bm) k = None then fst bm else hm_del k (fst bm))"
  define win where "win = prune_window (times_of (snd bm) k @ [now]) now W"
  have b: "hm_ok b" "hm_get b k = None" "\<And>j. j \<noteq> k \<Longrightarrow> hm_get b j = hm_get (fst bm) j"
    using ok by (auto simp: b_def keyed_ok_def rmap)
  have m: "hm_ok (snd bm)" using ok by (simp add: keyed_ok_def)
  have "keyed_count thr W B now k b (snd bm) = (r, bm')"
    using False st by (auto simp: keyed_step_def b_def split: option.splits)
  from keyed_count_slots [OF b(1) m b(2) this win_def]
  have c: "keyed_ok bm'" "r = (if thr \<le> length win then Triggered else Allow)"
    "like W now (keyed_slot bm' k) (if thr \<le> length win then (Some (now + B), []) else (None, win))"
    "\<forall>j. j \<noteq> k \<longrightarrow> like W now (keyed_slot bm' j) (keyed_slot (b, snd bm) j)" by auto
  have "window_step thr W B now (keyed_slot bm k) =
      (if thr \<le> length win then (Triggered, (Some (now + B), [])) else (Allow, (None, win)))"
    using False by (simp add: keyed_slot_def window_step.simps win_def Let_def)
  moreover have "keyed_slot (b, snd bm) j = keyed_slot bm j" if "j \<noteq> k" for j
    using b(3) [OF that] by (simp add: keyed_slot_def)
  ultimately show ?thesis using c by (cases "thr \<le> length win") simp_all
qed

lemma keyed_detects:
  assumes "\<And>now k s. good s \<Longrightarrow> keyed_ok (maps s) \<and>
      (\<exists>r bm. keyed_step thr W B now k (maps s) = (r, bm) \<and> fst (step now k s) = (r = Allow) \<and>
         maps (snd (step now k s)) = bm)"
    and "\<And>s. good s = keyed_ok (maps s)"
  shows "detects thr W B good step (\<lambda>s. keyed_slot (maps s))"
  unfolding detects_def
proof (intro allI impI)
  fix now k s assume "good s"
  from assms(1) [OF this] obtain r bm where o: "keyed_ok (maps s)"
    "keyed_step thr W B now k (maps s) = (r, bm)" "fst (step now k s) = (r = Allow)"
    "maps (snd (step now k s)) = bm" by blast
  from keyed_step_slots [OF o(1,2)] o(3,4) show "good (snd (step now k s)) \<and>
        fst (step now k s) = (fst (window_step thr W B now (keyed_slot (maps s) k)) = Allow) \<and>
        like W now (keyed_slot (maps (snd (step now k s))) k) (snd (window_step thr W B now (keyed_slot (maps s) k))) \<and>
        (\<forall>j. j \<noteq> k \<longrightarrow> like W now (keyed_slot (maps (snd (step now k s))) j) (keyed_slot (maps s) j))"
    by (simp add: assms(2))
qed

section \<open>The tilde and the nick detector\<close>

definition tilde_maps :: "flood_state \<Rightarrow> (text_hash, nat) hmap \<times> (text_hash, nat list) hmap" where
  "tilde_maps s = (tilde_nick_blocked s, tilde_nick_times s)"

definition tilde_pass :: "(bytes \<Rightarrow> text_hash) \<Rightarrow> nat \<Rightarrow> bytes \<Rightarrow> flood_state \<Rightarrow> bool \<times> flood_state" where
  "tilde_pass h now nick s = (case check_tilde_nick_flood h nick now s of (r, s') \<Rightarrow> (r = Allow, s'))"

lemma tilde_keyed:
  "check_tilde_nick_flood h nick now s =
     (case keyed_step 5 TILDE_NICK_WINDOW TILDE_NICK_BLOCK now (h nick) (tilde_maps s) of
        (r, b, m) \<Rightarrow> (r, s\<lparr>tilde_nick_blocked := b, tilde_nick_times := m\<rparr>))"
  by (simp add: check_tilde_nick_flood_def tilde_count_def tilde_cleanup_def tilde_maps_def keyed_step_def
      keyed_count_def TILDE_NICK_THRESHOLD_def Let_def split: option.split)

interpretation tilde: keyed_limiter "\<lambda>s. keyed_ok (tilde_maps s)" "\<lambda>now k. tilde_pass (\<lambda>_. k) now []"
  "\<lambda>s. keyed_slot (tilde_maps s)" "window_rel TILDE_NICK_WINDOW" 4 "TILDE_NICK_WINDOW + 1"
proof (rule detects_keyed [where B = TILDE_NICK_BLOCK])
  show "detects (Suc 4) TILDE_NICK_WINDOW TILDE_NICK_BLOCK (\<lambda>s. keyed_ok (tilde_maps s))
      (\<lambda>now k. tilde_pass (\<lambda>_. k) now []) (\<lambda>s. keyed_slot (tilde_maps s))"
    by (rule keyed_detects)
      (auto simp: tilde_pass_def tilde_keyed tilde_maps_def split: prod.split)
qed (simp_all add: TILDE_NICK_WINDOW_def TILDE_NICK_BLOCK_def secs_def)

definition nick_maps :: "flood_state \<Rightarrow> (bytes, nat) hmap \<times> (bytes, nat list) hmap" where
  "nick_maps s = (nick_blocked_until s, nick_times s)"

definition nick_pass :: "nat \<Rightarrow> bytes \<Rightarrow> flood_state \<Rightarrow> bool \<times> flood_state" where
  "nick_pass now buffer_id s = (case should_suppress_nick_flood buffer_id now s of (b, s') \<Rightarrow> (\<not> b, s'))"

lemma nick_keyed:
  "should_suppress_nick_flood buffer_id now s =
     (case keyed_step 5 NICK_WINDOW NICK_BLOCK now buffer_id (nick_maps s) of
        (r, b, m) \<Rightarrow> (suppressed r, s\<lparr>nick_blocked_until := b, nick_times := m\<rparr>))"
  by (simp add: should_suppress_nick_flood_def nick_count_def nick_cleanup_def nick_maps_def keyed_step_def
      keyed_count_def NICK_THRESHOLD_def Let_def split: option.split)

lemma suppressed_iff: "suppressed r \<longleftrightarrow> r \<noteq> Allow"
  by (cases r) simp_all

interpretation nick: keyed_limiter "\<lambda>s. keyed_ok (nick_maps s)" nick_pass
  "\<lambda>s. keyed_slot (nick_maps s)" "window_rel NICK_WINDOW" 4 "NICK_WINDOW + 1"
proof (rule detects_keyed [where B = NICK_BLOCK])
  show "detects (Suc 4) NICK_WINDOW NICK_BLOCK (\<lambda>s. keyed_ok (nick_maps s)) nick_pass (\<lambda>s. keyed_slot (nick_maps s))"
    by (rule keyed_detects)
      (auto simp: nick_pass_def nick_keyed nick_maps_def suppressed_iff split: prod.split)
qed (simp_all add: NICK_WINDOW_def NICK_BLOCK_def secs_def)

section \<open>The storm detector\<close>

lemma unique_loop_set: "set (unique_loop seen es) = set seen \<union> fst ` set es"
  by (induction seen es rule: unique_loop.induct) auto

lemma unique_loop_distinct: "distinct seen \<Longrightarrow> distinct (unique_loop seen es)"
  by (induction seen es rule: unique_loop.induct) auto

lemma unique_count_card: "unique_count es = card (fst ` set es)"
  using distinct_card [OF unique_loop_distinct [of "[]" es]]
  by (simp add: unique_count_def unique_loop_set)

fun storm_run :: "(bytes \<Rightarrow> text_hash) \<Rightarrow> flood_state \<Rightarrow> (nat \<times> bytes) list \<Rightarrow> flood_result list" where
  "storm_run h s [] = []"
| "storm_run h s ((now, nick) # es) =
     (case check_pm_tilde_storm h nick now s of (r, s') \<Rightarrow> r # storm_run h s' es)"

lemma storm_step_few:
  assumes "pm_storm_blocked_until s = None" "fst ` set (pm_storm_nicks s) \<subseteq> H" "h nick \<in> H"
    "finite H" "card H < PM_STORM_THRESHOLD"
  shows "\<exists>s'. check_pm_tilde_storm h nick now s = (Allow, s') \<and> pm_storm_blocked_until s' = None \<and>
     fst ` set (pm_storm_nicks s') \<subseteq> H"
proof -
  define kept where "kept = filter (\<lambda>(_, t). t \<ge> cutoff now PM_STORM_WINDOW) (pm_storm_nicks s @ [(h nick, now)])"
  have k: "fst ` set kept \<subseteq> H" using assms(2,3) by (auto simp: kept_def)
  then have "unique_count kept < PM_STORM_THRESHOLD"
    using card_mono [OF assms(4) k] assms(5) by (simp add: unique_count_card)
  with assms(1) k show ?thesis by (simp add: check_pm_tilde_storm_def storm_count_def kept_def Let_def)
qed

lemma storm_run_few:
  assumes "finite H" "card H < PM_STORM_THRESHOLD"
  shows "pm_storm_blocked_until s = None \<Longrightarrow> fst ` set (pm_storm_nicks s) \<subseteq> H \<Longrightarrow>
    h ` set (map snd evs) \<subseteq> H \<Longrightarrow> set (storm_run h s evs) \<subseteq> {Allow}"
proof (induction evs arbitrary: s)
  case (Cons e es)
  obtain now nick where e: "e = (now, nick)" by force
  with Cons.prems have n: "h nick \<in> H" "h ` set (map snd es) \<subseteq> H" by auto
  from storm_step_few [where h = h and nick = nick and now = now, OF Cons.prems(1,2) n(1) assms] obtain s' where s':
    "check_pm_tilde_storm h nick now s = (Allow, s')" "pm_storm_blocked_until s' = None"
    "fst ` set (pm_storm_nicks s') \<subseteq> H" by blast
  from Cons.IH [OF s'(2,3) n(2)] s'(1) e show ?case by simp
qed simp

section \<open>Properties\<close>

lemma tilde_run_hashes:
  "limiter_run (\<lambda>now k. tilde_pass (\<lambda>_. k) now []) s (map (apsnd h) evs)
     = map (apsnd h) (limiter_run (tilde_pass h) s evs)"
proof (induction evs arbitrary: s)
  case (Cons e es)
  obtain now nick where e: "e = (now, nick)" by force
  have "tilde_pass (\<lambda>_. h nick) now [] s = tilde_pass h now nick s"
    by (simp add: tilde_pass_def check_tilde_nick_flood_def)
  with Cons e show ?case by (auto split: prod.split)
qed simp

text \<open>C33: Whatever the order in which nicks with unverified idents speak, and whatever the periodic
  clean-up drops, the tilde detector lets at most four messages of one nick through in any five
  seconds: the fourth next accepted message of its hash comes more than 5 s later.  (The times are
  those of a clock that has run for 5 s.)\<close>

theorem tilde_nick_rate_bounded:
  assumes "sorted (map fst evs)" "\<forall>e\<in>set evs. TILDE_NICK_WINDOW \<le> fst e"
  shows "spaced 4 (TILDE_NICK_WINDOW + 1)
    (map fst (filter (\<lambda>e. h (snd e) = h nick) (limiter_run (tilde_pass h) flood_new evs)))"
proof -
  let ?step = "\<lambda>now k. tilde_pass (\<lambda>_. k) now []"
  have "spaced 4 (TILDE_NICK_WINDOW + 1) (accepted_times (h nick) (limiter_run ?step flood_new (map (apsnd h) evs)))"
    by (rule tilde.run_spaced_fresh [where t = TILDE_NICK_WINDOW])
      (use assms in \<open>simp_all add: keyed_ok_def tilde_maps_def flood_new_def keyed_slot_def times_of_def o_def\<close>)
  then show ?thesis
    by (simp add: tilde_run_hashes accepted_times_def filter_map o_def)
qed

theorem tilde_nick_rate_bounded_witness:
  "let h = (\<lambda>s. word_of_nat (length s));
       evs = map (\<lambda>t. (secs 9 + t, ''troll'')) [0, 1, 2, 3, 4, 5] @ [(secs 9 + 6, ''bob'')] in
   spaced 4 (TILDE_NICK_WINDOW + 1)
    (map fst (filter (\<lambda>e. h (snd e) = h ''troll'') (limiter_run (tilde_pass h) flood_new evs)))
   \<and> limiter_run (tilde_pass h) flood_new evs = take 4 evs @ [(secs 9 + 6, ''bob'')]"
  unfolding Let_def
proof
  let ?h = "\<lambda>s. word_of_nat (length s) :: 64 word"
  let ?evs = "map (\<lambda>t. (secs 9 + t, ''troll'')) [0, 1, 2, 3, 4, 5] @ [(secs 9 + 6, ''bob'')]"
  show "spaced 4 (TILDE_NICK_WINDOW + 1)
    (map fst (filter (\<lambda>e. ?h (snd e) = ?h ''troll'') (limiter_run (tilde_pass ?h) flood_new ?evs)))"
    by (rule tilde_nick_rate_bounded) (simp_all add: flood_times)
  show "limiter_run (tilde_pass ?h) flood_new ?evs = take 4 ?evs @ [(secs 9 + 6, ''bob'')]"
    by (simp add: tilde_pass_def check_tilde_nick_flood_def tilde_count_def tilde_cleanup_def prune_window_def
        times_of_def flood_new_def flood_times flood_limits cutoff_def checked_sub_def hm_get_def hm_put_def hm_del_def Let_def)
qed

text \<open>Private messages from fewer than six nicks never start a storm: however many there are and
  however fast they come, every one of them is let through.\<close>

theorem few_nicks_never_storm:
  assumes "card (h ` set (map snd evs)) < PM_STORM_THRESHOLD"
  shows "set (storm_run h flood_new evs) \<subseteq> {Allow}"
  by (rule storm_run_few [OF _ assms]) (simp_all add: flood_new_def)

theorem few_nicks_never_storm_witness:
  "let h = (\<lambda>s. word_of_nat (length s)) in
   set (storm_run h flood_new (map (\<lambda>t. (t, ''troll'')) [0, 1, 2, 3, 4, 5, 6, 7])) \<subseteq> {Allow} \<and>
   storm_run h flood_new (map (\<lambda>t. (secs 9 + t, replicate t CHR ''a'')) [0, 1, 2, 3, 4, 5, 6])
     = [Allow, Allow, Allow, Allow, Allow, Triggered, Blocked]"
  unfolding Let_def
proof
  let ?h = "\<lambda>s. word_of_nat (length s) :: 64 word"
  show "set (storm_run ?h flood_new (map (\<lambda>t. (t, ''troll'')) [0, 1, 2, 3, 4, 5, 6, 7])) \<subseteq> {Allow}"
    by (rule few_nicks_never_storm) (simp add: PM_STORM_THRESHOLD_def)
  show "storm_run ?h flood_new (map (\<lambda>t. (secs 9 + t, replicate t CHR ''a'')) [0, 1, 2, 3, 4, 5, 6])
     = [Allow, Allow, Allow, Allow, Allow, Triggered, Blocked]"
    by (simp add: check_pm_tilde_storm_def storm_count_def unique_count_def flood_new_def flood_times flood_limits
        cutoff_def checked_sub_def Let_def)
qed

end
