(* ===== verification/Irc_Netsplit.thy ===== *)
theory Irc_Netsplit
  imports Rust_Text Rust_Map Rust_Time
begin

text \<open>
  Netsplit detection (\<open>src/src/irc/netsplit.rs\<close>): QUITs whose message names two servers are batched
  per server pair, later JOINs of the same nicks are batched as netjoins, and a tick prints the
  batches and expires old ones.  \<open>str::to_lowercase\<close> follows the Unicode case table and is the
  argument \<open>lc\<close>.  The iteration order of the standard library's maps and sets is unspecified; the
  model keeps the order of insertion.
\<close>

section \<open>State\<close>

definition SPLIT_BATCH_WAIT :: nat where "SPLIT_BATCH_WAIT = secs 5"
definition NETJOIN_BATCH_WAIT :: nat where "NETJOIN_BATCH_WAIT = secs 5"
definition SPLIT_EXPIRE :: nat where "SPLIT_EXPIRE = secs 3600"
definition MAX_NICKS_DISPLAY :: nat where "MAX_NICKS_DISPLAY = 15"

record split_record =
  sr_nick :: bytes
  sr_channels :: "bytes list"

record split_group =
  sg_server1 :: bytes
  sg_server2 :: bytes
  sg_nicks :: "split_record list"
  last_quit :: nat
  sg_printed :: bool

record netjoin_record =
  nj_nick :: bytes
  nj_channels :: "bytes list"

record netjoin_group =
  ng_server1 :: bytes
  ng_server2 :: bytes
  ng_records :: "netjoin_record list"
  last_join :: nat
  ng_printed :: bool

record netsplit_message =
  buffer_ids :: "bytes list"
  msg_text :: bytes

record netsplit_state =
  ns_groups :: "split_group list"
  nick_index :: "(bytes, nat) hmap"
  netjoins :: "netjoin_group list"

definition netsplit_new :: netsplit_state where
  "netsplit_new = \<lparr>ns_groups = [], nick_index = [], netjoins = []\<rparr>"

section \<open>Detection\<close>

definition is_valid_split_host :: "bytes \<Rightarrow> bool" where
  "is_valid_split_host host =
     (if length host < 3 then False
      else if starts_with ''.'' host \<or> ends_with ''.'' host then False
      else if contains_str ''..'' host then False
      else case rfind_byte CHR ''.'' host of
        None \<Rightarrow> False
      | Some dot \<Rightarrow>
          if dot = 0 then False
          else let tld = drop (dot + 1) host in
            if length tld < 2 then False else list_all is_ascii_alphabetic tld)"

definition is_netsplit_quit :: "bytes \<Rightarrow> bool" where
  "is_netsplit_quit message =
     (if message = [] then False
      else if CHR '':'' \<in> set message \<or> CHR ''/'' \<in> set message then False
      else case find_byte CHR '' '' message of
        None \<Rightarrow> False
      | Some space \<Rightarrow>
          if \<not> (space > 0 \<and> space < length message - 1) then False
          else if CHR '' '' \<in> set (drop (space + 1) message) then False
          else
            let host1 = take space message; host2 = drop (space + 1) message in
            is_valid_split_host host1 \<and> is_valid_split_host host2 \<and> host1 \<noteq> host2)"

section \<open>Messages\<close>

definition format_nick_list :: "bytes list \<Rightarrow> bytes" where
  "format_nick_list nicks =
     (if length nicks > MAX_NICKS_DISPLAY
      then join_with '', '' (take MAX_NICKS_DISPLAY nicks) @ '' (+''
           @ show_nat (length nicks - MAX_NICKS_DISPLAY) @ '' more)''
      else join_with '', '' nicks)"

text \<open>The nicks per channel, each in the order of the records.\<close>

definition add_nick :: "bytes \<Rightarrow> bytes \<Rightarrow> (bytes, bytes list) hmap \<Rightarrow> (bytes, bytes list) hmap" where
  "add_nick nick ch m = hm_put ch (unwrap_or [] (hm_get m ch) @ [nick]) m"

definition channel_nicks :: "(bytes \<times> bytes list) list \<Rightarrow> (bytes, bytes list) hmap" where
  "channel_nicks recs = fold (\<lambda>(nick, chans) m. fold (add_nick nick) chans m) recs []"

text \<open>The arrow U+21C4 in UTF-8.\<close>

definition arrow :: bytes where
  "arrow = [CHR 0xE2, CHR 0x87, CHR 0x84]"

definition format_split_messages :: "split_group \<Rightarrow> netsplit_message list" where
  "format_split_messages g =
     map (\<lambda>(channel, nicks). \<lparr>buffer_ids = [channel],
            msg_text = ''Netsplit '' @ sg_server1 g @ '' '' @ arrow @ '' '' @ sg_server2 g @ '' quits: ''
              @ format_nick_list nicks\<rparr>)
       (channel_nicks (map (\<lambda>r. (sr_nick r, sr_channels r)) (sg_nicks g)))"

definition format_netjoin_messages :: "netjoin_group \<Rightarrow> netsplit_message list" where
  "format_netjoin_messages g =
     map (\<lambda>(channel, nicks). \<lparr>buffer_ids = [channel],
            msg_text = ''Netsplit over '' @ ng_server1 g @ '' '' @ arrow @ '' '' @ ng_server2 g @ '' joins: ''
              @ format_nick_list nicks\<rparr>)
       (channel_nicks (map (\<lambda>r. (nj_nick r, nj_channels r)) (ng_records g)))"

section \<open>Operations\<close>

definition handle_quit ::
  "(bytes \<Rightarrow> bytes) \<Rightarrow> nat \<Rightarrow> bytes \<Rightarrow> bytes \<Rightarrow> bytes list \<Rightarrow> netsplit_state \<Rightarrow> bool \<times> netsplit_state" where
  "handle_quit lc now nick message affected_buffer_ids st =
     (if \<not> is_netsplit_quit message then (False, st)
      else case find_byte CHR '' '' message of
        None \<Rightarrow> (False, st)
      | Some space \<Rightarrow>
          let server1 = take space message; server2 = drop (space + 1) message;
              (idx, gs) =
                (case position (\<lambda>g. sg_server1 g = server1 \<and> sg_server2 g = server2 \<and> \<not> sg_printed g) (ns_groups st) of
                   Some idx \<Rightarrow> (idx, ns_groups st)
                 | None \<Rightarrow> (length (ns_groups st),
                     ns_groups st @ [\<lparr>sg_server1 = server1, sg_server2 = server2, sg_nicks = [],
                       last_quit = now, sg_printed = False\<rparr>]))
          in (True, st\<lparr>
            ns_groups := update_at idx (\<lambda>g. g\<lparr>
                sg_nicks := sg_nicks g @ [\<lparr>sr_nick = nick, sr_channels = affected_buffer_ids\<rparr>],
                last_quit := now\<rparr>) gs,
            nick_index := hm_put (lc nick) idx (nick_index st)\<rparr>))"

definition insert_set :: "bytes \<Rightarrow> bytes list \<Rightarrow> bytes list" where
  "insert_set x xs = (if x \<in> set xs then xs else xs @ [x])"

definition add_join :: "bytes \<Rightarrow> bytes \<Rightarrow> netjoin_record list \<Rightarrow> netjoin_record list" where
  "add_join nick buffer_id recs =
     (case position (\<lambda>r. eq_ignore_ascii_case (nj_nick r) nick) recs of
        Some i \<Rightarrow> update_at i (\<lambda>r. r\<lparr>nj_channels := insert_set buffer_id (nj_channels r)\<rparr>) recs
      | None \<Rightarrow> recs @ [\<lparr>nj_nick = nick, nj_channels = [buffer_id]\<rparr>])"

definition handle_join ::
  "(bytes \<Rightarrow> bytes) \<Rightarrow> nat \<Rightarrow> bytes \<Rightarrow> bytes \<Rightarrow> netsplit_state \<Rightarrow> bool \<times> netsplit_state" where
  "handle_join lc now nick buffer_id st =
     (let nick_key = lc nick in
      case hm_get (nick_index st) nick_key of
        None \<Rightarrow> (False, st)
      | Some group_idx \<Rightarrow>
          if group_idx \<ge> length (ns_groups st)
          then (False, st\<lparr>nick_index := hm_del nick_key (nick_index st)\<rparr>)
          else
            let server1 = sg_server1 (ns_groups st ! group_idx);
                server2 = sg_server2 (ns_groups st ! group_idx);
                (nj, js) =
                  (case position (\<lambda>g. ng_server1 g = server1 \<and> ng_server2 g = server2 \<and> \<not> ng_printed g) (netjoins st) of
                     Some idx \<Rightarrow> (idx, netjoins st)
                   | None \<Rightarrow> (length (netjoins st),
                       netjoins st @ [\<lparr>ng_server1 = server1, ng_server2 = server2, ng_records = [],
                         last_join = now, ng_printed = False\<rparr>]))
            in (True, st\<lparr>
              netjoins := update_at nj (\<lambda>g. g\<lparr>ng_records := add_join nick buffer_id (ng_records g), last_join := now\<rparr>) js,
              nick_index := hm_del nick_key (nick_index st)\<rparr>))"

definition split_due :: "nat \<Rightarrow> split_group \<Rightarrow> bool" where
  "split_due now g \<longleftrightarrow> \<not> sg_printed g \<and> now - last_quit g \<ge> SPLIT_BATCH_WAIT"

definition netjoin_due :: "nat \<Rightarrow> netjoin_group \<Rightarrow> bool" where
  "netjoin_due now g \<longleftrightarrow> \<not> ng_printed g \<and> now - last_join g \<ge> NETJOIN_BATCH_WAIT"

definition rebuild_index :: "(bytes \<Rightarrow> bytes) \<Rightarrow> split_group list \<Rightarrow> (bytes, nat) hmap" where
  "rebuild_index lc gs =
     fold (\<lambda>(idx, g) m. fold (\<lambda>r m. hm_put (lc (sr_nick r)) idx m) (sg_nicks g) m) (enumerate 0 gs) []"

definition tick :: "(bytes \<Rightarrow> bytes) \<Rightarrow> nat \<Rightarrow> netsplit_state \<Rightarrow> netsplit_message list \<times> netsplit_state" where
  "tick lc now st =
     (let messages = concat (map format_split_messages (filter (split_due now) (ns_groups st)))
            @ concat (map format_netjoin_messages (filter (netjoin_due now) (netjoins st)));
          gs = map (\<lambda>g. if split_due now g then g\<lparr>sg_printed := True\<rparr> else g) (ns_groups st);
          js = map (\<lambda>g. if netjoin_due now g then g\<lparr>ng_printed := True\<rparr> else g) (netjoins st);
          gs' = filter (\<lambda>g. now - last_quit g < SPLIT_EXPIRE) gs;
          js' = filter (\<lambda>g. now - last_join g < SPLIT_EXPIRE) js
      in (messages, \<lparr>ns_groups = gs', nick_index = rebuild_index lc gs', netjoins = js'\<rparr>))"

definition is_expired_split_nick :: "(bytes \<Rightarrow> bytes) \<Rightarrow> nat \<Rightarrow> bytes \<Rightarrow> netsplit_state \<Rightarrow> bool" where
  "is_expired_split_nick lc now nick st =
     (case hm_get (nick_index st) (lc nick) of
        None \<Rightarrow> False
      | Some idx \<Rightarrow> idx < length (ns_groups st) \<and> now - last_quit (ns_groups st ! idx) \<ge> SPLIT_EXPIRE)"

section \<open>The nick index\<close>

definition lists_nick :: "(bytes \<Rightarrow> bytes) \<Rightarrow> split_group \<Rightarrow> bytes \<Rightarrow> bool" where
  "lists_nick lc g k \<longleftrightarrow> (\<exists>r\<in>set (sg_nicks g). lc (sr_nick r) = k)"

text \<open>Every entry of the index points at a group that lists the nick.\<close>

definition index_ok :: "(bytes \<Rightarrow> bytes) \<Rightarrow> netsplit_state \<Rightarrow> bool" where
  "index_ok lc st \<longleftrightarrow>
     (\<forall>k i. hm_get (nick_index st) k = Some i \<longrightarrow>
        i < length (ns_groups st) \<and> lists_nick lc (ns_groups st ! i) k)"

lemma fold_records:
  "hm_get (fold (\<lambda>r m. hm_put (lc (sr_nick r)) idx m) rs m) k =
     (if \<exists>r\<in>set rs. lc (sr_nick r) = k then Some idx else hm_get m k)"
  by (induction rs arbitrary: m) (auto simp: rmap)

abbreviation index_group :: "(bytes \<Rightarrow> bytes) \<Rightarrow> nat \<times> split_group \<Rightarrow> (bytes, nat) hmap \<Rightarrow> (bytes, nat) hmap" where
  "index_group lc \<equiv> (\<lambda>(idx, g) m. fold (\<lambda>r m. hm_put (lc (sr_nick r)) idx m) (sg_nicks g) m)"

lemma get_index_group:
  "hm_get (fold (\<lambda>r. hm_put (lc (sr_nick r)) n) (sg_nicks g) m) k =
     (if lists_nick lc g k then Some n else hm_get m k)"
  by (simp add: fold_records lists_nick_def)

lemma rebuild_from:
  "hm_get (fold (index_group lc) (enumerate n gs) m) k = Some i \<Longrightarrow>
     hm_get m k = Some i \<or> (n \<le> i \<and> i < n + length gs \<and> lists_nick lc (gs ! (i - n)) k)"
proof (induction gs arbitrary: n m)
  case (Cons g gs)
  from Cons.prems have "hm_get (fold (index_group lc) (enumerate (Suc n) gs) (index_group lc (n, g) m)) k = Some i"
    by simp
  from Cons.IH [OF this] consider
    "hm_get (index_group lc (n, g) m) k = Some i"
    | "Suc n \<le> i \<and> i < Suc n + length gs \<and> lists_nick lc (gs ! (i - Suc n)) k" by blast
  then show ?case
  proof cases
    case 1
    then show ?thesis by (cases "lists_nick lc g k") (auto simp: get_index_group)
  next
    case 2
    then have "i - n = Suc (i - Suc n)" by linarith
    with 2 show ?thesis by simp
  qed
qed simp

lemma rebuild_keeps:
  "hm_get m k \<noteq> None \<or> (\<exists>g\<in>set gs. lists_nick lc g k) \<Longrightarrow>
     hm_get (fold (index_group lc) (enumerate n gs) m) k \<noteq> None"
proof (induction gs arbitrary: n m)
  case (Cons g gs)
  have "hm_get (index_group lc (n, g) m) k \<noteq> None \<or> (\<exists>g\<in>set gs. lists_nick lc g k)"
    using Cons.prems by (auto simp: get_index_group)
  from Cons.IH [OF this] show ?case by simp
qed simp

lemma rebuild_sound:
  "hm_get (rebuild_index lc gs) k = Some i \<Longrightarrow> i < length gs \<and> lists_nick lc (gs ! i) k"
  using rebuild_from [of lc 0 gs "[]" k i] by (simp add: rebuild_index_def)

lemma rebuild_complete:
  "g \<in> set gs \<Longrightarrow> lists_nick lc g k \<Longrightarrow> \<exists>i. hm_get (rebuild_index lc gs) k = Some i \<and> i < length gs"
  using rebuild_keeps [of "[]" k gs lc 0] rebuild_sound [of lc gs k]
  unfolding rebuild_index_def by blast

section \<open>Reachable states\<close>

lemma quit_shape:
  assumes "handle_quit lc now nick message bufs st = (True, st')"
  obtains idx gs where "idx < length gs" "length (ns_groups st) \<le> length gs"
    "\<And>i. i < length (ns_groups st) \<Longrightarrow> gs ! i = ns_groups st ! i"
    "ns_groups st' = update_at idx (\<lambda>g. g\<lparr>
        sg_nicks := sg_nicks g @ [\<lparr>sr_nick = nick, sr_channels = bufs\<rparr>], last_quit := now\<rparr>) gs"
    "nick_index st' = hm_put (lc nick) idx (nick_index st)" "netjoins st' = netjoins st"
proof -
  from assms obtain space where "find_byte CHR '' '' message = Some space"
    by (auto simp: handle_quit_def split: if_splits option.splits)
  let ?P = "\<lambda>g. sg_server1 g = take space message \<and> sg_server2 g = drop (space + 1) message \<and> \<not> sg_printed g"
  note q = assms [unfolded handle_quit_def \<open>find_byte _ _ = _\<close>]
  show thesis
  proof (cases "position ?P (ns_groups st)")
    case None
    then show thesis using q
      by (intro that [where gs = "ns_groups st @ [\<lparr>sg_server1 = take space message,
              sg_server2 = drop (space + 1) message, sg_nicks = [], last_quit = now, sg_printed = False\<rparr>]"
            and idx = "length (ns_groups st)"])
        (auto simp: nth_append split: if_splits)
  next
    case (Some i)
    then show thesis using q position_Some [OF Some]
      by (intro that [where gs = "ns_groups st" and idx = i]) (auto split: if_splits)
  qed
qed

lemma quit_index_ok:
  assumes "index_ok lc st" "handle_quit lc now nick message bufs st = (r, st')"
  shows "index_ok lc st'"
proof (cases r)
  case False
  then have "st' = st" using assms(2)
    by (auto simp: handle_quit_def Let_def split: if_splits option.splits prod.splits)
  with assms(1) show ?thesis by simp
next
  case True
  then have step: "handle_quit lc now nick message bufs st = (True, st')" using assms(2) by simp
  obtain idx gs where q: "idx < length gs"
    "length (ns_groups st) \<le> length gs" "\<And>i. i < length (ns_groups st) \<Longrightarrow> gs ! i = ns_groups st ! i"
    "ns_groups st' = update_at idx (\<lambda>g. g\<lparr>
        sg_nicks := sg_nicks g @ [\<lparr>sr_nick = nick, sr_channels = bufs\<rparr>], last_quit := now\<rparr>) gs"
    "nick_index st' = hm_put (lc nick) idx (nick_index st)"
    by (rule quit_shape [OF step]) (rule that)
  show ?thesis unfolding index_ok_def
  proof (intro allI impI)
    fix k i assume g: "hm_get (nick_index st') k = Some i"
    show "i < length (ns_groups st') \<and> lists_nick lc (ns_groups st' ! i) k"
    proof (cases "k = lc nick")
      case True
      with g q(5) have "i = idx" by (simp add: rmap)
      with q(1,4) True show ?thesis by (simp add: nth_update_at lists_nick_def)
    next
      case False
      with g q(5) assms(1) have "i < length (ns_groups st)" "lists_nick lc (ns_groups st ! i) k"
        by (auto simp: index_ok_def rmap)
      with q(2,3,4) show ?thesis by (auto simp: nth_update_at lists_nick_def)
    qed
  qed
qed

lemma join_groups: "handle_join lc now nick buf st = (r, st') \<Longrightarrow> ns_groups st' = ns_groups st"
  by (auto simp: handle_join_def Let_def split: if_splits option.splits prod.splits)

lemma join_index:
  "handle_join lc now nick buf st = (r, st') \<Longrightarrow>
     nick_index st' = nick_index st \<or> nick_index st' = hm_del (lc nick) (nick_index st)"
  by (auto simp: handle_join_def Let_def split: if_splits option.splits prod.splits)

lemma join_index_ok:
  "index_ok lc st \<Longrightarrow> handle_join lc now nick buf st = (r, st') \<Longrightarrow> index_ok lc st'"
  using join_groups [of lc now nick buf st r st'] join_index [of lc now nick buf st r st']
  by (auto simp: index_ok_def rmap split: if_splits)

lemma tick_index: "tick lc now st = (ms, st') \<Longrightarrow> nick_index st' = rebuild_index lc (ns_groups st')"
  by (auto simp: tick_def Let_def)

lemma tick_index_ok: "tick lc now st = (ms, st') \<Longrightarrow> index_ok lc st'"
  unfolding index_ok_def using rebuild_sound by (simp add: tick_index)

text \<open>The states after any run of the three operations, with the QUITs that were handed in, netsplit or not.\<close>

inductive netsplit_history :: "(bytes \<Rightarrow> bytes) \<Rightarrow> (bytes \<times> bytes) list \<Rightarrow> netsplit_state \<Rightarrow> bool" for lc where
  start: "netsplit_history lc [] netsplit_new"
| quit: "netsplit_history lc qs st \<Longrightarrow> handle_quit lc now nick message bufs st = (r, st') \<Longrightarrow>
     netsplit_history lc (qs @ [(nick, message)]) st'"
| join: "netsplit_history lc qs st \<Longrightarrow> handle_join lc now nick buf st = (r, st') \<Longrightarrow> netsplit_history lc qs st'"
| ticked: "netsplit_history lc qs st \<Longrightarrow> tick lc now st = (ms, st') \<Longrightarrow> netsplit_history lc qs st'"

lemma history_index_ok: "netsplit_history lc qs st \<Longrightarrow> index_ok lc st"
proof (induction rule: netsplit_history.induct)
  case start
  then show ?case by (simp add: index_ok_def netsplit_new_def)
qed (blast intro: quit_index_ok join_index_ok tick_index_ok)+

text \<open>A QUIT message that names two distinct valid hosts and nothing else.\<close>

definition names_split :: "bytes \<Rightarrow> bytes \<Rightarrow> bytes \<Rightarrow> bool" where
  "names_split m s1 s2 \<longleftrightarrow> m = s1 @ '' '' @ s2 \<and> is_valid_split_host s1 \<and> is_valid_split_host s2 \<and> s1 \<noteq> s2
     \<and> CHR '':'' \<notin> set m \<and> CHR ''/'' \<notin> set m"

lemma netsplit_quit_names:
  assumes "is_netsplit_quit m" "find_byte CHR '' '' m = Some i"
  shows "names_split m (take i m) (drop (i + 1) m)"
proof -
  have "m = take i m @ '' '' @ drop (i + 1) m"
    using find_byte_SomeD [OF assms(2)] id_take_nth_drop [of i m] by simp
  with assms show ?thesis by (auto simp: is_netsplit_quit_def names_split_def Let_def split: if_splits)
qed

text \<open>A QUIT puts into the groups its own nick only, under the servers its message names.\<close>

lemma quit_records:
  assumes "handle_quit lc now nick message bufs st = (r, st')" "g' \<in> set (ns_groups st')" "q \<in> set (sg_nicks g')"
  shows "(\<exists>g\<in>set (ns_groups st). q \<in> set (sg_nicks g) \<and> sg_server1 g = sg_server1 g' \<and> sg_server2 g = sg_server2 g')
    \<or> (sr_nick q = nick \<and> names_split message (sg_server1 g') (sg_server2 g'))"
proof (cases "is_netsplit_quit message")
  case False
  with assms show ?thesis by (auto simp: handle_quit_def)
next
  case True
  then obtain i where i: "find_byte CHR '' '' message = Some i"
    by (auto simp: is_netsplit_quit_def split: if_splits option.splits)
  note names = netsplit_quit_names [OF True i]
  let ?s1 = "take i message" and ?s2 = "drop (i + 1) message"
  let ?P = "\<lambda>g. sg_server1 g = ?s1 \<and> sg_server2 g = ?s2 \<and> \<not> sg_printed g"
  let ?new = "\<lparr>sg_server1 = ?s1, sg_server2 = ?s2, sg_nicks = [], last_quit = now, sg_printed = False\<rparr>"
  let ?f = "\<lambda>g. g\<lparr>sg_nicks := sg_nicks g @ [\<lparr>sr_nick = nick, sr_channels = bufs\<rparr>], last_quit := now\<rparr>"
  have st': "ns_groups st' = (case position ?P (ns_groups st) of Some j \<Rightarrow> update_at j ?f (ns_groups st)
      | None \<Rightarrow> ns_groups st @ [?f ?new])"
    using assms(1) True i by (auto simp: handle_quit_def update_at_def split: option.splits)
  show ?thesis
  proof (cases "position ?P (ns_groups st)")
    case None
    with st' assms(2,3) names show ?thesis by auto
  next
    case (Some j)
    note j = position_Some [OF Some]
    from st' Some assms(2) consider "g' \<in> set (ns_groups st)" | "g' = ?f (ns_groups st ! j)"
      using j set_update_subset_insert [of "ns_groups st" j "?f (ns_groups st ! j)"] by (auto simp: update_at_def)
    then show ?thesis
    proof cases
      case 1
      with assms(3) show ?thesis by blast
    next
      case 2
      with j assms(3) names nth_mem [of j "ns_groups st"] show ?thesis by auto
    qed
  qed
qed

lemma tick_records:
  assumes "tick lc now st = (ms, st')" "g' \<in> set (ns_groups st')"
  shows "\<exists>g\<in>set (ns_groups st). sg_nicks g = sg_nicks g' \<and> sg_server1 g = sg_server1 g' \<and> sg_server2 g = sg_server2 g'"
proof -
  from assms obtain g where "g \<in> set (ns_groups st)" "g' = (if split_due now g then g\<lparr>sg_printed := True\<rparr> else g)"
    by (auto simp: tick_def Let_def)
  then show ?thesis by (intro bexI [of _ g]) simp_all
qed

text \<open>Every nick a group lists did quit, with a message that names the group's servers.\<close>

lemma history_records:
  "netsplit_history lc qs st \<Longrightarrow> g \<in> set (ns_groups st) \<Longrightarrow> q \<in> set (sg_nicks g) \<Longrightarrow>
     \<exists>m. (sr_nick q, m) \<in> set qs \<and> names_split m (sg_server1 g) (sg_server2 g)"
proof (induction arbitrary: g rule: netsplit_history.induct)
  case start
  then show ?case by (simp add: netsplit_new_def)
next
  case (quit qs st now nick message bufs r st')
  from quit_records [OF quit.hyps(2) quit.prems] show ?case
  proof
    assume "\<exists>g'\<in>set (ns_groups st). q \<in> set (sg_nicks g') \<and> sg_server1 g' = sg_server1 g \<and> sg_server2 g' = sg_server2 g"
    then obtain g' where g': "g' \<in> set (ns_groups st)" "q \<in> set (sg_nicks g')"
      "sg_server1 g' = sg_server1 g" "sg_server2 g' = sg_server2 g" by blast
    from quit.IH [OF g'(1,2)] g'(3,4) show ?thesis by auto
  qed auto
next
  case (join qs st now nick buf r st')
  then show ?case by (simp add: join_groups [OF join.hyps(2)])
next
  case (ticked qs st now ms st')
  from tick_records [OF ticked.hyps(2) ticked.prems(1)] obtain g' where
    "g' \<in> set (ns_groups st)" "sg_nicks g' = sg_nicks g" "sg_server1 g' = sg_server1 g" "sg_server2 g' = sg_server2 g"
    by blast
  with ticked.IH [of g'] ticked.prems(2) show ?case by simp
qed

lemma join_taken:
  "fst (handle_join lc now nick buf st) \<longleftrightarrow>
     (\<exists>i. hm_get (nick_index st) (lc nick) = Some i \<and> i < length (ns_groups st))"
  by (auto simp: handle_join_def Let_def split: option.splits prod.splits)

section \<open>Properties\<close>

text \<open>C24: After any run of QUITs, JOINs and ticks, a JOIN is folded into a netjoin batch exactly when the
  nick is in the index, and then the nick did leave in a netsplit: among the QUITs that came in there is one
  of that nick whose message is two distinct valid host names with a space between, free of colons and
  slashes, and the group of just these two servers is still in memory and lists the nick.  So no join is
  hidden of a nick that never left, or left with any other message.\<close>

theorem netjoin_only_for_split_nicks:
  assumes "netsplit_history lc qs st"
  shows "fst (handle_join lc now nick buf st) = (hm_get (nick_index st) (lc nick) \<noteq> None)
    \<and> (fst (handle_join lc now nick buf st) \<longrightarrow>
        (\<exists>g\<in>set (ns_groups st). \<exists>q\<in>set (sg_nicks g). \<exists>m. lc (sr_nick q) = lc nick \<and> (sr_nick q, m) \<in> set qs
          \<and> m = sg_server1 g @ '' '' @ sg_server2 g \<and> is_valid_split_host (sg_server1 g)
          \<and> is_valid_split_host (sg_server2 g) \<and> sg_server1 g \<noteq> sg_server2 g
          \<and> CHR '':'' \<notin> set m \<and> CHR ''/'' \<notin> set m))"
proof -
  have ok: "index_ok lc st" using assms by (rule history_index_ok)
  have "fst (handle_join lc now nick buf st) = (hm_get (nick_index st) (lc nick) \<noteq> None)"
    using ok by (auto simp: join_taken index_ok_def)
  moreover have "\<exists>g\<in>set (ns_groups st). \<exists>q\<in>set (sg_nicks g). \<exists>m. lc (sr_nick q) = lc nick \<and> (sr_nick q, m) \<in> set qs
      \<and> names_split m (sg_server1 g) (sg_server2 g)" if j: "fst (handle_join lc now nick buf st)"
  proof -
    from ok j obtain g where g: "g \<in> set (ns_groups st)" "lists_nick lc g (lc nick)"
      by (auto simp: join_taken index_ok_def intro: nth_mem)
    then obtain q where q: "q \<in> set (sg_nicks g)" "lc (sr_nick q) = lc nick" by (auto simp: lists_nick_def)
    with history_records [OF assms g(1) q(1)] g(1) show ?thesis by blast
  qed
  ultimately show ?thesis unfolding names_split_def by blast
qed

text \<open>After the netsplit QUIT of alice and the ordinary QUIT of bob, her JOIN is hidden and his is not.\<close>

theorem netjoin_only_for_split_nicks_witness:
  "\<exists>st. netsplit_history id [(''alice'', ''a.example.net b.example.net''), (''bob'', ''bye all'')] st \<and>
     fst (handle_join id (secs 9) ''alice'' ''net/#c'' st) \<and>
     (\<exists>g\<in>set (ns_groups st). ''a.example.net b.example.net'' = sg_server1 g @ '' '' @ sg_server2 g) \<and>
     \<not> fst (handle_join id (secs 9) ''bob'' ''net/#c'' st)"
proof -
  obtain st where q: "handle_quit id (secs 1) ''alice'' ''a.example.net b.example.net'' [''net/#c''] netsplit_new = (True, st)"
      "nick_index st = [(''alice'', 0)]" "length (ns_groups st) = 1"
    by (simp add: handle_quit_def is_netsplit_quit_def is_valid_split_host_def netsplit_new_def starts_with_def
        ends_with_def strip_suffix_def rfind_byte_def is_ascii_alphabetic_def hm_put_def)
  have b: "handle_quit id (secs 2) ''bob'' ''bye all'' [''net/#c''] st = (False, st)"
    by (simp add: handle_quit_def is_netsplit_quit_def is_valid_split_host_def starts_with_def
        ends_with_def strip_suffix_def rfind_byte_def)
  have r: "netsplit_history id [(''alice'', ''a.example.net b.example.net''), (''bob'', ''bye all'')] st"
    using quit [OF quit [OF start q(1)] b] by simp
  have j: "fst (handle_join id (secs 9) ''alice'' ''net/#c'' st)"
    "\<not> fst (handle_join id (secs 9) ''bob'' ''net/#c'' st)"
    using q(2,3) by (simp_all add: join_taken hm_get_def)
  from netjoin_only_for_split_nicks [OF r, of "secs 9" "''alice''" "''net/#c''"] j(1) obtain g q m where
    g: "g \<in> set (ns_groups st)" "q \<in> set (sg_nicks g)" "id (sr_nick q) = id ''alice''"
      "(sr_nick q, m) \<in> set [(''alice'', ''a.example.net b.example.net''), (''bob'', ''bye all'')]"
      "m = sg_server1 g @ '' '' @ sg_server2 g" by blast
  from g(3,4) have m: "m = ''a.example.net b.example.net''" by (auto simp del: append.simps)
  show ?thesis by (intro exI [of _ st] conjI bexI [of _ g] r j g(1) g(5) [unfolded m])
qed

text \<open>C25: A tick rebuilds the index from every nick the groups still list, those that have come back
  included: a nick that split, rejoined and was reported is taken for a split nick again at its
  next JOIN, so for an hour after the split that JOIN is hidden in a netjoin batch.\<close>

theorem rejoined_nick_counts_as_split_again:
  assumes q: "handle_quit lc t0 nick message bufs st = (True, s1)"
    and j: "handle_join lc t1 nick buf s1 = (True, s2)"
    and t: "tick lc t2 s2 = (ms, s3)" "t2 - t0 < SPLIT_EXPIRE"
  shows "fst (handle_join lc t3 nick buf' s3)"
proof -
  obtain idx gs where g: "idx < length gs"
    "ns_groups s1 = update_at idx (\<lambda>g. g\<lparr>
        sg_nicks := sg_nicks g @ [\<lparr>sr_nick = nick, sr_channels = bufs\<rparr>], last_quit := t0\<rparr>) gs"
    by (rule quit_shape [OF q]) (rule that)
  let ?g = "ns_groups s1 ! idx"
  have l: "last_quit ?g = t0" "lists_nick lc ?g (lc nick)" "?g \<in> set (ns_groups s1)"
    using g nth_mem [of idx "ns_groups s1"] by (simp_all add: nth_update_at lists_nick_def)
  define h where "h = (if split_due t2 ?g then ?g\<lparr>sg_printed := True\<rparr> else ?g)"
  have "lists_nick lc h (lc nick)" using l(2) by (simp add: h_def lists_nick_def)
  moreover have "h \<in> set (ns_groups s3)"
    using t l(1,3) join_groups [OF j] by (auto simp: tick_def Let_def h_def)
  ultimately obtain i where "hm_get (rebuild_index lc (ns_groups s3)) (lc nick) = Some i" "i < length (ns_groups s3)"
    using rebuild_complete by blast
  moreover have "nick_index s3 = rebuild_index lc (ns_groups s3)" by (rule tick_index [OF t(1)])
  ultimately show ?thesis by (simp add: join_taken)
qed

theorem rejoined_nick_counts_as_split_again_witness:
  "\<exists>s1 s2 ms s3. handle_quit id (secs 1) ''al'' ''a.example.net b.example.net'' [''net/#c''] netsplit_new = (True, s1) \<and>
     handle_join id (secs 20) ''al'' ''net/#c'' s1 = (True, s2) \<and> tick id (secs 30) s2 = (ms, s3) \<and>
     fst (handle_join id (secs 1800) ''al'' ''net/#other'' s3)"
proof -
  obtain s1 where q: "handle_quit id (secs 1) ''al'' ''a.example.net b.example.net'' [''net/#c''] netsplit_new = (True, s1)"
    and i: "nick_index s1 = [(''al'', 0)]" "length (ns_groups s1) = 1"
    by (simp add: handle_quit_def is_netsplit_quit_def is_valid_split_host_def netsplit_new_def starts_with_def
        ends_with_def strip_suffix_def rfind_byte_def is_ascii_alphabetic_def hm_put_def)
  have "fst (handle_join id (secs 20) ''al'' ''net/#c'' s1)" using i by (simp add: join_taken hm_get_def)
  then obtain s2 where j: "handle_join id (secs 20) ''al'' ''net/#c'' s1 = (True, s2)" by (metis prod.collapse)
  obtain ms s3 where t: "tick id (secs 30) s2 = (ms, s3)" by (metis surj_pair)
  have "fst (handle_join id (secs 1800) ''al'' ''net/#other'' s3)"
    by (rule rejoined_nick_counts_as_split_again [OF q j t]) (simp add: SPLIT_EXPIRE_def secs_def)
  with q j t show ?thesis by blast
qed

end
