(* ===== verification/Irc_Multiline.thy ===== *)
theory Irc_Multiline
  imports Rust_Text
begin

text \<open>
  Multiline messages (\<open>src/src/irc/multiline.rs\<close>): the limits of the server's capability value, the
  partition of a text into batches of wire lines, the batch's wire messages and the reassembly of
  what arrives.  The wire messages are values of the \<open>irc\<close> crate's public types, of which the
  datatypes below have the constructors this file builds.
\<close>

section \<open>Limits\<close>

definition MESSAGE_MAX_BYTES :: nat where "MESSAGE_MAX_BYTES = 350"
definition MULTILINE_DEFAULT_MAX_LINES :: nat where "MULTILINE_DEFAULT_MAX_LINES = 24"

record multiline_limits =
  max_bytes :: nat
  max_lines :: nat

record wire_line =
  wl_text :: bytes
  wl_concat :: bool

text \<open>A key that appears again replaces its value, even by one that does not parse.\<close>

fun limit_tokens :: "bytes list \<Rightarrow> nat option \<times> nat option \<Rightarrow> nat option \<times> nat option" where
  "limit_tokens [] acc = acc"
| "limit_tokens (tok # toks) (mb, ml) =
     (case split_once CHR ''='' tok of
        None \<Rightarrow> limit_tokens toks (mb, ml)
      | Some (k, v) \<Rightarrow>
          if k = ''max-bytes'' then limit_tokens toks (result_ok (parse_usize v), ml)
          else if k = ''max-lines'' then limit_tokens toks (mb, result_ok (parse_usize v))
          else limit_tokens toks (mb, ml))"

definition parse_limits :: "bytes option \<Rightarrow> multiline_limits option" where
  "parse_limits cap_value =
     (case cap_value of
        None \<Rightarrow> None
      | Some v \<Rightarrow>
          (case limit_tokens (split_on CHR '','' v) (None, None) of (mb, ml) \<Rightarrow>
             map_option (\<lambda>b. \<lparr>max_bytes = b,
                 max_lines = unwrap_or MULTILINE_DEFAULT_MAX_LINES (opt_filter (\<lambda>n. n > 0) ml)\<rparr>)
               (opt_filter (\<lambda>b. b \<ge> MESSAGE_MAX_BYTES) mb)))"

definition newline :: byte where "newline = CHR 0x0A"

definition needs_multiline :: "bytes \<Rightarrow> bool" where
  "needs_multiline txt \<longleftrightarrow> newline \<in> set txt \<or> length txt > MESSAGE_MAX_BYTES"

section \<open>Reassembly and partition\<close>

fun reassemble_loop :: "bool \<Rightarrow> wire_line list \<Rightarrow> bytes" where
  "reassemble_loop first [] = []"
| "reassemble_loop first (l # ls) =
     (if \<not> first \<and> \<not> wl_concat l then [newline] else []) @ wl_text l @ reassemble_loop False ls"

definition reassemble :: "wire_line list \<Rightarrow> bytes" where
  "reassemble ls = reassemble_loop True ls"

fun lossless_loop :: "nat \<Rightarrow> bytes \<Rightarrow> bytes list \<Rightarrow> bytes list" where
  "lossless_loop mx cur [] = (if cur \<noteq> [] then [cur] else [])"
| "lossless_loop mx cur (ch # chs) =
     (if cur \<noteq> [] \<and> length cur + length ch > mx then cur # lossless_loop mx ch chs
      else lossless_loop mx (cur @ ch) chs)"

definition split_lossless :: "bytes \<Rightarrow> nat \<Rightarrow> bytes list" where
  "split_lossless l mx = lossless_loop mx [] (chars_of l)"

definition logical_line :: "bytes \<Rightarrow> wire_line list" where
  "logical_line l =
     (if length l \<le> MESSAGE_MAX_BYTES then [\<lparr>wl_text = l, wl_concat = False\<rparr>]
      else map (\<lambda>(i, piece). \<lparr>wl_text = piece, wl_concat = (i > 0)\<rparr>)
             (enumerate 0 (split_lossless l MESSAGE_MAX_BYTES)))"

definition content_bytes :: "wire_line list \<Rightarrow> nat" where
  "content_bytes ls = sum_list (map (\<lambda>w. length (wl_text w)) ls)"

fun pack_loop ::
  "multiline_limits \<Rightarrow> wire_line list list \<Rightarrow> wire_line list list \<Rightarrow> wire_line list \<Rightarrow> nat \<Rightarrow> wire_line list list option" where
  "pack_loop lim [] batches cur cur_bytes = Some (if cur \<noteq> [] then batches @ [cur] else batches)"
| "pack_loop lim (pieces # rest) batches cur cur_bytes =
     (let add_lines = length pieces; add_bytes = content_bytes pieces in
      if add_lines > max_lines lim \<or> add_bytes > max_bytes lim then None
      else
        let join_byte = (if cur \<noteq> [] then 1 else 0);
            would_lines = length cur + add_lines;
            would_bytes = cur_bytes + join_byte + add_bytes
        in
        if cur \<noteq> [] \<and> (would_lines > max_lines lim \<or> would_bytes > max_bytes lim)
        then pack_loop lim rest (batches @ [cur]) pieces add_bytes
        else pack_loop lim rest batches (cur @ pieces) (cur_bytes + join_byte + add_bytes))"

definition partition_lines :: "bytes \<Rightarrow> multiline_limits \<Rightarrow> wire_line list list option" where
  "partition_lines txt lim =
     (let logical = map logical_line (split_on newline txt) in
      if list_all (list_all (\<lambda>w. wl_text w = [])) logical then None
      else pack_loop lim logical [] [] 0)"

section \<open>Wire messages\<close>

datatype irc_tag = Tag bytes "bytes option"

datatype irc_command =
    BATCH bytes "bytes option" "bytes list option"
  | PRIVMSG bytes bytes

record irc_message =
  msg_tags :: "irc_tag list option"
  msg_prefix :: "bytes option"
  msg_command :: irc_command

definition of_command :: "irc_command \<Rightarrow> irc_message" where
  "of_command c = \<lparr>msg_tags = None, msg_prefix = None, msg_command = c\<rparr>"

definition line_frame :: "bytes \<Rightarrow> bytes \<Rightarrow> wire_line \<Rightarrow> irc_message" where
  "line_frame target batch_ref l =
     \<lparr>msg_tags = Some (Tag ''batch'' (Some batch_ref)
          # (if wl_concat l then [Tag ''draft/multiline-concat'' None] else [])),
      msg_prefix = None,
      msg_command = PRIVMSG target (wl_text l)\<rparr>"

definition multiline_frames :: "bytes \<Rightarrow> bytes \<Rightarrow> wire_line list \<Rightarrow> irc_message list" where
  "multiline_frames target batch_ref batch =
     [of_command (BATCH (''+'' @ batch_ref) (Some ''draft/multiline'') (Some [target]))]
     @ map (line_frame target batch_ref) batch
     @ [of_command (BATCH (''-'' @ batch_ref) None None)]"

section \<open>Logical lines\<close>

text \<open>A group of lines that is one logical line: the first starts it, the others continue it.\<close>

definition is_logical :: "wire_line list \<Rightarrow> bool" where
  "is_logical ls \<longleftrightarrow> ls \<noteq> [] \<and> \<not> wl_concat (hd ls) \<and> list_all wl_concat (tl ls)"

definition line_text :: "wire_line list \<Rightarrow> bytes" where
  "line_text ls = concat (map wl_text ls)"

lemma length_line_text: "length (line_text ls) = content_bytes ls"
  by (simp add: line_text_def content_bytes_def length_concat o_def)

lemma reassemble_concat: "list_all wl_concat ls \<Longrightarrow> reassemble_loop False (ls @ ms) = line_text ls @ reassemble_loop False ms"
  by (induction ls) (simp_all add: line_text_def)

lemma reassemble_logical:
  "is_logical ls \<Longrightarrow> reassemble_loop b (ls @ ms) = (if b then [] else [newline]) @ line_text ls @ reassemble_loop False ms"
  by (cases ls) (simp_all add: is_logical_def reassemble_concat line_text_def)

lemma reassemble_groups:
  "list_all is_logical gs \<Longrightarrow>
     reassemble_loop b (concat gs) = (if b then [] else if gs = [] then [] else [newline]) @ join_with [newline] (map line_text gs)"
proof (induction gs arbitrary: b)
  case (Cons g gs)
  then have "is_logical g" "list_all is_logical gs" by simp_all
  have "reassemble_loop b (concat (g # gs))
      = (if b then [] else [newline]) @ line_text g @ reassemble_loop False (concat gs)"
    unfolding concat.simps by (rule reassemble_logical [OF \<open>is_logical g\<close>])
  moreover have "line_text g @ (if gs = [] then [] else [newline]) @ join_with [newline] (map line_text gs)
      = join_with [newline] (map line_text (g # gs))"
    by (cases gs) simp_all
  ultimately show ?case using Cons.IH [OF \<open>list_all is_logical gs\<close>, of False] by simp
qed simp

lemma lossless_concat: "concat (lossless_loop mx cur chs) = cur @ concat chs"
  by (induction chs arbitrary: cur) simp_all

lemma lossless_nonempty: "cur \<noteq> [] \<or> chs \<noteq> [] \<Longrightarrow> [] \<notin> set chs \<Longrightarrow> lossless_loop mx cur chs \<noteq> []"
proof (induction chs arbitrary: cur)
  case (Cons c chs)
  then have "lossless_loop mx (cur @ c) chs \<noteq> []" by auto
  then show ?case by simp
qed simp

lemma lossless_bound:
  "length cur \<le> mx \<Longrightarrow> \<forall>c\<in>set chs. length c \<le> mx \<Longrightarrow> p \<in> set (lossless_loop mx cur chs) \<Longrightarrow> length p \<le> mx"
proof (induction chs arbitrary: cur)
  case (Cons c chs)
  show ?case
  proof (cases "cur \<noteq> [] \<and> length cur + length c > mx")
    case True
    with Cons.prems Cons.IH [of c] show ?thesis by auto
  next
    case False
    then have "length (cur @ c) \<le> mx" using Cons.prems(2) by (cases "cur = []") auto
    with Cons.prems Cons.IH [of "cur @ c"] False show ?thesis by auto
  qed
qed (auto split: if_splits)

lemma map_snd_enumerate_concat:
  "map wl_text (map (\<lambda>(i, piece). \<lparr>wl_text = piece, wl_concat = (i > 0)\<rparr>) (enumerate n ps)) = ps"
  by (induction ps arbitrary: n) auto

lemma enumerate_concat:
  "n > 0 \<Longrightarrow> list_all wl_concat (map (\<lambda>(i, piece). \<lparr>wl_text = piece, wl_concat = (i > (0::nat))\<rparr>) (enumerate n ps))"
  by (induction ps arbitrary: n) auto

lemma logical_line_ok: "is_logical (logical_line l) \<and> line_text (logical_line l) = l"
proof (cases "length l \<le> MESSAGE_MAX_BYTES")
  case True
  then show ?thesis by (simp add: logical_line_def is_logical_def line_text_def)
next
  case False
  then have "l \<noteq> []" by auto
  then have ne: "split_lossless l MESSAGE_MAX_BYTES \<noteq> []"
    unfolding split_lossless_def by (intro lossless_nonempty) (auto dest: chars_of_nonempty)
  then obtain p ps where ps: "split_lossless l MESSAGE_MAX_BYTES = p # ps" by (cases "split_lossless l MESSAGE_MAX_BYTES") auto
  have "is_logical (logical_line l)"
    using False ps enumerate_concat [of 1 ps] by (simp add: logical_line_def is_logical_def)
  moreover have "line_text (logical_line l) = concat (split_lossless l MESSAGE_MAX_BYTES)"
    using False map_snd_enumerate_concat [of 0] by (simp add: logical_line_def line_text_def)
  ultimately show ?thesis by (simp add: split_lossless_def lossless_concat)
qed

section \<open>Packing\<close>

text \<open>
  The batches are the logical lines in order, cut into groups: each group of whole lines keeps the
  limits, the joining newlines counted.
\<close>

definition joined_bytes :: "wire_line list list \<Rightarrow> nat" where
  "joined_bytes gs = length (join_with [newline] (map line_text gs))"

definition fits :: "multiline_limits \<Rightarrow> wire_line list list \<Rightarrow> bool" where
  "fits lim gs \<longleftrightarrow> length (concat gs) \<le> max_lines lim \<and> joined_bytes gs \<le> max_bytes lim"

lemma joined_snoc: "gs \<noteq> [] \<Longrightarrow> joined_bytes (gs @ [g]) = joined_bytes gs + 1 + content_bytes g"
proof (induction gs)
  case (Cons x gs)
  then show ?case
    by (cases gs) (simp_all add: joined_bytes_def length_line_text)
qed simp

lemma joined_Nil [simp]: "joined_bytes [] = 0"
  by (simp add: joined_bytes_def)

lemma joined_single: "joined_bytes [g] = content_bytes g"
  by (simp add: joined_bytes_def length_line_text)

lemma pack_loop_groups:
  assumes "pack_loop lim ls batches (concat cur) (joined_bytes cur) = Some out"
    "list_all is_logical ls" "list_all is_logical cur" "fits lim cur"
  shows "\<exists>gss. out = batches @ map concat gss \<and> concat gss = cur @ ls \<and> list_all (fits lim) gss \<and> [] \<notin> set gss"
  using assms
proof (induction ls arbitrary: batches cur)
  case Nil
  show ?case
  proof (cases "cur = []")
    case True
    with Nil show ?thesis by (intro exI [of _ "[]"]) simp
  next
    case False
    then have "concat cur \<noteq> []" using Nil(3) by (cases cur) (auto simp: is_logical_def)
    with Nil False show ?thesis by (intro exI [of _ "[cur]"]) simp
  qed
next
  case (Cons g ls)
  let ?add = "content_bytes g"
  have g: "is_logical g" "list_all is_logical ls" using Cons.prems by auto
  have nil: "concat cur = [] \<longleftrightarrow> cur = []" using Cons.prems(3) by (cases cur) (auto simp: is_logical_def)
  have small: "length g \<le> max_lines lim" "?add \<le> max_bytes lim"
    using Cons.prems(1) by (auto simp: Let_def split: if_splits)
  show ?case
  proof (cases "cur \<noteq> [] \<and> (length (concat cur) + length g > max_lines lim \<or> joined_bytes cur + 1 + ?add > max_bytes lim)")
    case True
    then have "pack_loop lim ls (batches @ [concat cur]) (concat [g]) (joined_bytes [g]) = Some out"
      using Cons.prems(1) small nil by (auto simp: Let_def joined_single split: if_splits)
    moreover have "fits lim [g]" using small by (simp add: fits_def joined_single)
    ultimately obtain gss where "out = (batches @ [concat cur]) @ map concat gss" "concat gss = [g] @ ls"
      "list_all (fits lim) gss" "[] \<notin> set gss" using Cons.IH [of "batches @ [concat cur]" "[g]"] g by auto
    with True Cons.prems(4) show ?thesis by (intro exI [of _ "cur # gss"]) auto
  next
    case False
    have bytes: "joined_bytes (cur @ [g]) = joined_bytes cur + (if concat cur \<noteq> [] then 1 else 0) + ?add"
      using nil by (cases "cur = []") (simp_all add: joined_snoc joined_single)
    then have "pack_loop lim ls batches (concat (cur @ [g])) (joined_bytes (cur @ [g])) = Some out"
      using Cons.prems(1) small nil False by (auto simp: Let_def split: if_splits)
    moreover have "fits lim (cur @ [g])"
      using False small Cons.prems(4) bytes nil by (cases "cur = []") (auto simp: fits_def)
    ultimately obtain gss where "out = batches @ map concat gss" "concat gss = (cur @ [g]) @ ls"
      "list_all (fits lim) gss" "[] \<notin> set gss" using Cons.IH [of batches "cur @ [g]"] g Cons.prems(3) by auto
    then show ?thesis by (intro exI [of _ gss]) simp
  qed
qed

lemma join_with_append:
  "xs \<noteq> [] \<Longrightarrow> ys \<noteq> [] \<Longrightarrow> join_with s (xs @ ys) = join_with s xs @ s @ join_with s ys"
proof (induction xs)
  case (Cons x xs)
  then show ?case by (cases xs; cases ys) auto
qed simp

lemma join_with_groups:
  "[] \<notin> set gss \<Longrightarrow> join_with s (map (\<lambda>gs. join_with s (map f gs)) gss) = join_with s (map f (concat gss))"
proof (induction gss)
  case (Cons gs gss)
  show ?case
  proof (cases gss)
    case (Cons h hs)
    then have "map f (concat gss) \<noteq> []" "map f gs \<noteq> []" using Cons.prems by auto
    with Cons.IH Cons.prems Cons show ?thesis by (simp add: join_with_append)
  qed simp
qed simp

section \<open>Property\<close>

text \<open>C22: Partition and reassembly: when a text can be sent as multiline, reassembling each batch and
  joining the batches with newlines gives back the text byte for byte; and each batch keeps the
  server's limits on lines and on bytes, joining newlines included.\<close>

theorem partition_reassembles:
  assumes "partition_lines txt lim = Some batches"
  shows "join_with [newline] (map reassemble batches) = txt \<and>
     (\<forall>b\<in>set batches. b \<noteq> [] \<and> length b \<le> max_lines lim \<and> length (reassemble b) \<le> max_bytes lim)"
proof -
  let ?ls = "map logical_line (split_on newline txt)"
  have log: "list_all is_logical ?ls" by (simp add: list_all_iff logical_line_ok)
  have "pack_loop lim ?ls [] (concat []) (joined_bytes []) = Some batches"
    using assms by (simp add: partition_lines_def joined_bytes_def Let_def split: if_splits)
  from pack_loop_groups [OF this log] obtain gss where g: "batches = map concat gss" "concat gss = ?ls"
    "list_all (fits lim) gss" "[] \<notin> set gss" by (auto simp: fits_def joined_bytes_def)
  have re: "reassemble (concat gs) = join_with [newline] (map line_text gs)" if "gs \<in> set gss" for gs
  proof -
    have "set gs \<subseteq> set ?ls" using that g(2) by (metis UN_upper set_concat)
    then have "list_all is_logical gs" using log by (auto simp: list_all_iff)
    then show ?thesis by (simp add: reassemble_def reassemble_groups)
  qed
  have "map reassemble batches = map (\<lambda>gs. join_with [newline] (map line_text gs)) gss"
    using re by (simp add: g(1))
  then have "join_with [newline] (map reassemble batches) = join_with [newline] (map line_text ?ls)"
    using join_with_groups [OF g(4)] g(2) by metis
  also have "\<dots> = txt" by (simp add: o_def logical_line_ok)
  finally have 1: "join_with [newline] (map reassemble batches) = txt" .
  have "concat gs \<noteq> [] \<and> length (concat gs) \<le> max_lines lim \<and> length (reassemble (concat gs)) \<le> max_bytes lim"
    if m: "gs \<in> set gss" for gs
  proof -
    have "fits lim gs" "gs \<noteq> []" using g(3,4) m by (auto simp: list_all_iff)
    moreover have "set gs \<subseteq> set ?ls" using m g(2) by (metis UN_upper set_concat)
    then have "\<forall>x\<in>set gs. x \<noteq> []" using log unfolding list_all_iff is_logical_def by (meson subsetD)
    ultimately show ?thesis using re [OF m] by (cases gs) (auto simp: fits_def joined_bytes_def)
  qed
  with 1 g(1) show ?thesis by auto
qed

theorem partition_reassembles_witness:
  "let lim = \<lparr>max_bytes = 5, max_lines = 2\<rparr>; txt = ''ab'' @ [newline] @ ''c'' @ [newline, newline] @ ''xyz'' in
   \<exists>batches. partition_lines txt lim = Some batches \<and> length batches = 2 \<and>
     join_with [newline] (map reassemble batches) = txt"
proof -
  let ?lim = "\<lparr>max_bytes = 5, max_lines = 2\<rparr>" and ?txt = "''ab'' @ [newline] @ ''c'' @ [newline, newline] @ ''xyz''"
  obtain batches where b: "partition_lines ?txt ?lim = Some batches" "length batches = 2"
    by (simp add: partition_lines_def newline_def logical_line_def MESSAGE_MAX_BYTES_def content_bytes_def Let_def)
  from partition_reassembles [OF b(1)] b show ?thesis by (simp add: Let_def)
qed

end
