(* ===== verification/Irc_Chathistory.thy ===== *)
theory Irc_Chathistory
  imports Rust_Text Rust_Map Rust_Time
begin

text \<open>
  \<open>CHATHISTORY\<close> requests and their state per connection (\<open>src/src/irc/chathistory.rs\<close>).  Sets are
  lists without duplicates, \<open>str::to_lowercase\<close> (the Unicode case table) is the argument \<open>lc\<close>, the
  clock an argument \<open>now\<close>.
\<close>

section \<open>Requests\<close>

datatype ref_kind = MsgIdKind | TimestampKind

datatype history_ref = MsgId bytes | Timestamp bytes | LatestRef

datatype direction = Around | Between | Before | After | Latest

definition pick_ref_type :: "bytes list \<Rightarrow> ref_kind" where
  "pick_ref_type msgreftypes = (if ''msgid'' \<in> set msgreftypes then MsgIdKind else TimestampKind)"

definition clamp_limit :: "nat \<Rightarrow> nat option \<Rightarrow> nat" where
  "clamp_limit want server_max = max (min want (unwrap_or want server_max)) 1"

fun anchor_str :: "history_ref \<Rightarrow> bytes" where
  "anchor_str (MsgId i) = ''msgid='' @ i"
| "anchor_str (Timestamp ts) = ''timestamp='' @ ts"
| "anchor_str LatestRef = ''*''"

definition build_command :: "bytes \<Rightarrow> bytes \<Rightarrow> history_ref \<Rightarrow> nat \<Rightarrow> bytes" where
  "build_command subcmd target anchor limit =
     ''CHATHISTORY '' @ subcmd @ '' '' @ target @ '' '' @ anchor_str anchor @ '' '' @ show_nat limit"

fun subcommand :: "direction \<Rightarrow> bytes" where
  "subcommand Around = ''AROUND''"
| "subcommand Between = ''BETWEEN''"
| "subcommand Before = ''BEFORE''"
| "subcommand After = ''AFTER''"
| "subcommand Latest = ''LATEST''"

section \<open>State\<close>

definition MAX_GAPFILL_PAGES :: nat where "MAX_GAPFILL_PAGES = 10000"

record history_state =
  in_flight :: "(bytes \<times> direction, nat \<times> nat) hmap"
  ambiguous_reply :: bool
  cleared_display_targets :: "bytes list"
  before_exhausted :: "bytes list"
  oldest_fetched_map :: "(bytes, int \<times> bytes option) hmap"
  oldest_ingested_map :: "(bytes, int) hmap"
  gapfill_cutoff_ms :: "int option"
  gapfilled_targets :: "bytes list"
  closed_targets :: "bytes list"
  completion :: "(bytes, bool) hmap"
  gapfill_pages :: "(bytes, nat) hmap"

definition history_new :: history_state where
  "history_new = \<lparr>in_flight = [], ambiguous_reply = False, cleared_display_targets = [],
     before_exhausted = [], oldest_fetched_map = [], oldest_ingested_map = [], gapfill_cutoff_ms = None,
     gapfilled_targets = [], closed_targets = [], completion = [], gapfill_pages = []\<rparr>"

definition set_add :: "bytes \<Rightarrow> bytes list \<Rightarrow> bytes list" where
  "set_add x xs = (if x \<in> set xs then xs else xs @ [x])"

definition set_del :: "bytes \<Rightarrow> bytes list \<Rightarrow> bytes list" where
  "set_del x xs = filter (\<lambda>y. y \<noteq> x) xs"

abbreviation fold_target :: "bytes \<Rightarrow> bytes" where
  "fold_target \<equiv> to_ascii_lowercase"

section \<open>Operations\<close>

definition last_request_succeeded :: "history_state \<Rightarrow> bytes \<Rightarrow> bool option" where
  "last_request_succeeded s target = hm_get (completion s) (fold_target target)"

definition has_ambiguous_reply :: "history_state \<Rightarrow> bool" where
  "has_ambiguous_reply s = ambiguous_reply s"

definition pending_count :: "history_state \<Rightarrow> nat" where
  "pending_count s = length (in_flight s)"

definition request_started_at :: "history_state \<Rightarrow> bytes \<Rightarrow> nat option" where
  "request_started_at s target =
     (case find (\<lambda>((name, _), _). name = fold_target target) (in_flight s) of
        None \<Rightarrow> None | Some (_, (_, started)) \<Rightarrow> Some started)"

definition close_target :: "bytes \<Rightarrow> history_state \<Rightarrow> history_state" where
  "close_target target s = s\<lparr>closed_targets := set_add (fold_target target) (closed_targets s)\<rparr>"

definition was_closed :: "history_state \<Rightarrow> bytes \<Rightarrow> bool" where
  "was_closed s target \<longleftrightarrow> fold_target target \<in> set (closed_targets s)"

definition reset_pagination :: "bytes \<Rightarrow> history_state \<Rightarrow> history_state" where
  "reset_pagination target s =
     (let t = fold_target target in
      s\<lparr>before_exhausted := set_del t (before_exhausted s),
        oldest_fetched_map := hm_del t (oldest_fetched_map s),
        oldest_ingested_map := hm_del t (oldest_ingested_map s)\<rparr>)"

definition any_in_flight :: "history_state \<Rightarrow> bytes \<Rightarrow> bool" where
  "any_in_flight s target = list_ex (\<lambda>((t, _), _). t = fold_target target) (in_flight s)"

definition should_request :: "history_state \<Rightarrow> bytes \<Rightarrow> direction \<Rightarrow> bool \<Rightarrow> bool" where
  "should_request s target dir cap_enabled =
     (if \<not> cap_enabled then False
      else let t = fold_target target in
        if list_ex (\<lambda>((n, _), _). n = t) (in_flight s) then False
        else if dir = Before \<and> t \<in> set (before_exhausted s) then False
        else True)"

definition mark_in_flight :: "nat \<Rightarrow> bytes \<Rightarrow> direction \<Rightarrow> nat \<Rightarrow> history_state \<Rightarrow> bool \<times> history_state" where
  "mark_in_flight now target dir limit s =
     (let t = fold_target target in
      (hm_get (in_flight s) (t, dir) = None,
       s\<lparr>cleared_display_targets := set_del t (cleared_display_targets s),
         completion := hm_del t (completion s),
         in_flight := hm_put (t, dir) (limit, now) (in_flight s)\<rparr>))"

definition in_flight_direction :: "history_state \<Rightarrow> bytes \<Rightarrow> direction option" where
  "in_flight_direction s target =
     (case find (\<lambda>((t, _), _). t = fold_target target) (in_flight s) of
        None \<Rightarrow> None | Some ((_, dir), _) \<Rightarrow> Some dir)"

definition suppress_pending_display :: "bytes \<Rightarrow> history_state \<Rightarrow> history_state" where
  "suppress_pending_display target s =
     (if in_flight_direction s target \<noteq> None
      then s\<lparr>cleared_display_targets := set_add (fold_target target) (cleared_display_targets s)\<rparr> else s)"

definition display_suppressed :: "history_state \<Rightarrow> bytes \<Rightarrow> bool" where
  "display_suppressed s target \<longleftrightarrow> fold_target target \<in> set (cleared_display_targets s)"

definition drop_stale :: "bytes \<times> direction \<Rightarrow> bytes list \<times> history_state \<Rightarrow> bytes list \<times> history_state" where
  "drop_stale key = (\<lambda>(targets, s).
     (set_add (fst key) targets,
      s\<lparr>ambiguous_reply := True, completion := hm_put (fst key) False (completion s),
        in_flight := hm_del key (in_flight s)\<rparr>))"

definition clear_stale :: "nat \<Rightarrow> nat \<Rightarrow> history_state \<Rightarrow> bytes list \<times> history_state" where
  "clear_stale now timeout s =
     (let stale = map fst (filter (\<lambda>(_, (_, sent_at)). now - sent_at \<ge> timeout) (in_flight s))
      in fold drop_stale stale ([], s))"

definition requested_limit :: "history_state \<Rightarrow> bytes \<Rightarrow> direction \<Rightarrow> nat option" where
  "requested_limit s target dir = map_option fst (hm_get (in_flight s) (fold_target target, dir))"

definition mark_before_exhausted :: "bytes \<Rightarrow> history_state \<Rightarrow> history_state" where
  "mark_before_exhausted target s =
     s\<lparr>before_exhausted := set_add (fold_target target) (before_exhausted s)\<rparr>"

definition is_before_exhausted :: "history_state \<Rightarrow> bytes \<Rightarrow> bool" where
  "is_before_exhausted s target \<longleftrightarrow> fold_target target \<in> set (before_exhausted s)"

definition oldest_fetched :: "history_state \<Rightarrow> bytes \<Rightarrow> (int \<times> bytes option) option" where
  "oldest_fetched s target = hm_get (oldest_fetched_map s) (fold_target target)"

definition note_oldest_ingested :: "bytes \<Rightarrow> int \<Rightarrow> history_state \<Rightarrow> history_state" where
  "note_oldest_ingested target oldest_ms s =
     (let t = fold_target target;
          v = (case hm_get (oldest_ingested_map s) t of
                 None \<Rightarrow> oldest_ms | Some cur \<Rightarrow> if oldest_ms < cur then oldest_ms else cur)
      in s\<lparr>oldest_ingested_map := hm_put t v (oldest_ingested_map s)\<rparr>)"

definition oldest_ingested :: "history_state \<Rightarrow> bytes \<Rightarrow> int option" where
  "oldest_ingested s target = hm_get (oldest_ingested_map s) (fold_target target)"

definition set_gapfill_cutoff :: "int \<Rightarrow> history_state \<Rightarrow> history_state" where
  "set_gapfill_cutoff now_ms s =
     s\<lparr>gapfill_cutoff_ms := Some now_ms, ambiguous_reply := False, gapfilled_targets := [], gapfill_pages := []\<rparr>"

definition note_gapfill_page :: "(bytes \<Rightarrow> bytes) \<Rightarrow> bytes \<Rightarrow> history_state \<Rightarrow> bool \<times> history_state" where
  "note_gapfill_page lc target s =
     (let n = unwrap_or 0 (hm_get (gapfill_pages s) (lc target)) + 1
      in (n \<le> MAX_GAPFILL_PAGES, s\<lparr>gapfill_pages := hm_put (lc target) n (gapfill_pages s)\<rparr>))"

definition gapfill_cutoff :: "history_state \<Rightarrow> int option" where
  "gapfill_cutoff s = gapfill_cutoff_ms s"

definition is_connect_gapfilled :: "(bytes \<Rightarrow> bytes) \<Rightarrow> history_state \<Rightarrow> bytes \<Rightarrow> bool" where
  "is_connect_gapfilled lc s target \<longleftrightarrow> lc target \<in> set (gapfilled_targets s)"

definition mark_connect_gapfilled :: "(bytes \<Rightarrow> bytes) \<Rightarrow> bytes \<Rightarrow> history_state \<Rightarrow> history_state" where
  "mark_connect_gapfilled lc target s = s\<lparr>gapfilled_targets := set_add (lc target) (gapfilled_targets s)\<rparr>"

definition clear_connect_gapfilled :: "(bytes \<Rightarrow> bytes) \<Rightarrow> bytes \<Rightarrow> history_state \<Rightarrow> history_state" where
  "clear_connect_gapfilled lc target s = s\<lparr>gapfilled_targets := set_del (lc target) (gapfilled_targets s)\<rparr>"

definition older :: "int \<times> bytes option \<Rightarrow> int \<times> bytes option \<Rightarrow> int \<times> bytes option" where
  "older new cur = (if fst new < fst cur then new else cur)"

definition advance_watermark :: "bytes \<Rightarrow> (int \<times> bytes option) option \<Rightarrow> history_state \<Rightarrow> history_state" where
  "advance_watermark t oldest s =
     (case oldest of
        None \<Rightarrow> s
      | Some new \<Rightarrow>
          s\<lparr>oldest_fetched_map := hm_put t
              (case hm_get (oldest_fetched_map s) t of None \<Rightarrow> new | Some cur \<Rightarrow> older new cur)
              (oldest_fetched_map s)\<rparr>)"

definition complete_one :: "bytes \<Rightarrow> nat \<Rightarrow> bool \<Rightarrow> direction \<times> nat \<Rightarrow> history_state \<Rightarrow> history_state" where
  "complete_one t rows clean_end dl s =
     (let s1 = s\<lparr>in_flight := hm_del (t, fst dl) (in_flight s)\<rparr>
      in if clean_end \<and> fst dl = Before \<and> rows < snd dl then mark_before_exhausted t s1 else s1)"

definition complete_target ::
  "bytes \<Rightarrow> nat \<Rightarrow> (int \<times> bytes option) option \<Rightarrow> bool \<Rightarrow> history_state \<Rightarrow> history_state" where
  "complete_target target rows oldest clean_end s =
     (let t = fold_target target;
          completed = map (\<lambda>((_, dir), (limit, _)). (dir, limit)) (filter (\<lambda>((n, _), _). n = t) (in_flight s));
          s1 = (if clean_end \<and> list_ex (\<lambda>(dir, _). dir = Before) completed then advance_watermark t oldest s else s);
          s2 = (if completed \<noteq> [] then s1\<lparr>completion := hm_put t clean_end (completion s1)\<rparr> else s1)
      in fold (complete_one t rows clean_end) completed s2)"

section \<open>What a completed batch leaves\<close>

lemma hm_del_filter: "hm_del k m = filter (\<lambda>e. fst e \<noteq> k) m"
  by (induction m) (auto simp: hm_del_def)

lemma fold_complete_in_flight:
  "in_flight (fold (complete_one t rows ce) ds s) = filter (\<lambda>e. \<forall>d\<in>set ds. fst e \<noteq> (t, fst d)) (in_flight s)"
proof (induction ds arbitrary: s)
  case (Cons d ds)
  have "in_flight (complete_one t rows ce d s) = filter (\<lambda>e. fst e \<noteq> (t, fst d)) (in_flight s)"
    by (simp add: complete_one_def mark_before_exhausted_def hm_del_filter Let_def)
  with Cons show ?case by (simp add: conj_commute)
qed simp

lemma fold_complete_rest:
  "oldest_fetched_map (fold (complete_one t rows ce) ds s) = oldest_fetched_map s \<and>
   completion (fold (complete_one t rows ce) ds s) = completion s"
proof (induction ds arbitrary: s)
  case (Cons d ds)
  have "oldest_fetched_map (complete_one t rows ce d s) = oldest_fetched_map s \<and>
      completion (complete_one t rows ce d s) = completion s"
    by (simp add: complete_one_def mark_before_exhausted_def Let_def)
  with Cons show ?case by simp
qed simp

lemma fold_target_idem [simp]: "fold_target (fold_target t) = fold_target t"
  by (simp add: to_ascii_lowercase_def)

lemma fold_complete_exhausted:
  "set (before_exhausted (fold (complete_one (fold_target t) rows ce) ds s)) =
     set (before_exhausted s) \<union> (if ce \<and> (\<exists>l. (Before, l) \<in> set ds \<and> rows < l) then {fold_target t} else {})"
proof (induction ds arbitrary: s)
  case (Cons d ds)
  have "set (before_exhausted (complete_one (fold_target t) rows ce d s)) =
      set (before_exhausted s) \<union> (if ce \<and> fst d = Before \<and> rows < snd d then {fold_target t} else {})"
    by (auto simp: complete_one_def mark_before_exhausted_def set_add_def Let_def)
  with Cons show ?case by (cases d) auto
qed simp

definition completed_of :: "history_state \<Rightarrow> bytes \<Rightarrow> (direction \<times> nat) list" where
  "completed_of s t = map (\<lambda>((_, dir), (limit, _)). (dir, limit)) (filter (\<lambda>((n, _), _). n = t) (in_flight s))"

lemma completed_of_iff:
  "hm_ok (in_flight s) \<Longrightarrow> (d, l) \<in> set (completed_of s t) \<longleftrightarrow> (\<exists>at. hm_get (in_flight s) (t, d) = Some (l, at))"
  unfolding completed_of_def by (auto simp: hm_get_iff) (force simp: image_iff)

lemma complete_target_eq:
  "complete_target target rows oldest ce s =
     fold (complete_one (fold_target target) rows ce) (completed_of s (fold_target target))
       (let s1 = (if ce \<and> list_ex (\<lambda>(dir, _). dir = Before) (completed_of s (fold_target target))
                  then advance_watermark (fold_target target) oldest s else s)
        in if completed_of s (fold_target target) \<noteq> []
           then s1\<lparr>completion := hm_put (fold_target target) ce (completion s1)\<rparr> else s1)"
  by (simp add: complete_target_def completed_of_def Let_def)

lemma advance_same: "in_flight (advance_watermark t oldest s) = in_flight s \<and>
    before_exhausted (advance_watermark t oldest s) = before_exhausted s"
  by (simp add: advance_watermark_def split: option.split)

lemma complete_in_flight:
  "in_flight (complete_target target rows oldest ce s) = filter (\<lambda>e. fst (fst e) \<noteq> fold_target target) (in_flight s)"
proof -
  let ?t = "fold_target target"
  have "in_flight (complete_target target rows oldest ce s) =
      filter (\<lambda>e. \<forall>d\<in>set (completed_of s ?t). fst e \<noteq> (?t, fst d)) (in_flight s)"
    by (simp add: complete_target_eq fold_complete_in_flight advance_same Let_def)
  also have "\<dots> = filter (\<lambda>e. fst (fst e) \<noteq> ?t) (in_flight s)"
  proof (rule filter_cong)
    fix e assume e: "e \<in> set (in_flight s)"
    obtain n d l at where x: "e = ((n, d), (l, at))" by (metis surj_pair)
    have "n = ?t \<Longrightarrow> (d, l) \<in> set (completed_of s ?t)" using e x by (force simp: completed_of_def)
    then show "(\<forall>d\<in>set (completed_of s ?t). fst e \<noteq> (?t, fst d)) = (fst (fst e) \<noteq> ?t)"
      using x by force
  qed simp
  finally show ?thesis .
qed

lemma complete_exhausted:
  assumes "hm_ok (in_flight s)"
  shows "is_before_exhausted (complete_target target rows oldest ce s) target \<longleftrightarrow>
     is_before_exhausted s target \<or>
     (ce \<and> (\<exists>l at. hm_get (in_flight s) (fold_target target, Before) = Some (l, at) \<and> rows < l))"
proof -
  have "set (before_exhausted (complete_target target rows oldest ce s)) =
      set (before_exhausted s) \<union>
      (if ce \<and> (\<exists>l. (Before, l) \<in> set (completed_of s (fold_target target)) \<and> rows < l) then {fold_target target} else {})"
    by (simp add: complete_target_eq fold_complete_exhausted advance_same Let_def)
  then show ?thesis by (auto simp: is_before_exhausted_def completed_of_iff [OF assms])
qed

lemma complete_watermark:
  "oldest_fetched_map (complete_target target rows oldest ce s) =
     oldest_fetched_map (if ce \<and> list_ex (\<lambda>(dir, _). dir = Before) (completed_of s (fold_target target))
        then advance_watermark (fold_target target) oldest s else s)"
  by (simp add: complete_target_eq fold_complete_rest Let_def)

section \<open>One request per target\<close>

definition serialized :: "history_state \<Rightarrow> bool" where
  "serialized s \<longleftrightarrow> distinct (map (fst \<circ> fst) (in_flight s))"

lemma any_in_flight_iff: "any_in_flight s target \<longleftrightarrow> fold_target target \<in> set (map (fst \<circ> fst) (in_flight s))"
  by (simp add: any_in_flight_def list_ex_iff case_prod_unfold image_iff o_def) metis

lemma should_request_iff:
  "should_request s target dir cap \<longleftrightarrow>
     cap \<and> \<not> any_in_flight s target \<and> (dir = Before \<longrightarrow> \<not> is_before_exhausted s target)"
  by (simp add: should_request_def any_in_flight_def is_before_exhausted_def Let_def)

lemma serialized_hm_ok: "serialized s \<Longrightarrow> hm_ok (in_flight s)"
  unfolding serialized_def hm_ok_def by (metis distinct_map list.map_comp)

lemma serialized_filter:
  "serialized s \<Longrightarrow> in_flight s' = filter P (in_flight s) \<Longrightarrow> serialized s'"
  by (simp add: serialized_def distinct_map_filter)

lemma mark_serialized:
  assumes "serialized s" "should_request s target dir True" "mark_in_flight now target dir limit s = (new, s')"
  shows "serialized s' \<and> new"
proof -
  have fresh: "fold_target target \<notin> set (map (fst \<circ> fst) (in_flight s))"
    using assms(2) by (simp add: should_request_iff any_in_flight_iff)
  then have none: "hm_get (in_flight s) (fold_target target, dir) = None"
    by (auto simp: hm_get_def map_of_eq_None_iff rev_image_eqI)
  with assms(3) have "in_flight s' = in_flight s @ [((fold_target target, dir), (limit, now))]" "new"
    by (auto simp: mark_in_flight_def hm_put_fresh Let_def)
  with assms(1) fresh show ?thesis by (auto simp: serialized_def)
qed

lemma fold_drop_stale:
  "in_flight (snd (fold drop_stale ks (ts, s))) = filter (\<lambda>e. fst e \<notin> set ks) (in_flight s)"
proof (induction ks arbitrary: ts s)
  case (Cons k ks)
  then show ?case by (simp add: drop_stale_def hm_del_filter conj_commute)
qed simp

inductive history_reachable :: "history_state \<Rightarrow> bool" where
  start: "history_reachable history_new"
| request: "history_reachable s \<Longrightarrow> should_request s target dir True \<Longrightarrow>
    mark_in_flight now target dir limit s = (new, s') \<Longrightarrow> history_reachable s'"
| complete: "history_reachable s \<Longrightarrow> history_reachable (complete_target target rows oldest ce s)"
| stale: "history_reachable s \<Longrightarrow> clear_stale now timeout s = (ts, s') \<Longrightarrow> history_reachable s'"
| local: "history_reachable s \<Longrightarrow>
    s' \<in> {close_target target s, reset_pagination target s, suppress_pending_display target s,
          mark_before_exhausted target s, note_oldest_ingested target ms s, set_gapfill_cutoff ms s,
          snd (note_gapfill_page lc target s), mark_connect_gapfilled lc target s,
          clear_connect_gapfilled lc target s} \<Longrightarrow> history_reachable s'"

lemmas local_ops = close_target_def reset_pagination_def suppress_pending_display_def mark_before_exhausted_def
  note_oldest_ingested_def set_gapfill_cutoff_def note_gapfill_page_def mark_connect_gapfilled_def
  clear_connect_gapfilled_def

lemma reachable_serialized: "history_reachable s \<Longrightarrow> serialized s"
proof (induction rule: history_reachable.induct)
  case start
  then show ?case by (simp add: serialized_def history_new_def)
next
  case (request s target dir now limit new s')
  then show ?case using mark_serialized by blast
next
  case (complete s target rows oldest ce)
  from serialized_filter [OF complete.IH complete_in_flight] show ?case .
next
  case (stale s now timeout ts s')
  then have "in_flight s' = filter (\<lambda>e. fst e \<notin> set (map fst (filter (\<lambda>(_, (_, sent_at)). now - sent_at \<ge> timeout) (in_flight s)))) (in_flight s)"
    using fold_drop_stale by (metis clear_stale_def snd_conv)
  with stale show ?case using serialized_filter by blast
next
  case (local s s')
  then have "in_flight s' = in_flight s" by (auto simp: local_ops Let_def)
  with local show ?case by (simp add: serialized_def)
qed

section \<open>Properties\<close>

text \<open>C23: Requests are serialised per target: when every request is sent after \<open>should_request\<close> allowed
  it, then whatever batches complete, time out or are reset in between, no target ever has two
  requests in flight, so a batch that completes belongs to one request, and marking the next one
  never replaces another.\<close>

theorem history_serialized:
  assumes "history_reachable s"
  shows "((fold_target t, d1) \<in> set (map fst (in_flight s)) \<and> (fold_target t, d2) \<in> set (map fst (in_flight s)) \<longrightarrow> d1 = d2)
    \<and> (should_request s t d True \<longrightarrow> fst (mark_in_flight now t d limit s))"
proof -
  have ser: "serialized s" using assms by (rule reachable_serialized)
  have "d1 = d2" if m: "(fold_target t, d1) \<in> set (map fst (in_flight s))" "(fold_target t, d2) \<in> set (map fst (in_flight s))"
  proof -
    from m obtain x y where "((fold_target t, d1), x) \<in> set (in_flight s)" "((fold_target t, d2), y) \<in> set (in_flight s)"
      by auto
    with ser show ?thesis unfolding serialized_def distinct_map inj_on_def by fastforce
  qed
  moreover have "fst (mark_in_flight now t d limit s)" if "should_request s t d True"
    using mark_serialized [OF ser that] by (metis prod.collapse)
  ultimately show ?thesis by blast
qed

theorem history_serialized_witness:
  "\<exists>s. history_reachable s \<and> (fold_target ''#rust'', Before) \<in> set (map fst (in_flight s)) \<and>
     \<not> should_request s ''#rust'' After True \<and> fst (mark_in_flight 5 ''#other'' Latest 50 s) \<and>
     ((fold_target ''#rust'', After) \<in> set (map fst (in_flight s)) \<longrightarrow> Before = After)"
proof -
  let ?r = "mark_in_flight 1 ''#rust'' Before 100 history_new"
  have s: "should_request history_new ''#rust'' Before True"
    by (simp add: should_request_def history_new_def Let_def)
  have r: "history_reachable (snd ?r)" by (rule request [OF start s]) (rule prod.collapse [symmetric])
  have f: "in_flight (snd ?r) = [((fold_target ''#rust'', Before), (100, 1))]"
    by (simp add: mark_in_flight_def history_new_def hm_put_def Let_def)
  have n: "\<not> should_request (snd ?r) ''#rust'' After True" "should_request (snd ?r) ''#other'' Latest True"
    using f by (simp_all add: should_request_iff any_in_flight_def to_ascii_lowercase_def)
  have "fst (mark_in_flight 5 ''#other'' Latest 50 (snd ?r))"
    using history_serialized [OF r, where t = "''#other''" and d = Latest and now = 5 and limit = 50] n(2) by blast
  moreover have "(fold_target ''#rust'', After) \<in> set (map fst (in_flight (snd ?r))) \<longrightarrow> Before = After"
    using history_serialized [OF r, where t = "''#rust''" and ?d1.0 = Before and ?d2.0 = After] f by auto
  moreover have "(fold_target ''#rust'', Before) \<in> set (map fst (in_flight (snd ?r)))" using f by simp
  ultimately show ?thesis using r n(1) by blast
qed

text \<open>What a batch proves: completing a target releases its request, so a retry may be sent.
  Only a batch that ended cleanly and was shorter than the page asked for marks the history
  exhausted, which stops further \<open>BEFORE\<close> requests; a batch that timed out neither does that nor
  moves the watermark the next request anchors at.\<close>

theorem completion_outcome:
  fixes rows :: nat and oldest :: "(int \<times> bytes option) option" and clean :: bool
  assumes "hm_ok (in_flight s)" "hm_get (in_flight s) (fold_target target, Before) = Some (limit, at)"
  defines "s' \<equiv> complete_target target rows oldest clean s"
  shows "\<not> any_in_flight s' target"
    and "should_request s' target Before True \<longleftrightarrow> \<not> is_before_exhausted s target \<and> \<not> (clean \<and> rows < limit)"
    and "\<not> clean \<Longrightarrow> oldest_fetched_map s' = oldest_fetched_map s"
proof -
  show free: "\<not> any_in_flight s' target"
    by (auto simp: s'_def any_in_flight_def complete_in_flight list_ex_iff)
  show "should_request s' target Before True \<longleftrightarrow> \<not> is_before_exhausted s target \<and> \<not> (clean \<and> rows < limit)"
    using free assms(2) by (simp add: should_request_iff s'_def complete_exhausted [OF assms(1)])
  show "\<not> clean \<Longrightarrow> oldest_fetched_map s' = oldest_fetched_map s"
    by (simp add: s'_def complete_watermark)
qed

theorem completion_outcome_witness:
  "let s = snd (mark_in_flight 1 ''#rust'' Before 100 history_new) in
   should_request (complete_target ''#rust'' 40 None False s) ''#rust'' Before True \<and>
   \<not> should_request (complete_target ''#rust'' 40 (Some (7, None)) True s) ''#rust'' Before True \<and>
   should_request (complete_target ''#rust'' 100 (Some (7, None)) True s) ''#rust'' Before True"
proof -
  let ?s = "snd (mark_in_flight 1 ''#rust'' Before 100 history_new)"
  have f: "in_flight ?s = [((fold_target ''#rust'', Before), (100, 1))]"
    by (simp add: mark_in_flight_def history_new_def hm_put_def Let_def)
  then have "hm_ok (in_flight ?s)" "hm_get (in_flight ?s) (fold_target ''#rust'', Before) = Some (100, 1)"
    by (simp_all add: hm_ok_def hm_get_def)
  note c = completion_outcome(2) [OF this]
  have "\<not> is_before_exhausted ?s ''#rust''"
    by (simp add: is_before_exhausted_def mark_in_flight_def history_new_def Let_def)
  then show ?thesis unfolding Let_def by (simp only: c) simp
qed

end
