(* ===== verification/Irc_Typing.thy ===== *)
theory Irc_Typing
  imports Irc_Formatting Rust_Map Rust_Time "HOL-Library.List_Lexorder" "HOL-Library.Char_ord" "HOL-Library.Product_Lexorder"
begin

text \<open>
  The \<open>typing\<close> client tag (\<open>src/src/irc/typing.rs\<close>) and the tracker of who is typing
  (\<open>src/src/state/typing.rs\<close>).  \<open>str::to_lowercase\<close> (the Unicode case table) is the argument \<open>lc\<close>.
\<close>

section \<open>The protocol layer\<close>

definition TYPING_TAG :: bytes where "TYPING_TAG = ''+typing''"
definition TAG_LEGACY :: bytes where "TAG_LEGACY = ''+draft/typing''"
definition THROTTLE :: nat where "THROTTLE = secs 3"
definition ACTIVE_TTL :: nat where "ACTIVE_TTL = secs 6"
definition PAUSED_TTL :: nat where "PAUSED_TTL = secs 30"

datatype typing_state = Active | Paused | Done

fun typing_as_str :: "typing_state \<Rightarrow> bytes" where
  "typing_as_str Active = ''active''"
| "typing_as_str Paused = ''paused''"
| "typing_as_str Done = ''done''"

definition typing_parse :: "bytes \<Rightarrow> typing_state option" where
  "typing_parse v =
     (if v = ''active'' then Some Active
      else if v = ''paused'' then Some Paused
      else if v = ''done'' then Some Done
      else None)"

fun typing_ttl :: "typing_state \<Rightarrow> nat option" where
  "typing_ttl Active = Some ACTIVE_TTL"
| "typing_ttl Paused = Some PAUSED_TTL"
| "typing_ttl Done = None"

definition parse_typing :: "(bytes, bytes) hmap \<Rightarrow> typing_state option" where
  "parse_typing tags =
     (case (case hm_get tags TYPING_TAG of Some v \<Rightarrow> Some v | None \<Rightarrow> hm_get tags TAG_LEGACY) of
        None \<Rightarrow> None | Some v \<Rightarrow> typing_parse v)"

text \<open>The \<open>irc\<close> crate's message with the one tag and the raw command this file builds.\<close>

record tagmsg =
  tm_tags :: "(bytes \<times> bytes option) list"
  tm_command :: bytes
  tm_params :: "bytes list"

definition build_tagmsg :: "bytes \<Rightarrow> typing_state \<Rightarrow> tagmsg" where
  "build_tagmsg target st =
     \<lparr>tm_tags = [(TYPING_TAG, Some (typing_as_str st))], tm_command = ''TAGMSG'', tm_params = [target]\<rparr>"

definition MESSAGE_COMMANDS :: "bytes list" where "MESSAGE_COMMANDS = [''/me '', ''/action '']"

text \<open>\<open>str::get(..n)\<close>: the first \<open>n\<close> bytes, when \<open>n\<close> is a character boundary of the string.\<close>

definition str_get_to :: "bytes \<Rightarrow> nat \<Rightarrow> bytes option" where
  "str_get_to s n = (if n \<le> length s \<and> is_char_boundary s n then Some (take n s) else None)"

definition should_type :: "bytes \<Rightarrow> bool" where
  "should_type input =
     (if input = [] then False
      else \<not> starts_with ''/'' input
        \<or> list_ex (\<lambda>cmd. case str_get_to input (length cmd) of
              Some p \<Rightarrow> eq_ignore_ascii_case p cmd | None \<Rightarrow> False) MESSAGE_COMMANDS)"

definition strip_statusmsg :: "bytes \<Rightarrow> bytes \<Rightarrow> bytes" where
  "strip_statusmsg target statusmsg_chars =
     (if statusmsg_chars = [] then target
      else case chars_of target of
        [] \<Rightarrow> target
      | c # _ \<Rightarrow>
          if \<not> contains_str c statusmsg_chars then target
          else
            let rest = drop (length c) target in
            if is_channel rest then rest
            else if c \<in> {''#'', ''&'', ''+'', ''!''} then target
            else rest)"

section \<open>The tracker\<close>

record typing_entry =
  te_state :: typing_state
  te_since :: nat
  te_nick :: bytes

type_synonym typers = "(bytes, typing_entry) hmap"
type_synonym typing_tracker = "(bytes, typers) hmap"

definition typing_clear :: "(bytes \<Rightarrow> bytes) \<Rightarrow> bytes \<Rightarrow> bytes \<Rightarrow> typing_tracker \<Rightarrow> bool \<times> typing_tracker" where
  "typing_clear lc buffer_id nick es =
     (case hm_get es buffer_id of
        None \<Rightarrow> (False, es)
      | Some buf \<Rightarrow>
          let buf' = hm_del (lc nick) buf
          in (hm_get buf (lc nick) \<noteq> None, if buf' = [] then hm_del buffer_id es else hm_put buffer_id buf' es))"

definition typing_set ::
  "(bytes \<Rightarrow> bytes) \<Rightarrow> bytes \<Rightarrow> bytes \<Rightarrow> typing_state \<Rightarrow> nat \<Rightarrow> typing_tracker \<Rightarrow> bool \<times> typing_tracker" where
  "typing_set lc buffer_id nick st now es =
     (if st = Done then typing_clear lc buffer_id nick es
      else
        let buf = unwrap_or [] (hm_get es buffer_id)
        in ((case hm_get buf (lc nick) of None \<Rightarrow> True | Some p \<Rightarrow> te_nick p \<noteq> nick),
            hm_put buffer_id (hm_put (lc nick) \<lparr>te_state = st, te_since = now, te_nick = nick\<rparr> buf) es))"

text \<open>\<open>retain\<close> with a closure that changes the buffer's map: the buffers reported as changed, and what is kept.\<close>

definition retain_changed ::
  "(bytes \<Rightarrow> typers \<Rightarrow> bool \<times> typers) \<Rightarrow> typing_tracker \<Rightarrow> bytes list \<times> typing_tracker" where
  "retain_changed f es =
     (map fst (filter (\<lambda>(b, buf). fst (f b buf)) es),
      filter (\<lambda>(_, buf). buf \<noteq> []) (map (\<lambda>(b, buf). (b, snd (f b buf))) es))"

definition clear_nick_on_connection ::
  "(bytes \<Rightarrow> bytes) \<Rightarrow> bytes \<Rightarrow> bytes \<Rightarrow> typing_tracker \<Rightarrow> bytes list \<times> typing_tracker" where
  "clear_nick_on_connection lc conn_id nick es =
     retain_changed (\<lambda>b buf.
       if starts_with (conn_id @ ''/'') b then (hm_get buf (lc nick) \<noteq> None, hm_del (lc nick) buf) else (False, buf)) es"

definition clear_connection :: "bytes \<Rightarrow> typing_tracker \<Rightarrow> bytes list \<times> typing_tracker" where
  "clear_connection conn_id es =
     (map fst (filter (\<lambda>(b, _). starts_with (conn_id @ ''/'') b) es),
      filter (\<lambda>(b, _). \<not> starts_with (conn_id @ ''/'') b) es)"

definition typing_remove_buffer :: "bytes \<Rightarrow> typing_tracker \<Rightarrow> bool \<times> typing_tracker" where
  "typing_remove_buffer buffer_id es = (hm_get es buffer_id \<noteq> None, hm_del buffer_id es)"

definition clear_all :: "typing_tracker \<Rightarrow> bytes list \<times> typing_tracker" where
  "clear_all es = (map fst es, [])"

definition entry_live :: "nat \<Rightarrow> typing_entry \<Rightarrow> bool" where
  "entry_live now e = (case typing_ttl (te_state e) of Some ttl \<Rightarrow> now - te_since e < ttl | None \<Rightarrow> False)"

definition typing_expire :: "nat \<Rightarrow> typing_tracker \<Rightarrow> bytes list \<times> typing_tracker" where
  "typing_expire now es =
     retain_changed (\<lambda>b buf.
       let buf' = hm_retain (\<lambda>(_, e). entry_live now e) buf in (length buf' \<noteq> length buf, buf')) es"

definition typing_nicks :: "typing_tracker \<Rightarrow> bytes \<Rightarrow> bytes list" where
  "typing_nicks es buffer_id =
     (case hm_get es buffer_id of
        None \<Rightarrow> []
      | Some buf \<Rightarrow> map snd (sort (map (\<lambda>(key, e). (key, te_nick e)) buf)))"

definition typing_snapshot :: "typing_tracker \<Rightarrow> (bytes, bytes list) hmap" where
  "typing_snapshot es = map (\<lambda>(b, _). (b, typing_nicks es b)) es"

section \<open>No empty buffer is kept\<close>

definition tracker_ok :: "typing_tracker \<Rightarrow> bool" where
  "tracker_ok es \<longleftrightarrow> hm_ok es \<and> (\<forall>(b, buf)\<in>set es. buf \<noteq> [] \<and> hm_ok buf)"

lemma hm_del_sub: "set (hm_del k m) \<subseteq> set m"
  by (auto simp: hm_del_def AList.delete_eq)

lemma hm_put_sub: "set (hm_put k v m) \<subseteq> insert (k, v) (set m)"
  unfolding hm_put_def by (induction m) auto

lemma hm_put_not_Nil [simp]: "hm_put k v m \<noteq> []"
  unfolding hm_put_def by (cases m) auto

lemma tracker_ok_put:
  "tracker_ok es \<Longrightarrow> buf \<noteq> [] \<Longrightarrow> hm_ok buf \<Longrightarrow> tracker_ok (hm_put b buf es)"
  using hm_put_sub [of b buf es] by (auto simp: tracker_ok_def rmap)

lemma tracker_ok_del: "tracker_ok es \<Longrightarrow> tracker_ok (hm_del b es)"
  using hm_del_sub [of b es] by (auto simp: tracker_ok_def rmap)

lemma tracker_ok_get: "tracker_ok es \<Longrightarrow> hm_get es b = Some buf \<Longrightarrow> buf \<noteq> [] \<and> hm_ok buf"
  by (auto simp: tracker_ok_def dest!: hm_get_Some_in)

lemma tracker_ok_filter: "tracker_ok es \<Longrightarrow> tracker_ok (filter P es)"
  by (auto simp: tracker_ok_def hm_ok_def distinct_map_filter)

lemma retain_filter:
  "hm_ok es \<Longrightarrow> (\<And>b buf. (b, buf) \<in> set es \<Longrightarrow> hm_ok buf) \<Longrightarrow> tracker_ok (filter (\<lambda>(_, buf). buf \<noteq> []) es)"
  by (auto simp: tracker_ok_def hm_ok_def distinct_map_filter)

lemma retain_changed_ok:
  assumes "tracker_ok es" "\<And>b buf. hm_ok buf \<Longrightarrow> hm_ok (snd (f b buf))"
  shows "tracker_ok (snd (retain_changed f es))"
proof -
  let ?g = "\<lambda>(b, buf). (b, snd (f b buf))"
  have "map fst (map ?g es) = map fst es" by (simp add: case_prod_unfold o_def)
  then have "hm_ok (map ?g es)" using assms(1) by (simp only: tracker_ok_def hm_ok_def)
  moreover have "hm_ok buf" if "(b, buf) \<in> set (map ?g es)" for b buf
    using assms that unfolding tracker_ok_def by auto
  ultimately show ?thesis
    using retain_filter [of "map ?g es"] by (simp add: retain_changed_def)
qed

inductive typing_reachable :: "(bytes \<Rightarrow> bytes) \<Rightarrow> typing_tracker \<Rightarrow> bool" for lc where
  start: "typing_reachable lc []"
| set_step: "typing_reachable lc es \<Longrightarrow> typing_set lc b nick st now es = (r, es') \<Longrightarrow> typing_reachable lc es'"
| clear_step: "typing_reachable lc es \<Longrightarrow> typing_clear lc b nick es = (r, es') \<Longrightarrow> typing_reachable lc es'"
| many_step: "typing_reachable lc es \<Longrightarrow>
    (ch, es') \<in> {clear_nick_on_connection lc conn nick es, clear_connection conn es, clear_all es, typing_expire now es} \<Longrightarrow>
    typing_reachable lc es'"
| remove_step: "typing_reachable lc es \<Longrightarrow> typing_remove_buffer b es = (r, es') \<Longrightarrow> typing_reachable lc es'"

lemma clear_ok: "tracker_ok es \<Longrightarrow> tracker_ok (snd (typing_clear lc b nick es))"
  using tracker_ok_get [of es b]
  by (auto simp: typing_clear_def Let_def rmap intro!: tracker_ok_put tracker_ok_del split: option.split)

lemma set_ok: "tracker_ok es \<Longrightarrow> tracker_ok (snd (typing_set lc b nick st now es))"
  using tracker_ok_get [of es b]
  by (cases "hm_get es b") (auto simp: typing_set_def Let_def rmap clear_ok intro!: tracker_ok_put)

lemma reachable_ok: "typing_reachable lc es \<Longrightarrow> tracker_ok es"
proof (induction rule: typing_reachable.induct)
  case (set_step es b nick st now r es')
  then show ?case using set_ok [of es lc b nick st now] by simp
next
  case (clear_step es b nick r es')
  then show ?case using clear_ok [of es lc b nick] by simp
next
  case (many_step es ch es' conn nick now)
  have "tracker_ok (snd (clear_nick_on_connection lc conn nick es))"
    unfolding clear_nick_on_connection_def by (rule retain_changed_ok) (simp_all add: many_step.IH rmap)
  moreover have "tracker_ok (snd (typing_expire now es))"
    unfolding typing_expire_def by (rule retain_changed_ok) (simp_all add: many_step.IH rmap Let_def)
  moreover have "tracker_ok (snd (clear_connection conn es))"
    by (simp add: clear_connection_def tracker_ok_filter many_step.IH)
  moreover have "tracker_ok (snd (clear_all es))" by (simp add: clear_all_def tracker_ok_def)
  ultimately show ?case using many_step(2) by (elim insertE emptyE) (metis snd_conv)+
next
  case (remove_step es b r es')
  then show ?case by (auto simp: typing_remove_buffer_def tracker_ok_del)
qed (simp add: tracker_ok_def)

lemma snapshot_get:
  "hm_get (typing_snapshot es) b = map_option (\<lambda>_. typing_nicks es b) (hm_get es b)"
proof -
  have "hm_get (map (\<lambda>(b, _). (b, g b)) es) b = map_option (\<lambda>_. g b) (hm_get es b)" for g :: "bytes \<Rightarrow> bytes list"
    by (induction es) (auto simp: hm_get_def)
  then show ?thesis by (simp add: typing_snapshot_def)
qed

lemma nicks_length: "hm_get es b = Some buf \<Longrightarrow> length (typing_nicks es b) = length buf"
  by (simp add: typing_nicks_def)

section \<open>Properties\<close>

text \<open>C21: The snapshot a web client starts from agrees with the live view in every state the tracker
  can reach: it has exactly the buffers with somebody typing, none with an empty list, each with
  the nicks the live view shows, in the same order.\<close>

theorem typing_snapshot_agrees:
  assumes "typing_reachable lc es"
  shows "hm_get (typing_snapshot es) b = (if typing_nicks es b = [] then None else Some (typing_nicks es b))"
proof (cases "hm_get es b")
  case None
  then show ?thesis by (simp add: snapshot_get typing_nicks_def)
next
  case (Some buf)
  with tracker_ok_get [OF reachable_ok [OF assms] Some] nicks_length [OF Some]
  have "typing_nicks es b \<noteq> []" by auto
  with Some show ?thesis by (simp add: snapshot_get)
qed

theorem typing_snapshot_agrees_witness:
  "let es = snd (typing_set to_ascii_lowercase ''net/#c'' ''Bob'' Active 5
              (snd (typing_set to_ascii_lowercase ''net/#c'' ''alice'' Paused 3 []))) in
   hm_get (typing_snapshot es) ''net/#c'' = Some [''alice'', ''Bob''] \<and>
   hm_get (typing_snapshot es) ''net/#d'' = None"
proof -
  let ?a = "typing_set to_ascii_lowercase ''net/#c'' ''alice'' Paused 3 []"
  let ?b = "typing_set to_ascii_lowercase ''net/#c'' ''Bob'' Active 5 (snd ?a)"
  have r: "typing_reachable to_ascii_lowercase (snd ?b)"
    by (rule set_step [OF set_step [OF start]]) (rule prod.collapse [symmetric])+
  have "hm_get (typing_snapshot (snd ?b)) b = (if typing_nicks (snd ?b) b = [] then None else Some (typing_nicks (snd ?b) b))" for b
    by (rule typing_snapshot_agrees [OF r])
  moreover have "typing_nicks (snd ?b) ''net/#c'' = [''alice'', ''Bob'']"
    by code_simp
  moreover have "typing_nicks (snd ?b) ''net/#d'' = []"
    by code_simp
  ultimately show ?thesis by (simp add: Let_def)
qed

text \<open>After the expiry at a time every nick still shown was refreshed within the time its state
  lives, six seconds for active and thirty for paused, and no live entry was dropped; the buffers
  reported as changed are exactly those that lost somebody.\<close>

theorem typing_expire_exact:
  assumes "tracker_ok es" "typing_expire now es = (changed, es')"
  shows "(\<exists>buf'. hm_get es' b = Some buf' \<and> hm_get buf' k = Some e) \<longleftrightarrow>
         (\<exists>buf. hm_get es b = Some buf \<and> hm_get buf k = Some e) \<and> entry_live now e"
    and "b \<in> set changed \<longleftrightarrow> (\<exists>buf k e. hm_get es b = Some buf \<and> hm_get buf k = Some e \<and> \<not> entry_live now e)"
proof -
  let ?keep = "\<lambda>buf. hm_retain (\<lambda>(_, e). entry_live now e) (buf :: typers)"
  have es': "es' = filter (\<lambda>(_, buf). buf \<noteq> []) (map (\<lambda>(b, buf). (b, ?keep buf)) es)"
    and ch: "changed = map fst (filter (\<lambda>(b, buf). length (?keep buf) \<noteq> length buf) es)"
    using assms(2) by (auto simp: typing_expire_def retain_changed_def Let_def)
  have ok: "hm_ok es" using assms(1) by (simp add: tracker_ok_def)
  have bufs: "hm_ok buf" if "hm_get es b = Some buf" for b buf
    using tracker_ok_get [OF assms(1) that] by simp
  have "hm_ok es'"
    using ok unfolding es' hm_ok_def by (intro distinct_map_filter) (simp add: case_prod_unfold o_def)
  then have get': "hm_get es' b = Some buf' \<longleftrightarrow> (\<exists>buf. hm_get es b = Some buf \<and> buf' = ?keep buf \<and> buf' \<noteq> [])" for buf'
    by (auto simp: hm_get_iff ok es')
  have keep: "hm_get (?keep buf) k = Some e \<longleftrightarrow> hm_get buf k = Some e \<and> entry_live now e"
    if "hm_get es b = Some buf" for b k e buf
    using hm.get_retain_Some [OF bufs [OF that], where P = "\<lambda>(_, e). entry_live now e"] by simp
  have ne: "buf \<noteq> []" if "hm_get buf k = Some e" for buf :: typers and k e using that by auto
  show "(\<exists>buf'. hm_get es' b = Some buf' \<and> hm_get buf' k = Some e) \<longleftrightarrow>
      (\<exists>buf. hm_get es b = Some buf \<and> hm_get buf k = Some e) \<and> entry_live now e"
  proof (cases "hm_get es b")
    case None
    then show ?thesis by (simp add: get')
  next
    case (Some buf)
    have "(\<exists>buf'. hm_get es' b = Some buf' \<and> hm_get buf' k = Some e) \<longleftrightarrow> ?keep buf \<noteq> [] \<and> hm_get (?keep buf) k = Some e"
      unfolding get' Some by auto
    also have "\<dots> \<longleftrightarrow> hm_get (?keep buf) k = Some e" using ne by blast
    finally show ?thesis using keep [OF Some] Some by simp
  qed
  have "length (?keep buf) \<noteq> length buf \<longleftrightarrow> (\<exists>k e. hm_get buf k = Some e \<and> \<not> entry_live now e)"
    if "hm_get es b = Some buf" for buf
  proof -
    have "length (?keep buf) \<noteq> length buf \<longleftrightarrow> (\<exists>x\<in>set buf. \<not> (case x of (_, e) \<Rightarrow> entry_live now e))"
      unfolding hm_retain_def by (induction buf) (auto simp: le_imp_less_Suc less_imp_neq length_filter_le)
    also have "\<dots> \<longleftrightarrow> (\<exists>k e. (k, e) \<in> set buf \<and> \<not> entry_live now e)" by auto
    finally show ?thesis using hm_get_iff [OF bufs [OF that]] by simp
  qed
  moreover have "b \<in> set changed \<longleftrightarrow> (\<exists>buf. hm_get es b = Some buf \<and> length (?keep buf) \<noteq> length buf)"
    unfolding ch by (auto simp: hm_get_iff [OF ok] image_iff)
  ultimately show "b \<in> set changed \<longleftrightarrow> (\<exists>buf k e. hm_get es b = Some buf \<and> hm_get buf k = Some e \<and> \<not> entry_live now e)"
    by blast
qed

theorem typing_expire_exact_witness:
  "let es = [(''net/#c'', [(''al'', \<lparr>te_state = Active, te_since = 0, te_nick = ''al''\<rparr>),
                           (''bo'', \<lparr>te_state = Paused, te_since = 0, te_nick = ''Bo''\<rparr>)])];
       r = typing_expire (secs 10) es in
   ''net/#c'' \<in> set (fst r) \<and> (\<exists>buf. hm_get (snd r) ''net/#c'' = Some buf \<and> hm_get buf ''bo'' \<noteq> None \<and> hm_get buf ''al'' = None)"
proof -
  let ?al = "\<lparr>te_state = Active, te_since = 0, te_nick = ''al''\<rparr>" and ?bo = "\<lparr>te_state = Paused, te_since = 0, te_nick = ''Bo''\<rparr>"
  let ?es = "[(''net/#c'', [(''al'', ?al), (''bo'', ?bo)])]"
  let ?r = "typing_expire (secs 10) ?es"
  have ok: "tracker_ok ?es" by (simp add: tracker_ok_def hm_ok_def)
  have live: "entry_live (secs 10) ?bo" "\<not> entry_live (secs 10) ?al"
    by (simp_all add: entry_live_def secs_def ACTIVE_TTL_def PAUSED_TTL_def)
  have r: "?r = (fst ?r, snd ?r)" by simp
  note x = typing_expire_exact(1) [OF ok r, where b = "''net/#c''"]
  from x [of "''bo''" ?bo] live(1) obtain buf where b: "hm_get (snd ?r) ''net/#c'' = Some buf" "hm_get buf ''bo'' = Some ?bo"
    by (auto simp: hm_get_def)
  have "hm_get buf ''al'' = None"
  proof (cases "hm_get buf ''al''")
    case (Some e)
    with x [of "''al''" e] b(1) have "e = ?al" "entry_live (secs 10) e" by (auto simp: hm_get_def)
    with live(2) show ?thesis by simp
  qed
  moreover have "''net/#c'' \<in> set (fst ?r)"
    unfolding typing_expire_exact(2) [OF ok r]
    by (rule exI [of _ "[(''al'', ?al), (''bo'', ?bo)]"], rule exI [of _ "''al''"], rule exI [of _ ?al])
      (simp add: live(2) hm_get_def)
  ultimately show ?thesis using b by (auto simp: Let_def)
qed

end
