(* ===== verification/Irc_Ignore.thy ===== *)
theory Irc_Ignore
  imports Rust_Text Rust_Map
begin

text \<open>
  The ignore list (\<open>src/src/irc/ignore.rs\<close>, with the entries of \<open>src/src/config/mod.rs\<close>).  The
  \<open>regex\<close> crate is the argument \<open>rx\<close>: compiling a pattern and matching a text.  A pattern that does
  not compile panics, which is the value \<open>None\<close>.  The static cache of compiled patterns is passed
  along.  \<open>str::to_lowercase\<close> (the Unicode case table) is the argument \<open>lc\<close>.
\<close>

section \<open>Patterns and their cache\<close>

record 'r regex_crate =
  rx_new :: "bytes \<Rightarrow> 'r option"
  rx_is_match :: "'r \<Rightarrow> bytes \<Rightarrow> bool"

definition REGEX_CACHE_MAX :: nat where "REGEX_CACHE_MAX = 200"

definition regex_meta :: bytes where
  "regex_meta = ''.+^$'' @ [CHR 0x7B, CHR 0x7D] @ ''()|[]'' @ [CHR 0x5C]"

text \<open>The characters treated apart are ASCII; the others are copied byte by byte.\<close>

definition escape_byte :: "byte \<Rightarrow> bytes" where
  "escape_byte c =
     (if c = CHR ''*'' then ''.*''
      else if c = CHR ''?'' then ''.''
      else if c \<in> set regex_meta then [CHR 0x5C, c]
      else [c])"

definition wildcard_source :: "bytes \<Rightarrow> bytes" where
  "wildcard_source pattern = ''(?i)'' @ ''^'' @ concat (map escape_byte pattern) @ ''$''"

definition wildcard_to_regex :: "'r regex_crate \<Rightarrow> bytes \<Rightarrow> 'r option" where
  "wildcard_to_regex rx pattern = rx_new rx (wildcard_source pattern)"

type_synonym 'r regex_cache = "(bytes, 'r) hmap"

definition cached_wildcard_regex :: "'r regex_crate \<Rightarrow> bytes \<Rightarrow> 'r regex_cache \<Rightarrow> ('r \<times> 'r regex_cache) option" where
  "cached_wildcard_regex rx pattern cache =
     (let cache1 = (if length cache \<ge> REGEX_CACHE_MAX \<and> hm_get cache pattern = None then [] else cache) in
      case hm_get cache1 pattern of
        Some re \<Rightarrow> Some (re, cache1)
      | None \<Rightarrow> map_option (\<lambda>re. (re, hm_put pattern re cache1)) (wildcard_to_regex rx pattern))"

section \<open>Matching\<close>

definition build_mask :: "bytes \<Rightarrow> bytes option \<Rightarrow> bytes option \<Rightarrow> bytes" where
  "build_mask nick ident hostname = nick @ ''!'' @ unwrap_or ''*'' ident @ ''@'' @ unwrap_or ''*'' hostname"

datatype ignore_level =
  LMsgs | LPublic | LNotices | LActions | LJoins | LParts | LQuits | LNicks | LKicks | LCtcps | LAll

record ignore_entry =
  ie_mask :: bytes
  ie_levels :: "ignore_level list"
  ie_channels :: "bytes list option"

definition level_matches :: "ignore_entry \<Rightarrow> ignore_level \<Rightarrow> bool" where
  "level_matches e level \<longleftrightarrow> ie_levels e = [] \<or> list_ex (\<lambda>l. l = LAll \<or> l = level) (ie_levels e)"

definition channel_matches :: "(bytes \<Rightarrow> bytes) \<Rightarrow> ignore_entry \<Rightarrow> bytes option \<Rightarrow> bool" where
  "channel_matches lc e channel =
     (case ie_channels e of
        None \<Rightarrow> True
      | Some [] \<Rightarrow> True
      | Some chans \<Rightarrow>
          (case channel of None \<Rightarrow> False | Some ch \<Rightarrow> list_ex (\<lambda>ec. lc ec = lc ch) chans))"

definition mask_target :: "bytes \<Rightarrow> bytes \<Rightarrow> bytes \<Rightarrow> bytes" where
  "mask_target pattern full_mask nick = (if CHR ''!'' \<in> set pattern then full_mask else nick)"

fun ignore_loop ::
  "'r regex_crate \<Rightarrow> (bytes \<Rightarrow> bytes) \<Rightarrow> bytes \<Rightarrow> bytes \<Rightarrow> ignore_level \<Rightarrow> bytes option \<Rightarrow>
   ignore_entry list \<Rightarrow> 'r regex_cache \<Rightarrow> (bool \<times> 'r regex_cache) option" where
  "ignore_loop rx lc full_mask nick level channel [] cache = Some (False, cache)"
| "ignore_loop rx lc full_mask nick level channel (e # es) cache =
     (if \<not> level_matches e level then ignore_loop rx lc full_mask nick level channel es cache
      else case cached_wildcard_regex rx (ie_mask e) cache of
        None \<Rightarrow> None
      | Some (re, cache') \<Rightarrow>
          if \<not> rx_is_match rx re (mask_target (ie_mask e) full_mask nick)
          then ignore_loop rx lc full_mask nick level channel es cache'
          else if \<not> channel_matches lc e channel
          then ignore_loop rx lc full_mask nick level channel es cache'
          else Some (True, cache'))"

definition should_ignore ::
  "'r regex_crate \<Rightarrow> (bytes \<Rightarrow> bytes) \<Rightarrow> ignore_entry list \<Rightarrow> bytes \<Rightarrow> bytes option \<Rightarrow> bytes option \<Rightarrow>
   ignore_level \<Rightarrow> bytes option \<Rightarrow> 'r regex_cache \<Rightarrow> (bool \<times> 'r regex_cache) option" where
  "should_ignore rx lc ignores nick ident hostname level channel cache =
     (if ignores = [] then Some (False, cache)
      else ignore_loop rx lc (build_mask nick ident hostname) nick level channel ignores cache)"

fun patterns_loop ::
  "'r regex_crate \<Rightarrow> bytes \<Rightarrow> bytes \<Rightarrow> bytes list \<Rightarrow> 'r regex_cache \<Rightarrow> (bool \<times> 'r regex_cache) option" where
  "patterns_loop rx full_mask nick [] cache = Some (False, cache)"
| "patterns_loop rx full_mask nick (p # ps) cache =
     (case cached_wildcard_regex rx p cache of
        None \<Rightarrow> None
      | Some (re, cache') \<Rightarrow>
          if rx_is_match rx re (mask_target p full_mask nick) then Some (True, cache')
          else patterns_loop rx full_mask nick ps cache')"

definition matches_mask_patterns ::
  "'r regex_crate \<Rightarrow> bytes list \<Rightarrow> bytes \<Rightarrow> bytes option \<Rightarrow> bytes option \<Rightarrow> 'r regex_cache \<Rightarrow>
   (bool \<times> 'r regex_cache) option" where
  "matches_mask_patterns rx patterns nick ident hostname cache =
     (if patterns = [] then Some (False, cache)
      else patterns_loop rx (build_mask nick ident hostname) nick patterns cache)"

section \<open>The cache is transparent\<close>

definition cache_ok :: "'r regex_crate \<Rightarrow> 'r regex_cache \<Rightarrow> bool" where
  "cache_ok rx cache \<longleftrightarrow>
     (\<forall>p re. hm_get cache p = Some re \<longrightarrow> wildcard_to_regex rx p = Some re) \<and> length cache \<le> REGEX_CACHE_MAX"

lemma cached_ok:
  assumes "cache_ok rx cache"
  shows "case wildcard_to_regex rx p of
      None \<Rightarrow> cached_wildcard_regex rx p cache = None
    | Some re \<Rightarrow> \<exists>cache'. cached_wildcard_regex rx p cache = Some (re, cache') \<and> cache_ok rx cache'"
proof -
  define c1 where "c1 = (if length cache \<ge> REGEX_CACHE_MAX \<and> hm_get cache p = None then [] else cache)"
  have c1: "cache_ok rx c1" using assms by (auto simp: c1_def cache_ok_def)
  have room: "hm_get c1 p = None \<Longrightarrow> length c1 < REGEX_CACHE_MAX"
    using assms by (auto simp: c1_def cache_ok_def REGEX_CACHE_MAX_def split: if_splits)
  show ?thesis
  proof (cases "hm_get c1 p")
    case (Some re)
    with c1 have "wildcard_to_regex rx p = Some re" by (simp add: cache_ok_def)
    with Some c1 show ?thesis by (simp add: cached_wildcard_regex_def c1_def [symmetric])
  next
    case None
    show ?thesis
    proof (cases "wildcard_to_regex rx p")
      case w: None
      with None show ?thesis by (simp add: cached_wildcard_regex_def c1_def [symmetric])
    next
      case (Some re)
      have "length (hm_put p re c1) \<le> REGEX_CACHE_MAX"
        using room [OF None] by (simp add: hm_put_fresh [OF None])
      then have "cache_ok rx (hm_put p re c1)"
        using c1 Some by (auto simp: cache_ok_def rmap)
      with None Some show ?thesis by (simp add: cached_wildcard_regex_def c1_def [symmetric])
    qed
  qed
qed

definition entry_matches ::
  "'r regex_crate \<Rightarrow> (bytes \<Rightarrow> bytes) \<Rightarrow> bytes \<Rightarrow> bytes \<Rightarrow> ignore_level \<Rightarrow> bytes option \<Rightarrow> ignore_entry \<Rightarrow> bool" where
  "entry_matches rx lc full_mask nick level channel e \<longleftrightarrow>
     level_matches e level \<and> channel_matches lc e channel \<and>
     (\<exists>re. wildcard_to_regex rx (ie_mask e) = Some re \<and> rx_is_match rx re (mask_target (ie_mask e) full_mask nick))"

lemma ignore_loop_spec:
  assumes "cache_ok rx cache" "\<forall>e\<in>set es. wildcard_to_regex rx (ie_mask e) \<noteq> None"
  shows "\<exists>cache'. ignore_loop rx lc full nick level channel es cache =
      Some (list_ex (entry_matches rx lc full nick level channel) es, cache') \<and> cache_ok rx cache'"
  using assms
proof (induction es arbitrary: cache)
  case (Cons e es)
  then obtain re where re: "wildcard_to_regex rx (ie_mask e) = Some re" by auto
  with cached_ok [OF Cons.prems(1), of "ie_mask e"] obtain c' where c':
    "cached_wildcard_regex rx (ie_mask e) cache = Some (re, c')" "cache_ok rx c'" by auto
  have rest: "\<forall>e\<in>set es. wildcard_to_regex rx (ie_mask e) \<noteq> None" using Cons.prems(2) by simp
  have em: "entry_matches rx lc full nick level channel e \<longleftrightarrow>
      level_matches e level \<and> channel_matches lc e channel \<and> rx_is_match rx re (mask_target (ie_mask e) full nick)"
    by (simp add: entry_matches_def re)
  show ?case
    using Cons.IH [OF Cons.prems(1) rest] Cons.IH [OF c'(2) rest] c' em by simp
qed simp

section \<open>Property\<close>

text \<open>C20: The ignore list with its cache answers as it would without one: whatever the cache holds of
  earlier calls, an event is ignored exactly when some entry has the level (or none, or all), its
  pattern matches the nick or, with an exclamation mark in it, the full mask, and its channels
  allow the event's; the cache stays correct and within its size.\<close>

theorem should_ignore_cache_transparent:
  assumes "cache_ok rx cache" "\<forall>e\<in>set ignores. wildcard_to_regex rx (ie_mask e) \<noteq> None"
  shows "\<exists>cache'. should_ignore rx lc ignores nick ident hostname level channel cache =
      Some (list_ex (entry_matches rx lc (build_mask nick ident hostname) nick level channel) ignores, cache')
    \<and> cache_ok rx cache'"
  using ignore_loop_spec [OF assms] assms(1) by (cases "ignores = []") (simp_all add: should_ignore_def)

theorem should_ignore_cache_transparent_witness:
  "let rx = \<lparr>rx_new = Some, rx_is_match = (\<lambda>re s. wildcard_source s = re)\<rparr>;
       e = \<lparr>ie_mask = ''troll'', ie_levels = [LPublic], ie_channels = Some [''#rust'']\<rparr> in
   \<exists>cache'. should_ignore rx to_ascii_lowercase [e] ''troll'' None None LPublic (Some ''#Rust'') [] = Some (True, cache')"
proof -
  let ?rx = "\<lparr>rx_new = Some, rx_is_match = (\<lambda>re s. wildcard_source s = re)\<rparr>"
  let ?e = "\<lparr>ie_mask = ''troll'', ie_levels = [LPublic], ie_channels = Some [''#rust'']\<rparr>"
  have "\<exists>cache'. should_ignore ?rx to_ascii_lowercase [?e] ''troll'' None None LPublic (Some ''#Rust'') [] =
      Some (list_ex (entry_matches ?rx to_ascii_lowercase (build_mask ''troll'' None None) ''troll'' LPublic (Some ''#Rust'')) [?e], cache')
    \<and> cache_ok ?rx cache'"
    by (rule should_ignore_cache_transparent) (simp_all add: cache_ok_def wildcard_to_regex_def)
  moreover have "entry_matches ?rx to_ascii_lowercase (build_mask ''troll'' None None) ''troll'' LPublic (Some ''#Rust'') ?e"
  proof -
    have "to_ascii_lowercase ''#rust'' = to_ascii_lowercase ''#Rust''" by code_simp
    then show ?thesis
      by (simp add: entry_matches_def level_matches_def channel_matches_def wildcard_to_regex_def mask_target_def)
  qed
  ultimately show ?thesis by (auto simp: Let_def)
qed

end
