(* ===== verification/Irc_Monitor.thy ===== *)
theory Irc_Monitor
  imports Irc_Isupport Rust_Time "HOL-Library.List_Lexorder" "HOL-Library.Char_ord"
begin

text \<open>
  The MONITOR list (\<open>src/src/irc/monitor.rs\<close>): the targets the user wants watched, what the server
  has confirmed, and what is known of each target.  A \<open>BTreeMap\<close> is an association list that is
  iterated in the order of its keys.  Of the \<open>irc\<close> crate, \<open>Command\<close>, \<open>Prefix\<close> and \<open>Message\<close> have the
  constructors the file names; a numeric reply carries its number.
\<close>

section \<open>Messages of the irc crate\<close>

datatype command =
    RESPONSE nat "bytes list"
  | RAW bytes "bytes list"
  | MONITOR bytes "bytes option"
  | ACCOUNT bytes
  | AWAY "bytes option"
  | CHGHOST bytes bytes
  | OTHER_COMMAND

datatype message_prefix = Nickname bytes bytes bytes | ServerName bytes

record received_message =
  msg_prefix :: "message_prefix option"
  msg_command :: command

section \<open>Ordered maps\<close>

type_synonym names = "(bytes, bytes) hmap"

definition bt_iter :: "(bytes, 'v) hmap \<Rightarrow> (bytes \<times> 'v) list" where
  "bt_iter m = sort_key fst m"

definition bt_collect :: "(bytes \<times> 'v) list \<Rightarrow> (bytes, 'v) hmap" where
  "bt_collect kvs = fold (\<lambda>(k, v). hm_put k v) kvs []"

definition bt_has :: "(bytes, 'v) hmap \<Rightarrow> bytes \<Rightarrow> bool" where
  "bt_has m k \<longleftrightarrow> hm_get m k \<noteq> None"

section \<open>State\<close>

definition MAX_TARGETS :: nat where "MAX_TARGETS = 1000"

record peer =
  pr_nick :: bytes
  pr_online :: "bool option"
  pr_account :: "bytes option"
  pr_away :: "bool option"
  pr_ident :: "bytes option"
  pr_host :: "bytes option"
  pr_realname :: "bytes option"

definition blank_peer :: "bytes \<Rightarrow> peer" where
  "blank_peer nick = \<lparr>pr_nick = nick, pr_online = None, pr_account = None, pr_away = None,
     pr_ident = None, pr_host = None, pr_realname = None\<rparr>"

record snapshot =
  sn_names :: names
  sn_started :: nat
  sn_valid :: bool
  sn_expired :: bool

datatype change = Add "bytes list" | Remove "bytes list" | Clear

datatype support = Available | Unavailable

record monitor =
  mn_scope :: bytes
  mn_peers :: "(bytes, peer) hmap"
  mn_wanted :: "names option"
  mn_confirmed :: "names option"
  mn_pending :: "change list"
  mn_submitted :: "change option"
  mn_snapshot :: "snapshot option"
  mn_mapping :: bytes
  mn_retry :: "nat option"
  mn_blocked :: bool
  mn_support :: support
  mn_caps :: "bool \<times> bool \<times> bool \<times> bool \<times> bool"
  mn_show_list :: bool
  mn_request_status :: bool

definition monitor_new :: "bytes \<Rightarrow> bytes \<Rightarrow> monitor" where
  "monitor_new scp mapping =
     \<lparr>mn_scope = scp, mn_peers = [], mn_wanted = None, mn_confirmed = None, mn_pending = [],
      mn_submitted = None, mn_snapshot = None, mn_mapping = mapping, mn_retry = None,
      mn_blocked = False, mn_support = Unavailable, mn_caps = (False, False, False, False, False),
      mn_show_list = False, mn_request_status = False\<rparr>"

section \<open>Targets and changes\<close>

definition target_char_bad :: "bytes \<Rightarrow> bool" where
  "target_char_bad c \<longleftrightarrow> char_is_control c \<or> char_is_whitespace c \<or> c \<in> set (chars_of '',!@:*?'')"

definition target_bad :: "bytes \<Rightarrow> bool" where
  "target_bad nick \<longleftrightarrow>
     nick = [] \<or> length nick > 200 \<or> list_ex target_char_bad (chars_of nick)
     \<or> starts_with ''#'' nick \<or> starts_with ''&'' nick"

definition targets :: "bytes list \<Rightarrow> bytes + bytes list" where
  "targets input =
     (let ns = concat (map (split_on CHR '','') input) in
      if ns = [] \<or> length ns > MAX_TARGETS \<or> list_ex target_bad ns
      then Inl ''Supply valid nicknames separated by spaces or commas (at most 1000)''
      else Inr ns)"

definition insert_names :: "bytes \<Rightarrow> bytes list \<Rightarrow> names \<Rightarrow> names" where
  "insert_names mapping ns m = fold (\<lambda>n. hm_put (casefold n mapping) n) ns m"

definition remove_names :: "bytes \<Rightarrow> bytes list \<Rightarrow> names \<Rightarrow> names" where
  "remove_names mapping ns m = fold (\<lambda>n. hm_del (casefold n mapping)) ns m"

text \<open>The result and the map it leaves: a refused addition leaves the map as it was.\<close>

fun apply_change :: "change \<Rightarrow> bytes \<Rightarrow> names \<Rightarrow> (bytes + unit) \<times> names" where
  "apply_change (Add ns) mapping wanted =
     (let updated = insert_names mapping ns wanted in
      if length updated > MAX_TARGETS then (Inl ''MONITOR target limit is 1000'', wanted)
      else (Inr (), updated))"
| "apply_change (Remove ns) mapping wanted = (Inr (), remove_names mapping ns wanted)"
| "apply_change Clear mapping wanted = (Inr (), [])"

fun change_size :: "change \<Rightarrow> nat" where
  "change_size (Add ns) = length ns"
| "change_size (Remove ns) = length ns"
| "change_size Clear = 1"

definition monitor_change :: "change \<Rightarrow> monitor \<Rightarrow> (bytes + unit) \<times> monitor" where
  "monitor_change c s =
     (case mn_wanted s of
        Some wanted \<Rightarrow>
          (let (r, w) = apply_change c (mn_mapping s) wanted in (r, s\<lparr>mn_wanted := Some w\<rparr>))
      | None \<Rightarrow>
          if sum_list (map change_size (mn_pending s)) + change_size c > MAX_TARGETS
          then (Inl ''Waiting for the initial MONITOR list; queued change limit reached'', s)
          else (Inr (), s\<lparr>mn_pending := mn_pending s @ [c]\<rparr>))"

section \<open>Support, capabilities, transport, mapping\<close>

definition blank_peers :: "(bytes, peer) hmap \<Rightarrow> (bytes, peer) hmap" where
  "blank_peers ps = map (\<lambda>(k, p). (k, blank_peer (pr_nick p))) ps"

definition set_supported :: "bool \<Rightarrow> monitor \<Rightarrow> monitor" where
  "set_supported supported s =
     (let sup = (if supported then Available else Unavailable) in
      if mn_support s = sup then s
      else
        let s1 = (if supported then s\<lparr>mn_support := sup, mn_request_status := True\<rparr> else s\<lparr>mn_support := sup\<rparr>) in
        s1\<lparr>mn_snapshot := None, mn_submitted := None, mn_retry := None, mn_confirmed := None,
           mn_blocked := \<not> supported, mn_peers := blank_peers (mn_peers s1)\<rparr>)"

definition forget_caps :: "bool \<Rightarrow> bool \<times> bool \<times> bool \<times> bool \<Rightarrow> peer \<Rightarrow> peer" where
  "forget_caps lost_extended lost p =
     (let (account, away, chghost, setname) = lost;
          p1 = (if lost_extended \<or> account then p\<lparr>pr_account := None\<rparr> else p);
          p2 = (if lost_extended \<or> away then p1\<lparr>pr_away := None\<rparr> else p1);
          p3 = (if lost_extended \<or> chghost then p2\<lparr>pr_ident := None, pr_host := None\<rparr> else p2)
      in if lost_extended \<or> setname then p3\<lparr>pr_realname := None\<rparr> else p3)"

definition set_metadata_caps :: "bytes list \<Rightarrow> monitor \<Rightarrow> monitor" where
  "set_metadata_caps caps s =
     (let a0 = ''account-notify'' \<in> set caps;
          a1 = ''away-notify'' \<in> set caps;
          a2 = ''chghost'' \<in> set caps;
          a3 = ''setname'' \<in> set caps;
          a4 = (''extended-monitor'' \<in> set caps \<or> ''draft/extended-monitor'' \<in> set caps);
          (c0, c1, c2, c3, c4) = mn_caps s;
          lost = (c0 \<and> \<not> a0, c1 \<and> \<not> a1, c2 \<and> \<not> a2, c3 \<and> \<not> a3)
      in s\<lparr>mn_peers := map (\<lambda>(k, p). (k, forget_caps (c4 \<and> \<not> a4) lost p)) (mn_peers s),
           mn_caps := (a0, a1, a2, a3, a4)\<rparr>)"

definition reset_transport :: "monitor \<Rightarrow> monitor" where
  "reset_transport s =
     s\<lparr>mn_request_status := True, mn_submitted := None, mn_confirmed := None, mn_snapshot := None,
       mn_retry := None, mn_blocked := False, mn_peers := blank_peers (mn_peers s)\<rparr>"

definition refold :: "bytes \<Rightarrow> names \<Rightarrow> names" where
  "refold mapping m = bt_collect (map (\<lambda>(_, name). (casefold name mapping, name)) (bt_iter m))"

definition set_mapping :: "bytes \<Rightarrow> monitor \<Rightarrow> monitor" where
  "set_mapping mapping s =
     (if mn_mapping s = mapping then s
      else s\<lparr>mn_mapping := mapping,
             mn_wanted := map_option (refold mapping) (mn_wanted s),
             mn_confirmed := map_option (refold mapping) (mn_confirmed s),
             mn_peers := bt_collect (map (\<lambda>(_, p). (casefold (pr_nick p) mapping, p)) (bt_iter (mn_peers s))),
             mn_snapshot := map_option (\<lambda>sn. sn\<lparr>sn_names := refold mapping (sn_names sn)\<rparr>) (mn_snapshot s)\<rparr>)"

section \<open>Commands for the server\<close>

fun pack_names :: "bytes \<Rightarrow> bytes list \<Rightarrow> bytes" where
  "pack_names packed [] = packed"
| "pack_names packed (name # ns) =
     (if length packed + length name + 1 > 480 then packed
      else pack_names ((if packed \<noteq> [] then packed @ '','' else packed) @ name) ns)"

definition retry_pending :: "nat \<Rightarrow> monitor \<Rightarrow> bool" where
  "retry_pending now s = (case mn_retry s of None \<Rightarrow> False | Some t \<Rightarrow> now - t < secs 5)"

definition missing_from :: "names \<Rightarrow> names \<Rightarrow> bytes list" where
  "missing_from a b = map snd (filter (\<lambda>(key, _). \<not> bt_has b key) (bt_iter a))"

definition next_command :: "nat \<Rightarrow> monitor \<Rightarrow> command option" where
  "next_command now s =
     (if mn_blocked s \<or> mn_snapshot s \<noteq> None \<or> retry_pending now s then None
      else case mn_confirmed s of
        None \<Rightarrow> Some (MONITOR ''L'' None)
      | Some confirmed \<Rightarrow>
          (case mn_wanted s of
             None \<Rightarrow> Some (MONITOR ''L'' None)
           | Some wanted \<Rightarrow>
               (let removed = pack_names [] (missing_from confirmed wanted);
                    added = pack_names [] (missing_from wanted confirmed) in
                if removed \<noteq> [] then Some (MONITOR ''-'' (Some removed))
                else if added \<noteq> [] then Some (MONITOR ''+'' (Some added))
                else if mn_show_list s then Some (MONITOR ''L'' None)
                else if mn_request_status s then Some (MONITOR ''S'' None)
                else None)))"

definition monitor_sent :: "nat \<Rightarrow> command \<Rightarrow> bool \<Rightarrow> monitor \<Rightarrow> monitor" where
  "monitor_sent now cmd success s =
     (if \<not> success then s\<lparr>mn_retry := Some now\<rparr>
      else
        let s1 = s\<lparr>mn_retry := None\<rparr> in
        case cmd of
          MONITOR operation names \<Rightarrow>
            if operation = ''L'' then
              s1\<lparr>mn_snapshot := Some \<lparr>sn_names = [], sn_started = now, sn_valid = True, sn_expired = False\<rparr>\<rparr>
            else if operation = ''S'' then s1\<lparr>mn_request_status := False\<rparr>
            else if operation = ''+'' \<or> operation = ''-'' then
              (let ns = split_on CHR '','' (unwrap_or [] names) in
               s1\<lparr>mn_submitted := Some (if operation = ''+'' then Add ns else Remove ns), mn_confirmed := None\<rparr>)
            else s1\<lparr>mn_confirmed := None\<rparr>
        | _ \<Rightarrow> s1)"

definition monitor_expire :: "nat \<Rightarrow> monitor \<Rightarrow> bool \<times> monitor" where
  "monitor_expire now s =
     (case mn_snapshot s of
        Some sn \<Rightarrow>
          if \<not> sn_expired sn \<and> secs 30 \<le> now - sn_started sn
          then (True, s\<lparr>mn_snapshot := Some (sn\<lparr>sn_expired := True\<rparr>)\<rparr>)
          else (False, s)
      | None \<Rightarrow> (False, s))"

text \<open>One tick of a connected network (\<open>tick_monitors\<close> in \<open>src/src/app/monitor.rs\<close>): at most two
  commands; \<open>deliver\<close> says whether the connection took a command.  The commands sent and whether the list
  timed out.\<close>

fun tick_commands :: "nat \<Rightarrow> nat \<Rightarrow> (command \<Rightarrow> bool) \<Rightarrow> monitor \<Rightarrow> command list \<times> monitor" where
  "tick_commands 0 now deliver s = ([], s)"
| "tick_commands (Suc n) now deliver s =
     (case next_command now s of
        None \<Rightarrow> ([], s)
      | Some c \<Rightarrow>
          (let s1 = monitor_sent now c (deliver c) s in
           if \<not> deliver c then ([], s1)
           else let (cs, s2) = tick_commands n now deliver s1 in (c # cs, s2)))"

definition monitor_tick :: "nat \<Rightarrow> (command \<Rightarrow> bool) \<Rightarrow> monitor \<Rightarrow> (bool \<times> command list) \<times> monitor" where
  "monitor_tick now deliver s =
     (let (late, s1) = monitor_expire now s; (cs, s2) = tick_commands 2 now deliver s1 in ((late, cs), s2))"

section \<open>Replies\<close>

text \<open>\<open>receive_status\<close>: the peers and the notices, one mask after another.\<close>

definition status_one :: "bool \<Rightarrow> monitor \<Rightarrow> bytes \<Rightarrow> monitor \<times> bytes list" where
  "status_one online s msk =
     (let (nick, handle) = (case split_once CHR ''!'' msk of
            None \<Rightarrow> (msk, None) | Some (n, h) \<Rightarrow> (n, Some h));
          key = casefold nick (mn_mapping s)
      in if \<not> (case mn_wanted s of None \<Rightarrow> False | Some w \<Rightarrow> bt_has w key) then (s, [])
      else
        let p0 = unwrap_or (blank_peer nick) (hm_get (mn_peers s) key);
            out = (if pr_online p0 \<noteq> Some online
                   then [''MONITOR: '' @ nick @ '' is '' @ (if online then ''online'' else ''offline'')] else []);
            p1 = (if \<not> online then blank_peer nick else p0)\<lparr>pr_online := Some online\<rparr>;
            p2 = (case handle of
                    None \<Rightarrow> p1
                  | Some h \<Rightarrow> (case split_once CHR ''@'' h of
                        None \<Rightarrow> p1
                      | Some (ident, host) \<Rightarrow> p1\<lparr>pr_ident := Some ident, pr_host := Some host\<rparr>))
        in (s\<lparr>mn_peers := hm_put key p2 (mn_peers s)\<rparr>, out))"

fun status_loop :: "bool \<Rightarrow> monitor \<Rightarrow> bytes list \<Rightarrow> monitor \<times> bytes list" where
  "status_loop online s [] = (s, [])"
| "status_loop online s (m # ms) =
     (let (s1, o1) = status_one online s m; (s2, o2) = status_loop online s1 ms in (s2, o1 @ o2))"

definition nth_arg :: "nat \<Rightarrow> bytes list \<Rightarrow> bytes option" where
  "nth_arg i args = (if i < length args then Some (args ! i) else None)"

definition receive_status :: "bool \<Rightarrow> bytes list \<Rightarrow> monitor \<Rightarrow> monitor \<times> bytes list" where
  "receive_status online args s =
     (case nth_arg 1 args of None \<Rightarrow> (s, []) | Some ns \<Rightarrow> status_loop online s (split_on CHR '','' ns))"

text \<open>A 732 line: the names of the list, up to the limit.\<close>

fun list_loop :: "bytes \<Rightarrow> snapshot \<Rightarrow> bytes list \<Rightarrow> snapshot" where
  "list_loop mapping sn [] = sn"
| "list_loop mapping sn (name # ns) =
     (if length (sn_names sn) \<ge> MAX_TARGETS \<and> \<not> bt_has (sn_names sn) (casefold name mapping)
      then sn\<lparr>sn_valid := False\<rparr>
      else list_loop mapping (sn\<lparr>sn_names := hm_put (casefold name mapping) name (sn_names sn)\<rparr>) ns)"

definition receive_list :: "bytes list \<Rightarrow> monitor \<Rightarrow> monitor" where
  "receive_list args s =
     (case mn_snapshot s of
        None \<Rightarrow> s
      | Some sn \<Rightarrow>
          if sn_expired sn then s
          else
            let sn1 = (case nth_arg 1 args of
                  None \<Rightarrow> sn\<lparr>sn_valid := False\<rparr>
                | Some ns \<Rightarrow>
                    (case targets [ns] of
                       Inl _ \<Rightarrow> sn\<lparr>sn_valid := False\<rparr>
                     | Inr xs \<Rightarrow> list_loop (mn_mapping s) sn xs))
            in s\<lparr>mn_snapshot := Some sn1\<rparr>)"

text \<open>\<open>verify_change\<close>: what the list that follows a change says about it.\<close>

fun verify_added :: "names \<Rightarrow> bytes list \<Rightarrow> monitor \<Rightarrow> monitor \<times> bytes list" where
  "verify_added names [] s = (s, [])"
| "verify_added names (nick # ns) s =
     (let key = casefold nick (mn_mapping s);
          (s1, o1) =
            (case mn_wanted s of
               Some w \<Rightarrow>
                 if \<not> bt_has names key \<and> bt_has w key
                 then (s\<lparr>mn_wanted := Some (hm_del key w)\<rparr>,
                       [''MONITOR: '' @ nick @ '' was not accepted by the server; target removed''])
                 else (s, [])
             | None \<Rightarrow> (s, []));
          (s2, o2) = verify_added names ns s1
      in (s2, o1 @ o2))"

definition verify_change :: "names \<Rightarrow> monitor \<Rightarrow> monitor \<times> bytes list" where
  "verify_change names s =
     (let s1 = s\<lparr>mn_submitted := None\<rparr> in
      case mn_submitted s of
        Some (Add added) \<Rightarrow> verify_added names added s1
      | Some (Remove removed) \<Rightarrow>
          if list_ex (\<lambda>nick. bt_has names (casefold nick (mn_mapping s))) removed
          then (s1\<lparr>mn_blocked := True\<rparr>, [''MONITOR removal was not accepted; reconnect before retrying''])
          else (s1, [])
      | _ \<Rightarrow> (s1, []))"

section \<open>The list shown to the user\<close>

definition or_text :: "bytes \<Rightarrow> bytes option \<Rightarrow> bytes" where
  "or_text d x = unwrap_or d x"

definition monitor_row :: "names \<Rightarrow> monitor \<Rightarrow> bytes \<times> bytes \<Rightarrow> bytes" where
  "monitor_row wanted s entry =
     (let (key, nick) = entry;
          p = unwrap_or (blank_peer nick) (hm_get (mn_peers s) key);
          subscription =
            (if \<not> bt_has wanted key then ''removing''
             else if (case mn_confirmed s of None \<Rightarrow> False | Some l \<Rightarrow> bt_has l key) then ''subscribed''
             else ''pending'');
          online = (case pr_online p of Some True \<Rightarrow> ''online'' | Some False \<Rightarrow> ''offline'' | None \<Rightarrow> ''unknown'');
          away = (case pr_away p of Some True \<Rightarrow> ''away'' | Some False \<Rightarrow> ''present'' | None \<Rightarrow> ''away unknown'')
      in pr_nick p @ '': '' @ subscription @ '', '' @ online @ '', '' @ away @ ''; account ''
         @ or_text ''unknown'' (pr_account p) @ ''; '' @ or_text ''?'' (pr_ident p) @ ''@''
         @ or_text ''?'' (pr_host p) @ ''; real name '' @ or_text ''unknown'' (pr_realname p))"

definition monitor_rows :: "monitor \<Rightarrow> bytes list" where
  "monitor_rows s =
     (case mn_wanted s of
        None \<Rightarrow> [''MONITOR list has not been synchronized yet'']
      | Some wanted \<Rightarrow>
          (let names = (case mn_confirmed s of
                 None \<Rightarrow> wanted | Some c \<Rightarrow> fold (\<lambda>(k, v). hm_put k v) (bt_iter c) wanted) in
           if names = [] then [''MONITOR list is empty'']
           else map (monitor_row wanted s) (bt_iter names)))"

section \<open>The end of a list\<close>

fun apply_pending :: "bytes \<Rightarrow> change list \<Rightarrow> names \<Rightarrow> names \<times> bytes list" where
  "apply_pending mapping [] w = (w, [])"
| "apply_pending mapping (c # cs) w =
     (let (r, w1) = apply_change c mapping w; (w2, errs) = apply_pending mapping cs w1
      in (w2, (case r of Inl e \<Rightarrow> [e] | Inr _ \<Rightarrow> []) @ errs))"

definition fill_peers :: "names \<Rightarrow> (bytes, peer) hmap \<Rightarrow> (bytes, peer) hmap" where
  "fill_peers wanted ps =
     fold (\<lambda>(key, nick) ps. if bt_has ps key then ps else hm_put key (blank_peer nick) ps) (bt_iter wanted) ps"

definition adopt_wanted :: "names \<Rightarrow> monitor \<Rightarrow> monitor \<times> bytes list" where
  "adopt_wanted names s =
     (case mn_wanted s of
        Some _ \<Rightarrow> (s, [])
      | None \<Rightarrow>
          (let (w, errs) = apply_pending (mn_mapping s) (mn_pending s) names
           in (s\<lparr>mn_pending := [], mn_wanted := Some w\<rparr>, errs)))"

definition settle_list :: "names \<Rightarrow> monitor \<Rightarrow> monitor" where
  "settle_list names s =
     (let kept = hm_retain (\<lambda>(k, _). case mn_wanted s of None \<Rightarrow> False | Some w \<Rightarrow> bt_has w k) (mn_peers s)
      in s\<lparr>mn_confirmed := Some names,
           mn_peers := (case mn_wanted s of None \<Rightarrow> kept | Some w \<Rightarrow> fill_peers w kept)\<rparr>)"

definition adopt_list :: "names \<Rightarrow> monitor \<Rightarrow> monitor \<times> bytes list" where
  "adopt_list names s =
     (let (s1, o1) = adopt_wanted names s;
          (s2, o2) = verify_change names s1;
          s3 = settle_list names s2
      in if mn_show_list s3 then (s3\<lparr>mn_show_list := False\<rparr>, o1 @ o2 @ monitor_rows s3)
         else (s3, o1 @ o2))"

definition receive_end :: "monitor \<Rightarrow> monitor \<times> bytes list" where
  "receive_end s =
     (case mn_snapshot s of
        None \<Rightarrow> (s, [])
      | Some sn \<Rightarrow>
          (let s1 = s\<lparr>mn_snapshot := None\<rparr> in
           if \<not> sn_valid sn \<or> sn_expired sn
           then (s1\<lparr>mn_confirmed := None, mn_blocked := True\<rparr>,
                 [''Incomplete MONITOR list ignored; reconnect to synchronize safely''])
           else adopt_list (sn_names sn) s1))"

fun full_loop :: "monitor \<Rightarrow> bytes list \<Rightarrow> monitor \<times> bytes list" where
  "full_loop s [] = (s, [])"
| "full_loop s (nick # ns) =
     (let key = casefold nick (mn_mapping s);
          s1 = s\<lparr>mn_wanted := map_option (hm_del key) (mn_wanted s), mn_peers := hm_del key (mn_peers s)\<rparr>;
          (s2, os) = full_loop s1 ns
      in (s2, (''MONITOR: '' @ nick @ '' rejected because the list is full'') # os))"

definition receive_full :: "bytes list \<Rightarrow> monitor \<Rightarrow> monitor \<times> bytes list" where
  "receive_full args s =
     (case nth_arg 2 args of None \<Rightarrow> (s, []) | Some ns \<Rightarrow> full_loop s (split_on CHR '','' ns))"

definition reply_parts :: "command \<Rightarrow> (nat \<times> bytes list) option" where
  "reply_parts c =
     (case c of
        RESPONSE n args \<Rightarrow> Some (n, args)
      | RAW cmd args \<Rightarrow> Some (unwrap_or 0 (result_ok (parse_u16 cmd)), args)
      | _ \<Rightarrow> None)"

definition monitor_receive :: "command \<Rightarrow> monitor \<Rightarrow> (bool \<times> bytes list) \<times> monitor" where
  "monitor_receive cmd s =
     (case reply_parts cmd of
        None \<Rightarrow> ((False, []), s)
      | Some (number, args) \<Rightarrow>
          if (number = 421 \<or> number = 461)
             \<and> (case nth_arg 1 args of None \<Rightarrow> False | Some a \<Rightarrow> eq_ignore_ascii_case a ''MONITOR'')
          then ((True, [''MONITOR is currently unavailable; targets are retained for reconnect'']),
                s\<lparr>mn_blocked := True, mn_snapshot := None, mn_confirmed := None\<rparr>)
          else if \<not> (730 \<le> number \<and> number \<le> 734) then ((False, []), s)
          else if mn_support s \<noteq> Available then ((True, []), s)
          else
            let (s1, out) =
              (if number = 730 \<or> number = 731 then receive_status (number = 730) args s
               else if number = 732 then (receive_list args s, [])
               else if number = 733 then receive_end s
               else receive_full args s)
            in ((True, out), s1))"

section \<open>Extended monitor\<close>

definition extend_peer :: "command \<Rightarrow> peer \<Rightarrow> peer" where
  "extend_peer c p =
     (case c of
        ACCOUNT account \<Rightarrow> p\<lparr>pr_account := (if account \<noteq> ''*'' then Some account else None)\<rparr>
      | AWAY reason \<Rightarrow> p\<lparr>pr_away := Some (reason \<noteq> None)\<rparr>
      | CHGHOST ident host \<Rightarrow> p\<lparr>pr_ident := Some ident, pr_host := Some host\<rparr>
      | RAW cmd args \<Rightarrow>
          if eq_ignore_ascii_case cmd ''SETNAME'' \<and> length args = 1 then p\<lparr>pr_realname := Some (args ! 0)\<rparr> else p
      | _ \<Rightarrow> p)"

definition observe_extended :: "received_message \<Rightarrow> monitor \<Rightarrow> monitor" where
  "observe_extended m s =
     (if mn_support s \<noteq> Available then s
      else case msg_prefix m of
        Some (Nickname nick user host) \<Rightarrow>
          (let key = casefold nick (mn_mapping s) in
           if \<not> (case mn_wanted s of None \<Rightarrow> False | Some w \<Rightarrow> bt_has w key) then s
           else s\<lparr>mn_peers := hm_put key (extend_peer (msg_command m)
                  (unwrap_or (blank_peer nick) (hm_get (mn_peers s) key))) (mn_peers s)\<rparr>)
      | _ \<Rightarrow> s)"

end
