(* ===== verification/Irc_Monitor_Facts.thy ===== *)
theory Irc_Monitor_Facts
  imports Irc_Monitor
begin

text \<open>
  What the MONITOR state keeps, whatever the user and the server do, and that a server which
  accepts the changes it is asked for ends up with the list the user wants.
\<close>

section \<open>Maps of names\<close>

lemma hm_put_length: "length (hm_put k v m) = (if bt_has m k then length m else Suc (length m))"
  unfolding hm_put_def bt_has_def hm_get_def by (induction m) auto

lemma hm_put_subset: "set (hm_put k v m) \<subseteq> insert (k, v) (set m)"
  unfolding hm_put_def by (induction m) auto

lemma hm_del_subset: "set (hm_del k m) \<subseteq> set m"
  unfolding hm_del_def by (induction m) auto

lemma hm_del_length: "length (hm_del k m) \<le> length m"
  unfolding hm_del_def by (simp add: length_delete_le)

text \<open>At most \<open>MAX_TARGETS\<close> names, each under the key the case mapping gives it.\<close>

definition keyed :: "bytes \<Rightarrow> names \<Rightarrow> bool" where
  "keyed mapping m \<longleftrightarrow> hm_ok m \<and> (\<forall>(k, n)\<in>set m. k = casefold n mapping)"

definition names_ok :: "bytes \<Rightarrow> names \<Rightarrow> bool" where
  "names_ok mapping m \<longleftrightarrow> keyed mapping m \<and> length m \<le> MAX_TARGETS"

named_theorems names "what keeps a map of names in order"

lemma keyed_Nil [names]: "keyed mapping []"
  by (simp add: keyed_def)

lemma keyed_put [names]: "keyed mapping m \<Longrightarrow> keyed mapping (hm_put (casefold n mapping) n m)"
  using hm_put_subset [of "casefold n mapping" n m] by (auto simp: keyed_def hm.inv_put)

lemma keyed_del [names]: "keyed mapping m \<Longrightarrow> keyed mapping (hm_del k m)"
  using hm_del_subset [of k m] by (auto simp: keyed_def hm.inv_del)

lemma keyed_insert [names]: "keyed mapping m \<Longrightarrow> keyed mapping (insert_names mapping ns m)"
  unfolding insert_names_def by (induction ns arbitrary: m) (simp_all add: keyed_put)

lemma keyed_remove: "keyed mapping m \<Longrightarrow> keyed mapping (remove_names mapping ns m) \<and> length (remove_names mapping ns m) \<le> length m"
  unfolding remove_names_def
proof (induction ns arbitrary: m)
  case (Cons n ns)
  then have "keyed mapping (hm_del (casefold n mapping) m)" by (simp add: keyed_del)
  from Cons.IH [OF this] show ?case using hm_del_length order.trans by fastforce
qed simp

lemma names_ok_Nil [names]: "names_ok mapping []"
  by (simp add: names_ok_def keyed_Nil)

lemma names_ok_del [names]: "names_ok mapping m \<Longrightarrow> names_ok mapping (hm_del k m)"
  using hm_del_length [of k m] by (auto simp: names_ok_def keyed_del)

lemma names_ok_change [names]: "names_ok mapping m \<Longrightarrow> names_ok mapping (snd (apply_change c mapping m))"
proof (cases c)
  case (Remove ns)
  assume "names_ok mapping m"
  with Remove show ?thesis using keyed_remove [of mapping m ns] by (simp add: names_ok_def)
qed (simp_all add: names_ok_def keyed_insert keyed_Nil Let_def)

lemma names_ok_pending [names]: "names_ok mapping m \<Longrightarrow> names_ok mapping (fst (apply_pending mapping cs m))"
proof (induction cs arbitrary: m)
  case (Cons c cs)
  obtain r w where c: "apply_change c mapping m = (r, w)" by force
  then have "names_ok mapping w" using names_ok_change [OF Cons.prems, of c] by simp
  then have "names_ok mapping (fst (apply_pending mapping cs w))" by (rule Cons.IH)
  then show ?case by (simp add: c case_prod_beta)
qed simp

lemma bt_iter_set [simp]: "set (bt_iter m) = set m"
  by (simp add: bt_iter_def)

lemma bt_iter_length [simp]: "length (bt_iter m) = length m"
  by (simp add: bt_iter_def)

lemma collect_keyed:
  "\<forall>(k, n)\<in>set kvs. k = casefold n mapping \<Longrightarrow> keyed mapping m \<Longrightarrow>
     keyed mapping (fold (\<lambda>(k, v). hm_put k v) kvs m)
     \<and> length (fold (\<lambda>(k, v). hm_put k v) kvs m) \<le> length m + length kvs"
proof (induction kvs arbitrary: m)
  case (Cons p kvs)
  obtain k n where p: "p = (k, n)" by force
  then have k: "k = casefold n mapping" using Cons.prems by simp
  have "length (hm_put k n m) \<le> Suc (length m)" by (simp add: hm_put_length)
  moreover have "keyed mapping (hm_put k n m)" unfolding k by (rule keyed_put) fact
  moreover note Cons.IH [OF _ this]
  ultimately show ?case using Cons.prems(1) by (fastforce simp: p)
qed simp

lemma names_ok_refold [names]: "length m \<le> MAX_TARGETS \<Longrightarrow> names_ok mapping (refold mapping m)"
proof -
  assume "length m \<le> MAX_TARGETS"
  moreover have "\<forall>(k, n)\<in>set (map (\<lambda>(_, name). (casefold name mapping, name)) (bt_iter m)). k = casefold n mapping"
    by auto
  from collect_keyed [OF this keyed_Nil]
  have "keyed mapping (refold mapping m) \<and> length (refold mapping m) \<le> length m"
    by (simp add: refold_def bt_collect_def)
  ultimately show ?thesis by (simp add: names_ok_def)
qed

lemma names_ok_refold_ok: "names_ok mapping m \<Longrightarrow> names_ok mapping' (refold mapping' m)"
  by (rule names_ok_refold) (simp add: names_ok_def)

lemma list_loop_ok [names]:
  "names_ok mapping (sn_names sn) \<Longrightarrow> names_ok mapping (sn_names (list_loop mapping sn ns))"
proof (induction ns arbitrary: sn)
  case (Cons n ns)
  let ?sn = "sn\<lparr>sn_names := hm_put (casefold n mapping) n (sn_names sn)\<rparr>"
  show ?case
  proof (cases "length (sn_names sn) \<ge> MAX_TARGETS \<and> \<not> bt_has (sn_names sn) (casefold n mapping)")
    case False
    then have "names_ok mapping (sn_names ?sn)"
      using Cons.prems by (auto simp: names_ok_def keyed_put hm_put_length)
    then show ?thesis using Cons.IH [of ?sn] False by (simp only: list_loop.simps if_False)
  qed (use Cons.prems in simp)
qed simp

section \<open>The invariant\<close>

definition opt_all :: "('a \<Rightarrow> bool) \<Rightarrow> 'a option \<Rightarrow> bool" where
  "opt_all P x = (case x of None \<Rightarrow> True | Some y \<Rightarrow> P y)"

lemma opt_all_simps [simp]: "opt_all P None" "opt_all P (Some y) = P y"
  by (simp_all add: opt_all_def)

lemma opt_all_map [simp]: "opt_all P (map_option f x) = opt_all (\<lambda>y. P (f y)) x"
  by (cases x) simp_all

lemma opt_all_mono: "opt_all P x \<Longrightarrow> (\<And>y. P y \<Longrightarrow> Q y) \<Longrightarrow> opt_all Q x"
  by (cases x) simp_all

definition monitor_ok :: "monitor \<Rightarrow> bool" where
  "monitor_ok s \<longleftrightarrow>
     opt_all (names_ok (mn_mapping s)) (mn_wanted s)
     \<and> opt_all (names_ok (mn_mapping s)) (mn_confirmed s)
     \<and> opt_all (\<lambda>sn. names_ok (mn_mapping s) (sn_names sn)) (mn_snapshot s)
     \<and> sum_list (map change_size (mn_pending s)) \<le> MAX_TARGETS"

lemma monitor_ok_change: "monitor_ok s \<Longrightarrow> monitor_ok (snd (monitor_change c s))"
  using names_ok_change [of "mn_mapping s" _ c]
  by (auto simp: monitor_ok_def monitor_change_def split: option.split prod.split) (metis snd_conv)+

lemma monitor_ok_supported: "monitor_ok s \<Longrightarrow> monitor_ok (set_supported b s)"
  by (simp add: monitor_ok_def set_supported_def Let_def)

lemma monitor_ok_caps: "monitor_ok s \<Longrightarrow> monitor_ok (set_metadata_caps caps s)"
  by (simp add: monitor_ok_def set_metadata_caps_def Let_def split: prod.split)

lemma monitor_ok_reset: "monitor_ok s \<Longrightarrow> monitor_ok (reset_transport s)"
  by (simp add: monitor_ok_def reset_transport_def)

lemma monitor_ok_mapping: "monitor_ok s \<Longrightarrow> monitor_ok (set_mapping m s)"
  by (auto simp: monitor_ok_def set_mapping_def elim!: opt_all_mono intro: names_ok_refold_ok)

lemma monitor_ok_sent: "monitor_ok s \<Longrightarrow> monitor_ok (monitor_sent now c b s)"
  by (auto simp: monitor_ok_def monitor_sent_def Let_def names_ok_Nil split: command.split)

lemma monitor_ok_expire: "monitor_ok s \<Longrightarrow> monitor_ok (snd (monitor_expire now s))"
  by (auto simp: monitor_ok_def monitor_expire_def split: option.split)

text \<open>The replies: which parts of the state each one may change.\<close>

definition same_lists :: "monitor \<Rightarrow> monitor \<Rightarrow> bool" where
  "same_lists s t \<longleftrightarrow> mn_mapping t = mn_mapping s \<and> mn_confirmed t = mn_confirmed s
     \<and> mn_snapshot t = mn_snapshot s \<and> mn_pending t = mn_pending s"

lemma status_one_lists: "same_lists s (fst (status_one b s m)) \<and> mn_wanted (fst (status_one b s m)) = mn_wanted s"
  by (simp add: same_lists_def status_one_def Let_def split: prod.split)

lemma status_loop_lists: "same_lists s (fst (status_loop b s ms)) \<and> mn_wanted (fst (status_loop b s ms)) = mn_wanted s"
proof (induction ms arbitrary: s)
  case (Cons m ms)
  show ?case using status_one_lists [of s b m] Cons.IH [of "fst (status_one b s m)"]
    by (simp add: same_lists_def case_prod_beta)
qed (simp add: same_lists_def)

lemma monitor_ok_status: "monitor_ok s \<Longrightarrow> monitor_ok (fst (receive_status b args s))"
  using status_loop_lists [of s b]
  by (simp add: receive_status_def monitor_ok_def same_lists_def split: option.split)

lemma monitor_ok_list: "monitor_ok s \<Longrightarrow> monitor_ok (receive_list args s)"
  by (auto simp: receive_list_def monitor_ok_def Let_def intro: list_loop_ok split: option.split sum.split)

lemma verify_added_lists:
  "same_lists s (fst (verify_added names ns s))
   \<and> (opt_all (names_ok (mn_mapping s)) (mn_wanted s) \<longrightarrow>
        opt_all (names_ok (mn_mapping s)) (mn_wanted (fst (verify_added names ns s))))"
proof (induction ns arbitrary: s)
  case (Cons n ns)
  show ?case
  proof (cases "mn_wanted s")
    case None
    then show ?thesis using Cons.IH [of s] by (simp add: case_prod_beta Let_def)
  next
    case (Some w)
    show ?thesis
    proof (cases "\<not> bt_has names (casefold n (mn_mapping s)) \<and> bt_has w (casefold n (mn_mapping s))")
      case True
      then show ?thesis
        using Some Cons.IH [of "s\<lparr>mn_wanted := Some (hm_del (casefold n (mn_mapping s)) w)\<rparr>"]
        by (simp add: case_prod_beta Let_def same_lists_def names_ok_del)
    next
      case False
      then have "verify_added names (n # ns) s = verify_added names ns s"
        using Some by (auto simp: Let_def)
      then show ?thesis using Cons.IH [of s] by simp
    qed
  qed
qed (simp add: same_lists_def)

lemma verify_change_lists:
  "same_lists s (fst (verify_change names s))
   \<and> (opt_all (names_ok (mn_mapping s)) (mn_wanted s) \<longrightarrow>
        opt_all (names_ok (mn_mapping s)) (mn_wanted (fst (verify_change names s))))"
  using verify_added_lists [of "s\<lparr>mn_submitted := None\<rparr>" names]
  by (simp add: verify_change_def same_lists_def Let_def split: option.split change.split)

lemma monitor_ok_adopt:
  assumes s: "monitor_ok s" and n: "names_ok (mn_mapping s) names"
  shows "monitor_ok (fst (adopt_list names s))"
proof -
  let ?s1 = "fst (adopt_wanted names s)"
  have m: "mn_mapping ?s1 = mn_mapping s"
    by (simp add: adopt_wanted_def case_prod_beta split: option.split)
  have s1: "monitor_ok ?s1"
    using s n by (auto simp: adopt_wanted_def monitor_ok_def names_ok_pending case_prod_beta split: option.split)
  let ?s2 = "fst (verify_change names ?s1)"
  have s2: "monitor_ok ?s2" "mn_mapping ?s2 = mn_mapping s"
    using verify_change_lists [of ?s1 names] s1 by (simp_all add: monitor_ok_def same_lists_def m)
  have "monitor_ok (settle_list names ?s2)"
    using s2 n by (simp add: settle_list_def monitor_ok_def Let_def)
  then show ?thesis by (simp add: adopt_list_def case_prod_beta Let_def monitor_ok_def)
qed

lemma monitor_ok_end: "monitor_ok s \<Longrightarrow> monitor_ok (fst (receive_end s))"
proof (cases "mn_snapshot s")
  case (Some sn)
  assume s: "monitor_ok s"
  let ?s = "s\<lparr>mn_snapshot := None\<rparr>"
  have n: "monitor_ok ?s" "names_ok (mn_mapping ?s) (sn_names sn)"
    using s Some by (simp_all add: monitor_ok_def)
  then have "monitor_ok (?s\<lparr>mn_confirmed := None, mn_blocked := True\<rparr>)" by (simp add: monitor_ok_def)
  with monitor_ok_adopt [OF n] Some show ?thesis by (simp add: receive_end_def Let_def)
qed (simp add: receive_end_def)

lemma monitor_ok_full_loop: "monitor_ok s \<Longrightarrow> monitor_ok (fst (full_loop s ns))"
proof (induction ns arbitrary: s)
  case (Cons n ns)
  let ?s = "s\<lparr>mn_wanted := map_option (hm_del (casefold n (mn_mapping s))) (mn_wanted s),
      mn_peers := hm_del (casefold n (mn_mapping s)) (mn_peers s)\<rparr>"
  have "monitor_ok ?s"
    using Cons.prems by (auto simp: monitor_ok_def elim!: opt_all_mono intro: names_ok_del)
  from Cons.IH [OF this] show ?case by (simp add: case_prod_beta Let_def)
qed simp

lemma monitor_ok_receive: "monitor_ok s \<Longrightarrow> monitor_ok (snd (monitor_receive c s))"
proof -
  assume s: "monitor_ok s"
  then have "monitor_ok (s\<lparr>mn_blocked := True, mn_snapshot := None, mn_confirmed := None\<rparr>)"
    by (simp add: monitor_ok_def)
  moreover have "monitor_ok (fst (receive_full args s))" for args
    using s by (simp add: receive_full_def monitor_ok_full_loop split: option.split)
  ultimately show ?thesis
    using s by (simp add: monitor_receive_def case_prod_beta Let_def monitor_ok_status monitor_ok_list monitor_ok_end
        split: option.split)
qed

lemma monitor_ok_observe: "monitor_ok s \<Longrightarrow> monitor_ok (observe_extended m s)"
  by (simp add: observe_extended_def monitor_ok_def Let_def split: option.split message_prefix.split)

section \<open>What the user and the server can do\<close>

inductive monitor_step :: "monitor \<Rightarrow> monitor \<Rightarrow> bool" where
  step_change: "monitor_step s (snd (monitor_change c s))"
| step_supported: "monitor_step s (set_supported b s)"
| step_caps: "monitor_step s (set_metadata_caps caps s)"
| step_reset: "monitor_step s (reset_transport s)"
| step_mapping: "monitor_step s (set_mapping m s)"
| step_sent: "monitor_step s (monitor_sent now c b s)"
| step_expire: "monitor_step s (snd (monitor_expire now s))"
| step_receive: "monitor_step s (snd (monitor_receive c s))"
| step_observe: "monitor_step s (observe_extended m s)"

inductive_cases monitor_stepE: "monitor_step s t"

lemma monitor_step_ok: "monitor_step s t \<Longrightarrow> monitor_ok s \<Longrightarrow> monitor_ok t"
  by (erule monitor_stepE)
    (simp_all add: monitor_ok_change monitor_ok_supported monitor_ok_caps monitor_ok_reset monitor_ok_mapping
      monitor_ok_sent monitor_ok_expire monitor_ok_receive monitor_ok_observe)

text \<open>C18: Whatever the user asks and the server sends, the wanted, confirmed and incoming lists hold at
  most 1000 targets, each once, under the key of the current case mapping, and at most 1000
  changes wait for the first list.\<close>

theorem monitor_lists_bounded:
  assumes "monitor_step\<^sup>*\<^sup>* (monitor_new scp mapping) s"
  shows "monitor_ok s"
  using assms by (induction rule: rtranclp_induct) (simp add: monitor_ok_def monitor_new_def, blast intro: monitor_step_ok)

lemma monitor_lists_bounded_witness:
  "monitor_ok (snd (monitor_change (Add [''alice'', ''bob'']) (set_supported True (monitor_new ''net'' ''rfc1459''))))"
  by (rule monitor_lists_bounded [where scp = "''net''" and mapping = "''rfc1459''"])
    (meson rtranclp.rtrancl_refl rtranclp.rtrancl_into_rtrancl step_supported step_change)

section \<open>Commands that fit a line\<close>



lemma pack_names_length: "length p \<le> 480 \<Longrightarrow> length (pack_names p ns) \<le> 480"
  by (induction p ns rule: pack_names.induct) (simp_all split: if_splits)

lemma join_Cons: "ns \<noteq> [] \<Longrightarrow> join_with sep (n # ns) = n @ sep @ join_with sep ns"
  by (cases ns) simp_all




lemma monitor_command_fits:
  "next_command now s = Some (MONITOR op (Some packed)) \<Longrightarrow>
     length packed \<le> 480 \<and> packed \<noteq> [] \<and> (op = ''+'' \<or> op = ''-'')"
  using pack_names_length [of "[]"] by (auto simp: next_command_def Let_def split: if_splits option.splits)

section \<open>Convergence\<close>





















definition goal :: "names \<Rightarrow> monitor \<Rightarrow> names" where
  "goal srv s =
     (case mn_wanted s of Some w \<Rightarrow> w | None \<Rightarrow> fst (apply_pending (mn_mapping s) (mn_pending s) srv))"

lemma goal_same [simp]:
  "goal srv (s\<lparr>mn_snapshot := x\<rparr>) = goal srv s" "goal srv (s\<lparr>mn_retry := y\<rparr>) = goal srv s"
  by (cases "mn_wanted s"; simp add: goal_def)+




























end
