(* ===== verification/Sasl_Scram.thy ===== *)
theory Sasl_Scram
  imports Rust_Text
begin

text \<open>
  The SCRAM client (\<open>src/src/irc/sasl_scram.rs\<close>).  The crates are the argument \<open>sc\<close>: per hash the
  digest, HMAC and PBKDF2, base64, and SASLprep (\<open>None\<close> for prohibited input).  The client nonce's
  random bytes are an argument.
\<close>

section \<open>Model\<close>


datatype scram_hash = Sha1 | Sha256 | Sha512

fun mechanism :: "scram_hash \<Rightarrow> bytes" where
  "mechanism Sha1 = ''SCRAM-SHA-1''"
| "mechanism Sha256 = ''SCRAM-SHA-256''"
| "mechanism Sha512 = ''SCRAM-SHA-512''"

record scram_crates =
  sc_digest :: "scram_hash \<Rightarrow> bytes \<Rightarrow> bytes"
  sc_hmac :: "scram_hash \<Rightarrow> bytes \<Rightarrow> bytes \<Rightarrow> bytes"
  sc_pbkdf2 :: "scram_hash \<Rightarrow> bytes \<Rightarrow> bytes \<Rightarrow> nat \<Rightarrow> bytes"
  sc_b64_encode :: "bytes \<Rightarrow> bytes"
  sc_b64_decode :: "bytes \<Rightarrow> bytes option"
  sc_saslprep :: "bytes \<Rightarrow> bytes option"


definition saslprep :: "scram_crates \<Rightarrow> bytes \<Rightarrow> bytes" where
  "saslprep sc v = unwrap_or v (sc_saslprep sc v)"

definition client_first :: "scram_crates \<Rightarrow> bytes \<Rightarrow> bytes \<Rightarrow> bytes \<times> bytes \<times> bytes" where
  "client_first sc nonce_bytes username =
     (let client_nonce = sc_b64_encode sc nonce_bytes;
          safe_username = replace_all '','' ''=2C'' (replace_all ''='' ''=3D'' (saslprep sc username));
          bare = ''n='' @ safe_username @ '',r='' @ client_nonce
      in (bare, ''n,,'' @ bare, client_nonce))"














function chunks :: "nat \<Rightarrow> 'a list \<Rightarrow> 'a list list" where
  "chunks n xs = (if n = 0 \<or> xs = [] then [] else take n xs # chunks n (drop n xs))"
  by pat_completeness auto
termination
  by (relation "measure (\<lambda>(n, xs). length xs)") auto

declare chunks.simps [simp del]

definition chunk_authenticate :: "bytes \<Rightarrow> bytes list" where
  "chunk_authenticate payload =
     (if payload = [] then [''+'']
      else
        let cs = chunks 400 payload in
        if cs \<noteq> [] \<and> length (last cs) = 400 then cs @ [''+''] else cs)"

section \<open>Comparison and exclusive or\<close>









section \<open>Chunks\<close>

lemma concat_chunks: "0 < n \<Longrightarrow> concat (chunks n xs) = xs"
  by (induction n xs rule: chunks.induct) (subst chunks.simps, auto)

lemma chunks_bound: "c \<in> set (chunks n xs) \<Longrightarrow> 0 < length c \<and> length c \<le> n"
proof (induction n xs rule: chunks.induct)
  case (1 n xs)
  show ?case
  proof (cases "n = 0 \<or> xs = []")
    case True
    with 1(2) show ?thesis by (subst (asm) chunks.simps) simp
  next
    case False
    with 1 show ?thesis by (subst (asm) (2) chunks.simps) auto
  qed
qed

lemma chunks_full: "c \<in> set (butlast (chunks n xs)) \<Longrightarrow> length c = n"
proof (induction n xs rule: chunks.induct)
  case (1 n xs)
  show ?case
  proof (cases "n = 0 \<or> xs = []")
    case True
    with 1(2) show ?thesis by (subst (asm) chunks.simps) simp
  next
    case False
    then have e: "chunks n xs = take n xs # chunks n (drop n xs)" by (subst chunks.simps) simp
    show ?thesis
    proof (cases "chunks n (drop n xs) = []")
      case True
      with 1(2) e show ?thesis by simp
    next
      case ne: False
      then have "n < length xs" by (subst (asm) chunks.simps) (simp split: if_splits)
      with 1(1) [OF False] 1(2) e ne show ?thesis by auto
    qed
  qed
qed

text \<open>What a server makes of the lines: it joins them up to the first one shorter than 400 bytes,
  in which a lone plus stands for nothing.\<close>

fun server_join :: "bytes list \<Rightarrow> bytes option" where
  "server_join [] = None"
| "server_join (c # cs) =
     (if length c < 400 then (if cs = [] then Some (if c = ''+'' then [] else c) else None)
      else map_option (\<lambda>r. c @ r) (server_join cs))"

lemma server_join_full: "\<forall>c\<in>set cs. length c = 400 \<Longrightarrow> server_join (cs @ ds) = map_option (\<lambda>r. concat cs @ r) (server_join ds)"
  by (induction cs) (simp_all add: option.map_comp o_def, (cases "server_join ds", simp_all)+)

section \<open>The fields of a challenge\<close>



section \<open>Properties\<close>




text \<open>Chunking for \<open>AUTHENTICATE\<close> is undone by the server: no line is longer than 400 bytes, and
  joining the lines up to the first short one, with a lone plus for an empty line, gives back the
  payload, also when it is empty or an exact multiple of 400 bytes.  (A payload that is itself a
  plus sign is no base64 text.)\<close>

theorem chunk_authenticate_joins:
  assumes "length payload mod 400 = 1 \<longrightarrow> last payload \<noteq> CHR ''+''"
  shows "server_join (chunk_authenticate payload) = Some payload \<and> (\<forall>c\<in>set (chunk_authenticate payload). length c \<le> 400)"
proof (cases "payload = []")
  case False
  let ?cs = "chunks 400 payload"
  have cat: "concat ?cs = payload" by (rule concat_chunks) simp
  then have ne: "?cs \<noteq> []" using False by auto
  have split: "?cs = butlast ?cs @ [last ?cs]" using ne by simp
  have full: "\<forall>c\<in>set (butlast ?cs). length c = 400" using chunks_full by blast
  have last_b: "0 < length (last ?cs)" "length (last ?cs) \<le> 400" using chunks_bound [OF last_in_set [OF ne]] by simp_all
  have bound: "\<forall>c\<in>set (chunk_authenticate payload). length c \<le> 400"
    using chunks_bound False by (auto simp: chunk_authenticate_def Let_def)
  have pl: "payload = concat (butlast ?cs) @ last ?cs" using cat split by (metis concat.simps concat_append append_Nil2)
  show ?thesis
  proof (cases "length (last ?cs) = 400")
    case True
    then have "\<forall>c\<in>set ?cs. length c = 400" using full split by (metis Un_iff empty_iff insert_iff list.set set_append)
    then have "server_join (?cs @ [''+'']) = Some payload" using cat by (simp add: server_join_full)
    with True False ne bound show ?thesis by (simp add: chunk_authenticate_def Let_def)
  next
    case short: False
    have "length (concat (butlast ?cs)) mod 400 = 0"
    proof -
      have "\<forall>c\<in>set xs. length c = 400 \<Longrightarrow> length (concat xs) mod 400 = 0" for xs :: "bytes list"
        by (induction xs) simp_all
      with full show ?thesis by blast
    qed
    then have m: "length payload mod 400 = length (last ?cs)"
      using short last_b(2) by (subst pl) (simp add: mod_add_left_eq [symmetric])
    have "last ?cs \<noteq> ''+''"
    proof
      assume p: "last ?cs = ''+''"
      then have "last payload = CHR ''+''" by (subst pl) simp
      with assms m p show False by simp
    qed
    then have "server_join (butlast ?cs @ [last ?cs]) = Some payload"
      using short last_b(2) full pl by (simp add: server_join_full)
    with split short False ne bound show ?thesis by (simp add: chunk_authenticate_def Let_def)
  qed
qed (simp add: chunk_authenticate_def)

theorem chunk_authenticate_joins_witness:
  "server_join (chunk_authenticate ''biws'') = Some ''biws'' \<and> chunk_authenticate ''biws'' = [''biws'']"
proof -
  have "chunk_authenticate ''biws'' = [''biws'']"
    by (simp add: chunk_authenticate_def chunks.simps)
  with chunk_authenticate_joins [of "''biws''"] show ?thesis by simp
qed

end
