(* ===== verification/Dcc_Protocol.thy ===== *)
theory Dcc_Protocol
  imports Rust_Text "HOL-Library.Word"
begin

text \<open>
  The DCC CHAT offers (\<open>src/src/dcc/protocol.rs\<close>).  The textual form of an IPv6 address is the
  standard library's: its printer and its address parser are the arguments \<open>v6_show\<close> and
  \<open>ip_parse\<close>; the numeric form of IPv4 is the code's own.  Error texts are left out.
\<close>

unbundle bit_operations_syntax

section \<open>Addresses\<close>

type_synonym octets = "8 word \<times> 8 word \<times> 8 word \<times> 8 word"

datatype ip_addr = V4 octets | V6 "128 word"

definition PASSIVE_FAKE_IP :: ip_addr where "PASSIVE_FAKE_IP = V4 (1, 1, 1, 1)"

fun octets_to_u32 :: "octets \<Rightarrow> 32 word" where
  "octets_to_u32 (o1, o2, o3, o4) =
     push_bit 24 (ucast o1) OR push_bit 16 (ucast o2) OR push_bit 8 (ucast o3) OR ucast o4"

definition u32_to_octets :: "32 word \<Rightarrow> octets" where
  "u32_to_octets n =
     (ucast (drop_bit 24 n AND 0xff), ucast (drop_bit 16 n AND 0xff), ucast (drop_bit 8 n AND 0xff), ucast (n AND 0xff))"

fun encode_ip :: "(128 word \<Rightarrow> bytes) \<Rightarrow> ip_addr \<Rightarrow> bytes" where
  "encode_ip v6_show (V4 os) = show_nat (unat (octets_to_u32 os))"
| "encode_ip v6_show (V6 a) = v6_show a"

definition u32_parse :: "bytes \<Rightarrow> int_error + nat" where
  "u32_parse = parse_unsigned (2 ^ 32 - 1)"

definition decode_ip :: "(bytes \<Rightarrow> ip_addr option) \<Rightarrow> bytes \<Rightarrow> ip_addr option" where
  "decode_ip ip_parse s =
     (if CHR '':'' \<in> set s then ip_parse s
      else case u32_parse s of Inl _ \<Rightarrow> None | Inr n \<Rightarrow> Some (V4 (u32_to_octets (word_of_nat n))))"

section \<open>Offers\<close>

record dcc_ctcp_message =
  dm_type :: bytes
  dm_addr :: ip_addr
  dm_port :: nat
  dm_token :: "nat option"

definition is_ascii_ws :: "byte \<Rightarrow> bool" where
  "is_ascii_ws c \<longleftrightarrow> bval c \<in> {9, 10, 12, 13, 32}"

text \<open>\<open>str::split_ascii_whitespace\<close>\<close>

fun ascii_fields :: "bytes \<Rightarrow> bytes \<Rightarrow> bytes list" where
  "ascii_fields cur [] = (if cur = [] then [] else [cur])"
| "ascii_fields cur (c # cs) =
     (if is_ascii_ws c then (if cur = [] then [] else [cur]) @ ascii_fields [] cs
      else ascii_fields (cur @ [c]) cs)"

definition split_ascii_whitespace :: "bytes \<Rightarrow> bytes list" where
  "split_ascii_whitespace s = ascii_fields [] s"

fun parse_fields :: "(bytes \<Rightarrow> ip_addr option) \<Rightarrow> bytes list \<Rightarrow> dcc_ctcp_message option" where
  "parse_fields ip_parse (dcc # ty # proto_arg # addr_str # port_str # rest) =
     (if \<not> eq_ignore_ascii_case dcc ''DCC'' then None
      else if \<not> eq_ignore_ascii_case ty ''CHAT'' then None
      else case decode_ip ip_parse addr_str of
        None \<Rightarrow> None
      | Some addr \<Rightarrow>
          (case parse_u16 port_str of
             Inl _ \<Rightarrow> None
           | Inr port \<Rightarrow>
               Some \<lparr>dm_type = to_ascii_uppercase ty, dm_addr = addr, dm_port = port,
                 dm_token = (case rest of [] \<Rightarrow> None | t # _ \<Rightarrow> result_ok (u32_parse t))\<rparr>))"
| "parse_fields ip_parse fs = None"

definition parse_dcc_ctcp :: "(bytes \<Rightarrow> ip_addr option) \<Rightarrow> bytes \<Rightarrow> dcc_ctcp_message option" where
  "parse_dcc_ctcp ip_parse body = parse_fields ip_parse (split_ascii_whitespace body)"

definition ctcp_delim :: byte where "ctcp_delim = CHR 0x01"

definition build_dcc_chat_ctcp :: "(128 word \<Rightarrow> bytes) \<Rightarrow> ip_addr \<Rightarrow> nat \<Rightarrow> nat option \<Rightarrow> bytes" where
  "build_dcc_chat_ctcp v6_show ip port tok =
     [ctcp_delim] @ ''DCC CHAT CHAT '' @ encode_ip v6_show ip @ '' '' @ show_nat port
     @ (case tok of None \<Rightarrow> [] | Some t \<Rightarrow> '' '' @ show_nat t) @ [ctcp_delim]"

definition build_dcc_reject :: bytes where
  "build_dcc_reject = [ctcp_delim] @ ''DCC REJECT CHAT chat'' @ [ctcp_delim]"

section \<open>Lemmas\<close>

lemma octets_roundtrip: "u32_to_octets (octets_to_u32 os) = os"
proof -
  obtain a b c d where o: "os = (a, b, c, d)" by (metis surj_pair)
  have mask8: "(0xff :: 32 word) = mask 8" by (simp add: mask_eq_decr_exp)
  have "ucast (drop_bit 24 (octets_to_u32 os) AND 0xff) = a"
    unfolding mask8 o by (rule bit_word_eqI) (auto simp: bit_simps dest: bit_imp_le_length)
  moreover have "ucast (drop_bit 16 (octets_to_u32 os) AND 0xff) = b"
    unfolding mask8 o by (rule bit_word_eqI) (auto simp: bit_simps dest: bit_imp_le_length)
  moreover have "ucast (drop_bit 8 (octets_to_u32 os) AND 0xff) = c"
    unfolding mask8 o by (rule bit_word_eqI) (auto simp: bit_simps dest: bit_imp_le_length)
  moreover have "ucast (octets_to_u32 os AND 0xff) = d"
    unfolding mask8 o by (rule bit_word_eqI) (auto simp: bit_simps dest: bit_imp_le_length)
  ultimately show ?thesis using o by (simp add: u32_to_octets_def)
qed

lemma no_colon_digits: "CHR '':'' \<notin> set (show_nat n)"
  using show_nat_digits [of "CHR '':''" n] by auto

lemma decode_encode_v4: "decode_ip ip_parse (encode_ip v6_show (V4 os)) = Some (V4 os)"
proof -
  have "unat (octets_to_u32 os) \<le> 2 ^ 32 - 1"
    using unsigned_less [of "octets_to_u32 os", where 'a = nat] by simp
  then show ?thesis
    by (simp add: decode_ip_def no_colon_digits u32_parse_def parse_unsigned_show octets_roundtrip)
qed

definition no_ascii_ws :: "bytes \<Rightarrow> bool" where
  "no_ascii_ws s \<longleftrightarrow> list_all (\<lambda>c. \<not> is_ascii_ws c) s"

lemma ascii_fields_word:
  "no_ascii_ws f \<Longrightarrow> is_ascii_ws w \<Longrightarrow>
     ascii_fields cur (f @ w # s) = (if cur @ f = [] then [] else [cur @ f]) @ ascii_fields [] s"
  by (induction f arbitrary: cur) (auto simp: no_ascii_ws_def)

lemma ascii_fields_end: "no_ascii_ws f \<Longrightarrow> ascii_fields cur f = (if cur @ f = [] then [] else [cur @ f])"
  by (induction f arbitrary: cur) (auto simp: no_ascii_ws_def)

lemma split_word:
  "no_ascii_ws f \<Longrightarrow> f \<noteq> [] \<Longrightarrow> split_ascii_whitespace (f @ CHR '' '' # s) = f # split_ascii_whitespace s"
  by (simp add: split_ascii_whitespace_def ascii_fields_word is_ascii_ws_def)

lemma split_end: "no_ascii_ws f \<Longrightarrow> f \<noteq> [] \<Longrightarrow> split_ascii_whitespace f = [f]"
  by (simp add: split_ascii_whitespace_def ascii_fields_end)

lemma digits_no_ws: "no_ascii_ws (show_nat n)"
  using show_nat_digits [of _ n] by (fastforce simp: no_ascii_ws_def list_all_iff is_ascii_ws_def)

section \<open>Property\<close>

text \<open>Round trip of DCC offers: the body of an offer we build, without its delimiters, is parsed
  back to the same address, port and token, for every IPv4 address in its 32-bit form and for
  every IPv6 address whose standard text the standard parser reads back.\<close>

theorem dcc_offer_roundtrip:
  assumes "port \<le> 65535" "\<forall>t. tok = Some t \<longrightarrow> t < 2 ^ 32"
    "\<forall>a. ip = V6 a \<longrightarrow> ip_parse (v6_show a) = Some ip \<and> CHR '':'' \<in> set (v6_show a) \<and> no_ascii_ws (v6_show a)"
  shows "parse_dcc_ctcp ip_parse (butlast (tl (build_dcc_chat_ctcp v6_show ip port tok))) =
     Some \<lparr>dm_type = ''CHAT'', dm_addr = ip, dm_port = port, dm_token = tok\<rparr>"
proof -
  have addr: "decode_ip ip_parse (encode_ip v6_show ip) = Some ip \<and>
      no_ascii_ws (encode_ip v6_show ip) \<and> encode_ip v6_show ip \<noteq> []"
  proof (cases ip)
    case (V4 os)
    have "no_ascii_ws (encode_ip v6_show (V4 os)) \<and> encode_ip v6_show (V4 os) \<noteq> []"
      by (simp add: digits_no_ws)
    with V4 decode_encode_v4 [of ip_parse v6_show os] show ?thesis by (simp del: encode_ip.simps)
  next
    case (V6 a)
    with assms(3) have v: "ip_parse (v6_show a) = Some (V6 a)" "CHR '':'' \<in> set (v6_show a)" "no_ascii_ws (v6_show a)"
      by simp_all
    then have "v6_show a \<noteq> []" by auto
    with v V6 show ?thesis by (simp add: decode_ip_def)
  qed
  then have addr: "decode_ip ip_parse (encode_ip v6_show ip) = Some ip"
    "no_ascii_ws (encode_ip v6_show ip)" "encode_ip v6_show ip \<noteq> []" by simp_all
  have w: "no_ascii_ws ''DCC''" "no_ascii_ws ''CHAT''" by (simp_all add: no_ascii_ws_def is_ascii_ws_def)
  let ?tail = "case tok of None \<Rightarrow> show_nat port | Some t \<Rightarrow> show_nat port @ CHR '' '' # show_nat t"
  have body: "butlast (tl (build_dcc_chat_ctcp v6_show ip port tok)) =
      ''DCC'' @ CHR '' '' # ''CHAT'' @ CHR '' '' # ''CHAT'' @ CHR '' '' # encode_ip v6_show ip @ CHR '' '' # ?tail"
    by (simp add: build_dcc_chat_ctcp_def butlast_append split: option.split)
  have tail: "split_ascii_whitespace ?tail = show_nat port # (case tok of None \<Rightarrow> [] | Some t \<Rightarrow> [show_nat t])"
    by (simp add: split_word split_end digits_no_ws split: option.split)
  have "split_ascii_whitespace (butlast (tl (build_dcc_chat_ctcp v6_show ip port tok))) =
      ''DCC'' # ''CHAT'' # ''CHAT'' # encode_ip v6_show ip # show_nat port # (case tok of None \<Rightarrow> [] | Some t \<Rightarrow> [show_nat t])"
    unfolding body by (simp only: split_word [OF w(1)] split_word [OF w(2)] split_word [OF addr(2,3)] tail list.distinct not_False_eq_True)
  moreover have "to_ascii_uppercase ''CHAT'' = ''CHAT''" by (simp add: to_ascii_uppercase_def)
  ultimately show ?thesis
    using addr(1) assms(1,2)
    by (auto simp: parse_dcc_ctcp_def eq_ignore_ascii_case_def parse_u16_def u32_parse_def parse_unsigned_show
        split: option.split)
qed

theorem dcc_offer_roundtrip_witness:
  "parse_dcc_ctcp (\<lambda>_. None) (butlast (tl (build_dcc_chat_ctcp (\<lambda>_. []) (V4 (192, 168, 0, 7)) 0 (Some 42)))) =
     Some \<lparr>dm_type = ''CHAT'', dm_addr = V4 (192, 168, 0, 7), dm_port = 0, dm_token = Some 42\<rparr>"
  by (rule dcc_offer_roundtrip) simp_all

end
