(* ===== verification/Dcc_Manager.thy ===== *)
theory Dcc_Manager
  imports Dcc_Protocol Irc_Isupport Irc_Ignore Rust_Time
begin

text \<open>
  The DCC connections (\<open>src/src/dcc/mod.rs\<close> and \<open>src/src/dcc/types.rs\<close>): records by id, and for a
  live chat its sender and its task, opaque handles of the runtime.  Aborting a task adds it to the
  list \<open>dcc_aborted\<close>; the runtime's \<open>try_send\<close> is an argument.  \<open>str::to_lowercase\<close> (the Unicode
  case table) is the argument \<open>lc\<close>.
\<close>

section \<open>State\<close>

datatype dcc_state = WaitingUser | Listening | Connecting | Connected

record dcc_record =
  dr_id :: bytes
  dr_nick :: bytes
  dr_conn_id :: bytes
  dr_outgoing :: bool
  dr_addr :: ip_addr
  dr_port :: nat
  dr_state :: dcc_state
  dr_passive_token :: "nat option"
  dr_created :: nat
  dr_started :: "nat option"
  dr_bytes_transferred :: nat
  dr_mirc_ctcp :: bool
  dr_ident :: bytes
  dr_host :: bytes

type_synonym handle = nat

record dcc_manager =
  dcc_records :: "(bytes, dcc_record) hmap"
  chat_senders :: "(bytes, handle) hmap"
  chat_tasks :: "(bytes, handle) hmap"
  dcc_aborted :: "handle list"
  timeout_secs :: nat
  port_range :: "nat \<times> nat"
  own_ip :: "ip_addr option"
  autoaccept_lowports :: bool
  autochat_masks :: "bytes list"
  max_connections :: nat

definition dcc_new :: dcc_manager where
  "dcc_new = \<lparr>dcc_records = [], chat_senders = [], chat_tasks = [], dcc_aborted = [], timeout_secs = 300,
     port_range = (0, 0), own_ip = None, autoaccept_lowports = False, autochat_masks = [], max_connections = 10\<rparr>"

section \<open>Ids\<close>

lemma show_nat_eq:
  assumes "show_nat m = show_nat n"
  shows "m = n"
proof -
  let ?read = "digit_loop InvalidDigit (max m n) 0"
  have "Inr m = ?read (show_nat m)" by (rule digit_loop_show [symmetric]) simp
  also have "\<dots> = ?read (show_nat n)" by (simp only: assms)
  also have "\<dots> = Inr n" by (rule digit_loop_show) simp
  finally show ?thesis by simp
qed

text \<open>The search for a free suffix; the counter is a \<open>u32\<close>, which more than four billion records would exhaust.\<close>

function free_id :: "bytes list \<Rightarrow> bytes \<Rightarrow> nat \<Rightarrow> bytes" where
  "free_id taken base n = (if base @ show_nat n \<in> set taken then free_id taken base (n + 1) else base @ show_nat n)"
  by pat_completeness auto
termination
proof (relation "measure (\<lambda>(taken, base, n). card {k \<in> set taken. \<exists>m\<ge>n. k = base @ show_nat m})")
  fix taken :: "bytes list" and base :: bytes and n
  assume t: "base @ show_nat n \<in> set taken"
  let ?S = "\<lambda>n. {k \<in> set taken. \<exists>m\<ge>n. k = base @ show_nat m}"
  have "base @ show_nat n \<notin> ?S (n + 1)"
  proof
    assume "base @ show_nat n \<in> ?S (n + 1)"
    then obtain m where m: "m \<ge> n + 1" "base @ show_nat n = base @ show_nat m" by blast
    from m(2) have "n = m" by (intro show_nat_eq) simp
    with m(1) show False by simp
  qed
  moreover have "base @ show_nat n \<in> ?S n" using t by auto
  moreover have "?S (n + 1) \<subseteq> ?S n"
  proof
    fix k assume "k \<in> ?S (n + 1)"
    then obtain m where "k \<in> set taken" "m \<ge> n + 1" "k = base @ show_nat m" by blast
    then have "k \<in> set taken \<and> (\<exists>m\<ge>n. k = base @ show_nat m)" by (intro conjI exI [of _ m]) simp_all
    then show "k \<in> ?S n" by blast
  qed
  ultimately have "?S (n + 1) \<subset> ?S n" by blast
  then have "card (?S (n + 1)) < card (?S n)" by (rule psubset_card_mono [rotated]) simp
  then show "((taken, base, n + 1), taken, base, n) \<in> measure (\<lambda>(taken, base, n). card {k \<in> set taken. \<exists>m\<ge>n. k = base @ show_nat m})"
    by simp
qed simp

declare free_id.simps [simp del]

definition generate_id :: "(bytes \<Rightarrow> bytes) \<Rightarrow> dcc_manager \<Rightarrow> bytes \<Rightarrow> bytes" where
  "generate_id lc s nick =
     (if hm_get (dcc_records s) (lc nick) = None then lc nick
      else free_id (map fst (dcc_records s)) (lc nick) 2)"

section \<open>Operations\<close>

definition find_pending :: "dcc_manager \<Rightarrow> bytes \<Rightarrow> bytes \<Rightarrow> bytes \<Rightarrow> dcc_record option" where
  "find_pending s conn_id mapping nick =
     find (\<lambda>r. dr_conn_id r = conn_id \<and> casefold (dr_nick r) mapping = casefold nick mapping
         \<and> \<not> dr_outgoing r \<and> dr_state r = WaitingUser) (map snd (dcc_records s))"

text \<open>\<open>max_by_key\<close> keeps the last of the largest.\<close>

fun max_created :: "dcc_record list \<Rightarrow> dcc_record option" where
  "max_created [] = None"
| "max_created (r # rs) =
     (case max_created rs of None \<Rightarrow> Some r | Some r' \<Rightarrow> if dr_created r' \<ge> dr_created r then Some r' else Some r)"

definition find_latest_pending :: "dcc_manager \<Rightarrow> bytes \<Rightarrow> dcc_record option" where
  "find_latest_pending s conn_id =
     max_created (filter (\<lambda>r. dr_conn_id r = conn_id \<and> \<not> dr_outgoing r \<and> dr_state r = WaitingUser)
       (map snd (dcc_records s)))"

definition find_connected :: "dcc_manager \<Rightarrow> bytes \<Rightarrow> bytes \<Rightarrow> bytes \<Rightarrow> dcc_record option" where
  "find_connected s conn_id mapping nick =
     find (\<lambda>r. dr_conn_id r = conn_id \<and> casefold (dr_nick r) mapping = casefold nick mapping \<and> dr_state r = Connected)
       (map snd (dcc_records s))"

definition close_by_id :: "bytes \<Rightarrow> dcc_manager \<Rightarrow> dcc_record option \<times> dcc_manager" where
  "close_by_id i s =
     (hm_get (dcc_records s) i,
      s\<lparr>chat_senders := hm_del i (chat_senders s),
        chat_tasks := hm_del i (chat_tasks s),
        dcc_aborted := (case hm_get (chat_tasks s) i of None \<Rightarrow> dcc_aborted s | Some t \<Rightarrow> dcc_aborted s @ [t]),
        dcc_records := hm_del i (dcc_records s)\<rparr>)"

definition expired_record :: "nat \<Rightarrow> dcc_manager \<Rightarrow> dcc_record \<Rightarrow> bool" where
  "expired_record now s r \<longleftrightarrow>
     dr_state r \<in> {WaitingUser, Listening} \<and> now - dr_created r > secs (timeout_secs s)"

fun close_all :: "bytes list \<Rightarrow> dcc_manager \<Rightarrow> (bytes \<times> bytes) list \<times> dcc_manager" where
  "close_all [] s = ([], s)"
| "close_all (i # is) s =
     (case close_by_id i s of (r, s1) \<Rightarrow>
        (case close_all is s1 of (ps, s2) \<Rightarrow>
           ((case r of None \<Rightarrow> [] | Some rec \<Rightarrow> [(i, dr_nick rec)]) @ ps, s2)))"

definition purge_expired :: "nat \<Rightarrow> dcc_manager \<Rightarrow> (bytes \<times> bytes) list \<times> dcc_manager" where
  "purge_expired now s =
     close_all (map fst (filter (\<lambda>(_, r). expired_record now s r) (dcc_records s))) s"

definition rekey :: "bytes \<Rightarrow> bytes \<Rightarrow> (bytes, 'v) hmap \<Rightarrow> (bytes, 'v) hmap" where
  "rekey old new m = (case hm_get m old of None \<Rightarrow> m | Some v \<Rightarrow> hm_put new v (hm_del old m))"

definition rename_one ::
  "(bytes \<Rightarrow> bytes) \<Rightarrow> bytes \<Rightarrow> bytes \<Rightarrow> dcc_manager \<Rightarrow> (bytes \<times> bytes \<times> bytes \<times> bytes) option \<times> dcc_manager" where
  "rename_one lc new_nick old_id s =
     (case hm_get (dcc_records s) old_id of
        None \<Rightarrow> (None, s)
      | Some rec \<Rightarrow>
          let s1 = s\<lparr>dcc_records := hm_del old_id (dcc_records s)\<rparr>;
              new_id = generate_id lc s1 new_nick
          in (Some (old_id, new_id, ''='' @ dr_nick rec, ''='' @ new_nick),
              s1\<lparr>dcc_records := hm_put new_id (rec\<lparr>dr_nick := new_nick, dr_id := new_id\<rparr>) (dcc_records s1),
                 chat_senders := rekey old_id new_id (chat_senders s1),
                 chat_tasks := rekey old_id new_id (chat_tasks s1)\<rparr>))"

fun rename_all ::
  "(bytes \<Rightarrow> bytes) \<Rightarrow> bytes \<Rightarrow> bytes list \<Rightarrow> dcc_manager \<Rightarrow> (bytes \<times> bytes \<times> bytes \<times> bytes) list \<times> dcc_manager" where
  "rename_all lc new_nick [] s = ([], s)"
| "rename_all lc new_nick (i # is) s =
     (case rename_one lc new_nick i s of (r, s1) \<Rightarrow>
        (case rename_all lc new_nick is s1 of (ps, s2) \<Rightarrow>
           ((case r of None \<Rightarrow> [] | Some p \<Rightarrow> [p]) @ ps, s2)))"

definition update_nick ::
  "(bytes \<Rightarrow> bytes) \<Rightarrow> bytes \<Rightarrow> bytes \<Rightarrow> bytes \<Rightarrow> bytes \<Rightarrow> dcc_manager \<Rightarrow>
   (bytes \<times> bytes \<times> bytes \<times> bytes) list \<times> dcc_manager" where
  "update_nick lc conn_id mapping old_nick new_nick s =
     rename_all lc new_nick
       (map fst (filter (\<lambda>(_, r). dr_conn_id r = conn_id \<and> casefold (dr_nick r) mapping = casefold old_nick mapping)
          (dcc_records s))) s"

definition close_by_nick :: "bytes \<Rightarrow> bytes \<Rightarrow> bytes \<Rightarrow> dcc_manager \<Rightarrow> dcc_record option \<times> dcc_manager" where
  "close_by_nick conn_id mapping nick s =
     (case find (\<lambda>(_, r). dr_conn_id r = conn_id \<and> casefold (dr_nick r) mapping = casefold nick mapping) (dcc_records s) of
        None \<Rightarrow> (None, s)
      | Some (i, _) \<Rightarrow> close_by_id i s)"

datatype send_error = NoSession bytes | SendFailed bytes bytes

definition send_chat_line ::
  "(handle \<Rightarrow> bytes \<Rightarrow> bytes + unit) \<Rightarrow> dcc_manager \<Rightarrow> bytes \<Rightarrow> bytes \<Rightarrow> send_error + unit" where
  "send_chat_line try_send s i txt =
     rbind (ok_or (NoSession i) (hm_get (chat_senders s) i)) (\<lambda>h. map_err (SendFailed i) (try_send h txt))"

fun any_mask :: "'r regex_crate \<Rightarrow> bytes \<Rightarrow> bytes list \<Rightarrow> bool option" where
  "any_mask rx full_mask [] = Some False"
| "any_mask rx full_mask (p # ps) =
     (case wildcard_to_regex rx p of
        None \<Rightarrow> None
      | Some re \<Rightarrow> if rx_is_match rx re full_mask then Some True else any_mask rx full_mask ps)"

definition should_auto_accept ::
  "'r regex_crate \<Rightarrow> dcc_manager \<Rightarrow> bytes \<Rightarrow> bytes \<Rightarrow> bytes \<Rightarrow> nat \<Rightarrow> bool option" where
  "should_auto_accept rx s nick ident host port =
     (if port \<noteq> 0 \<and> port \<le> 1023 \<and> \<not> autoaccept_lowports s then Some False
      else any_mask rx (nick @ ''!'' @ ident @ ''@'' @ host) (autochat_masks s))"

section \<open>Every record under its own id, every live chat with a record\<close>

definition dcc_ok :: "dcc_manager \<Rightarrow> bool" where
  "dcc_ok s \<longleftrightarrow>
     hm_ok (dcc_records s) \<and> (\<forall>i r. hm_get (dcc_records s) i = Some r \<longrightarrow> dr_id r = i) \<and>
     (\<forall>i. hm_get (chat_senders s) i \<noteq> None \<longrightarrow> hm_get (dcc_records s) i \<noteq> None) \<and>
     (\<forall>i. hm_get (chat_tasks s) i \<noteq> None \<longrightarrow> hm_get (dcc_records s) i \<noteq> None)"

lemma free_id_fresh: "free_id taken base n \<notin> set taken"
  by (induction taken base n rule: free_id.induct) (subst free_id.simps, simp)

lemma generate_id_fresh: "hm_get (dcc_records s) (generate_id lc s nick) = None"
  using free_id_fresh [of "map fst (dcc_records s)" "lc nick" 2]
  by (auto simp: generate_id_def hm_get_def map_of_eq_None_iff)

lemma close_ok: "dcc_ok s \<Longrightarrow> dcc_ok (snd (close_by_id i s))"
  by (auto simp: dcc_ok_def close_by_id_def rmap)

lemma close_all_ok: "dcc_ok s \<Longrightarrow> dcc_ok (snd (close_all is s))"
proof (induction "is" arbitrary: s)
  case (Cons i "is")
  obtain r s1 where c: "close_by_id i s = (r, s1)" by force
  then have "dcc_ok s1" using close_ok [OF Cons.prems, of i] by simp
  from Cons.IH [OF this] c show ?case by (auto split: prod.splits)
qed simp

lemma get_rekey:
  "old \<noteq> new \<Longrightarrow> hm_get m new = None \<Longrightarrow> hm_get (rekey old new m) j =
     (if j = new then hm_get m old else if j = old then None else hm_get m j)"
  by (auto simp: rekey_def rmap split: option.split)

lemma get_rekey_same: "hm_get (rekey old old m) j = hm_get m j"
  by (auto simp: rekey_def rmap split: option.split)

text \<open>One rename: the record moves to a fresh id, its sender and task with it, the others stay.\<close>

lemma rename_one_moves:
  assumes ok: "dcc_ok s" and r: "hm_get (dcc_records s) i = Some rec" and st: "rename_one lc nick i s = (p, s')"
  obtains new where "p = Some (i, new, ''='' @ dr_nick rec, ''='' @ nick)" "dcc_ok s'"
    "\<And>j. hm_get (dcc_records s') j = (if j = new then Some (rec\<lparr>dr_nick := nick, dr_id := new\<rparr>)
        else if j = i then None else hm_get (dcc_records s) j)"
    "\<And>j. hm_get (chat_senders s') j = (if j = new then hm_get (chat_senders s) i
        else if j = i then None else hm_get (chat_senders s) j)"
    "\<And>j. hm_get (chat_tasks s') j = (if j = new then hm_get (chat_tasks s) i
        else if j = i then None else hm_get (chat_tasks s) j)"
    "new = i \<or> hm_get (dcc_records s) new = None"
proof -
  define s1 where "s1 = s\<lparr>dcc_records := hm_del i (dcc_records s)\<rparr>"
  define new where "new = generate_id lc s1 nick"
  have fresh: "new = i \<or> hm_get (dcc_records s) new = None"
    using generate_id_fresh [of s1 lc nick] by (auto simp: new_def s1_def rmap split: if_splits)
  have s': "p = Some (i, new, ''='' @ dr_nick rec, ''='' @ nick)"
    "dcc_records s' = hm_put new (rec\<lparr>dr_nick := nick, dr_id := new\<rparr>) (hm_del i (dcc_records s))"
    "chat_senders s' = rekey i new (chat_senders s)" "chat_tasks s' = rekey i new (chat_tasks s)"
    using st r by (auto simp: rename_one_def s1_def new_def Let_def)
  have rec': "hm_get (dcc_records s') j = (if j = new then Some (rec\<lparr>dr_nick := nick, dr_id := new\<rparr>)
      else if j = i then None else hm_get (dcc_records s) j)" for j
    by (simp add: s'(2) rmap)
  have none: "new \<noteq> i \<Longrightarrow> hm_get (chat_senders s) new = None \<and> hm_get (chat_tasks s) new = None"
    using fresh ok by (auto simp: dcc_ok_def)
  have mv: "hm_get (rekey i new m) j = (if j = new then hm_get m i else if j = i then None else hm_get m j)"
    if "new \<noteq> i \<Longrightarrow> hm_get m new = None" for m :: "(bytes, handle) hmap" and j
    using that by (cases "new = i") (auto simp: get_rekey get_rekey_same)
  have snd': "hm_get (chat_senders s') j = (if j = new then hm_get (chat_senders s) i
      else if j = i then None else hm_get (chat_senders s) j)" for j
    unfolding s'(3) using none by (intro mv) simp
  have tsk': "hm_get (chat_tasks s') j = (if j = new then hm_get (chat_tasks s) i
      else if j = i then None else hm_get (chat_tasks s) j)" for j
    unfolding s'(4) using none by (intro mv) simp
  have "hm_ok (dcc_records s')" using ok by (simp add: s'(2) dcc_ok_def rmap)
  moreover have "dr_id r = j" if "hm_get (dcc_records s') j = Some r" for j r
    using that ok unfolding rec' dcc_ok_def by (auto split: if_splits)
  moreover have "hm_get (dcc_records s') j \<noteq> None" if "hm_get (chat_senders s') j \<noteq> None" for j
    using that ok r unfolding rec' snd' dcc_ok_def by (auto split: if_splits)
  moreover have "hm_get (dcc_records s') j \<noteq> None" if "hm_get (chat_tasks s') j \<noteq> None" for j
    using that ok r unfolding rec' tsk' dcc_ok_def by (auto split: if_splits)
  ultimately have "dcc_ok s'" unfolding dcc_ok_def by blast
  then show thesis by (rule that [OF s'(1) _ rec' snd' tsk' fresh])
qed

lemma rename_one_absent: "hm_get (dcc_records s) i = None \<Longrightarrow> rename_one lc nick i s = (None, s)"
  by (simp add: rename_one_def)

lemma rename_one_ok: "dcc_ok s \<Longrightarrow> dcc_ok (snd (rename_one lc nick i s))"
proof (cases "hm_get (dcc_records s) i")
  case (Some rec)
  assume "dcc_ok s"
  obtain p s' where st: "rename_one lc nick i s = (p, s')" by force
  show ?thesis unfolding st snd_conv by (rule rename_one_moves [OF \<open>dcc_ok s\<close> Some st])
qed (simp add: rename_one_absent)

lemma rename_all_ok: "dcc_ok s \<Longrightarrow> dcc_ok (snd (rename_all lc nick is s))"
proof (induction "is" arbitrary: s)
  case (Cons i "is")
  obtain r s1 where c: "rename_one lc nick i s = (r, s1)" by force
  then have "dcc_ok s1" using rename_one_ok [OF Cons.prems, of lc nick i] by simp
  from Cons.IH [OF this] c show ?case by (auto split: prod.splits)
qed simp

text \<open>The connected chats: which task of which connection a sender belongs to.\<close>

definition live_chats :: "dcc_manager \<Rightarrow> (handle \<times> handle option \<times> bytes) set" where
  "live_chats s = {(h, hm_get (chat_tasks s) i, dr_conn_id r) | i h r.
     hm_get (chat_senders s) i = Some h \<and> hm_get (dcc_records s) i = Some r}"

lemma rename_one_live: "dcc_ok s \<Longrightarrow> live_chats (snd (rename_one lc nick i s)) = live_chats s"
proof (cases "hm_get (dcc_records s) i")
  case (Some rec)
  assume ok: "dcc_ok s"
  obtain p s' where st: "rename_one lc nick i s = (p, s')" by force
  obtain new where n: "\<And>j. hm_get (dcc_records s') j = (if j = new then Some (rec\<lparr>dr_nick := nick, dr_id := new\<rparr>)
        else if j = i then None else hm_get (dcc_records s) j)"
    "\<And>j. hm_get (chat_senders s') j = (if j = new then hm_get (chat_senders s) i
        else if j = i then None else hm_get (chat_senders s) j)"
    "\<And>j. hm_get (chat_tasks s') j = (if j = new then hm_get (chat_tasks s) i
        else if j = i then None else hm_get (chat_tasks s) j)"
    "new = i \<or> hm_get (dcc_records s) new = None"
    by (rule rename_one_moves [OF ok Some st]) (rule that)
  have "x \<in> live_chats s' \<longleftrightarrow> x \<in> live_chats s" for x
  proof
    assume "x \<in> live_chats s'"
    then obtain j h r where j: "x = (h, hm_get (chat_tasks s') j, dr_conn_id r)"
      "hm_get (chat_senders s') j = Some h" "hm_get (dcc_records s') j = Some r" by (auto simp: live_chats_def)
    show "x \<in> live_chats s"
    proof (cases "j = new")
      case True
      with j n have "x = (h, hm_get (chat_tasks s) i, dr_conn_id rec)" "hm_get (chat_senders s) i = Some h" by auto
      with Some show ?thesis by (auto simp: live_chats_def)
    next
      case False
      with j n have "j \<noteq> i" "x = (h, hm_get (chat_tasks s) j, dr_conn_id r)" "hm_get (chat_senders s) j = Some h"
        "hm_get (dcc_records s) j = Some r" by (auto split: if_splits)
      then show ?thesis by (auto simp: live_chats_def)
    qed
  next
    assume "x \<in> live_chats s"
    then obtain j h r where j: "x = (h, hm_get (chat_tasks s) j, dr_conn_id r)"
      "hm_get (chat_senders s) j = Some h" "hm_get (dcc_records s) j = Some r" by (auto simp: live_chats_def)
    show "x \<in> live_chats s'"
    proof (cases "j = i")
      case True
      with j Some n have "x = (h, hm_get (chat_tasks s') new, dr_conn_id (rec\<lparr>dr_nick := nick, dr_id := new\<rparr>))"
        "hm_get (chat_senders s') new = Some h" "hm_get (dcc_records s') new = Some (rec\<lparr>dr_nick := nick, dr_id := new\<rparr>)"
        by auto
      then show ?thesis unfolding live_chats_def by blast
    next
      case False
      with j n(4) have "j \<noteq> new" by auto
      with False j n have "x = (h, hm_get (chat_tasks s') j, dr_conn_id r)" "hm_get (chat_senders s') j = Some h"
        "hm_get (dcc_records s') j = Some r" by auto
      then show ?thesis unfolding live_chats_def by blast
    qed
  qed
  then show ?thesis using st by auto
qed (simp add: rename_one_absent)

lemma rename_all_live: "dcc_ok s \<Longrightarrow> live_chats (snd (rename_all lc nick is s)) = live_chats s"
proof (induction "is" arbitrary: s)
  case (Cons i "is")
  obtain r s1 where c: "rename_one lc nick i s = (r, s1)" by force
  then have "dcc_ok s1" "live_chats s1 = live_chats s"
    using rename_one_ok [OF Cons.prems, of lc nick i] rename_one_live [OF Cons.prems, of lc nick i] by simp_all
  with Cons.IH [of s1] c show ?case by (auto split: prod.splits)
qed simp

section \<open>Properties\<close>

text \<open>C37: A nick change never loses or mixes up a chat: every record stays filed under its own id, every
  sender and task keeps a record, and the live chats, each with its task and its connection, are
  the same before and after, however many records the peer has and whatever ids the new nick meets.\<close>

theorem dcc_rename_keeps_chats:
  assumes "dcc_ok s" "update_nick lc conn_id mapping old_nick new_nick s = (renamed, s')"
  shows "dcc_ok s' \<and> live_chats s' = live_chats s"
proof -
  let ?ids = "map fst (filter (\<lambda>(_, r). dr_conn_id r = conn_id \<and> casefold (dr_nick r) mapping = casefold old_nick mapping)
      (dcc_records s))"
  have "snd (rename_all lc new_nick ?ids s) = s'" using assms(2) by (simp add: update_nick_def)
  with rename_all_ok [OF assms(1), of lc new_nick ?ids] rename_all_live [OF assms(1), of lc new_nick ?ids]
  show ?thesis by simp
qed

theorem dcc_rename_keeps_chats_witness:
  "\<exists>s renamed s'. dcc_ok s \<and> update_nick id ''net'' ''ascii'' ''al'' ''bo'' s = (renamed, s') \<and>
     live_chats s' = live_chats s \<and> (7, Some 9, ''net'') \<in> live_chats s'"
proof -
  let ?r = "\<lparr>dr_id = ''al'', dr_nick = ''al'', dr_conn_id = ''net'', dr_outgoing = False, dr_addr = PASSIVE_FAKE_IP,
    dr_port = 5000, dr_state = Connected, dr_passive_token = None, dr_created = 0, dr_started = None,
    dr_bytes_transferred = 0, dr_mirc_ctcp = True, dr_ident = ''i'', dr_host = ''h''\<rparr>"
  let ?s = "dcc_new\<lparr>dcc_records := [(''al'', ?r)], chat_senders := [(''al'', 7)], chat_tasks := [(''al'', 9)]\<rparr>"
  have ok: "dcc_ok ?s" by (simp add: dcc_ok_def hm_ok_def hm_get_def)
  obtain renamed s' where u: "update_nick id ''net'' ''ascii'' ''al'' ''bo'' ?s = (renamed, s')" by force
  have "(7, Some 9, ''net'') \<in> live_chats ?s"
    unfolding live_chats_def
    by (rule CollectI, rule exI [of _ "''al''"], rule exI [of _ 7], rule exI [of _ ?r]) (simp add: hm_get_def)
  with dcc_rename_keeps_chats [OF ok u] ok u show ?thesis by auto
qed

text \<open>Offers from privileged ports are never accepted automatically unless the user allowed it;
  other offers are accepted exactly when one of the masks matches the peer's full mask.\<close>

theorem dcc_auto_accept_exact:
  assumes "\<forall>p\<in>set (autochat_masks s). wildcard_to_regex rx p \<noteq> None"
  shows "should_auto_accept rx s nick ident host port = Some True \<longleftrightarrow>
     (port \<in> {1..1023} \<longrightarrow> autoaccept_lowports s) \<and>
     (\<exists>p\<in>set (autochat_masks s). \<exists>re. wildcard_to_regex rx p = Some re \<and>
        rx_is_match rx re (nick @ ''!'' @ ident @ ''@'' @ host))"
    and "should_auto_accept rx s nick ident host port \<noteq> None"
proof -
  have "any_mask rx full ps = Some (\<exists>p\<in>set ps. \<exists>re. wildcard_to_regex rx p = Some re \<and> rx_is_match rx re full)"
    if "\<forall>p\<in>set ps. wildcard_to_regex rx p \<noteq> None" for full ps
    using that by (induction ps) auto
  from this [OF assms] show "should_auto_accept rx s nick ident host port = Some True \<longleftrightarrow>
     (port \<in> {1..1023} \<longrightarrow> autoaccept_lowports s) \<and>
     (\<exists>p\<in>set (autochat_masks s). \<exists>re. wildcard_to_regex rx p = Some re \<and>
        rx_is_match rx re (nick @ ''!'' @ ident @ ''@'' @ host))"
    and "should_auto_accept rx s nick ident host port \<noteq> None"
    by (auto simp: should_auto_accept_def)
qed

theorem dcc_auto_accept_exact_witness:
  "let rx = \<lparr>rx_new = Some, rx_is_match = (\<lambda>re s. re = wildcard_source ''al!i@h'' \<and> s = ''al!i@h'')\<rparr>;
       s = dcc_new\<lparr>autochat_masks := [''al!i@h'']\<rparr> in
   should_auto_accept rx s ''al'' ''i'' ''h'' 5000 = Some True \<and> should_auto_accept rx s ''al'' ''i'' ''h'' 80 \<noteq> Some True"
proof -
  let ?rx = "\<lparr>rx_new = Some, rx_is_match = (\<lambda>re s. re = wildcard_source ''al!i@h'' \<and> s = ''al!i@h'')\<rparr>"
  let ?s = "dcc_new\<lparr>autochat_masks := [''al!i@h'']\<rparr>"
  have a: "\<forall>p\<in>set (autochat_masks ?s). wildcard_to_regex ?rx p \<noteq> None" by (simp add: wildcard_to_regex_def)
  show ?thesis unfolding Let_def
    by (simp only: dcc_auto_accept_exact(1) [OF a]) (simp add: dcc_new_def wildcard_to_regex_def)
qed

text \<open>A listening record is never found by the search for pending offers.\<close>

lemma listening_not_pending: "find_pending s conn_id mapping nick = Some r \<Longrightarrow> dr_state r = WaitingUser \<and> \<not> dr_outgoing r"
  by (auto simp: find_pending_def find_Some_iff)

end
