(* ===== verification/Config_Env.thy ===== *)
theory Config_Env
  imports Rust_Text Rust_Map
begin

text \<open>
  The \<open>.env\<close> file (\<open>src/src/config/env.rs\<close>): reading, setting and removing a value, and what the
  values do to the configuration.  A file is its content, \<open>None\<close> when it does not exist; that its
  reading and writing may fail is not modelled.  The \<open>hex\<close> crate and \<open>str::to_uppercase\<close> (the
  Unicode case table) are the arguments \<open>hex_decode\<close>, \<open>hex_encode\<close> and \<open>uc\<close>.
\<close>

section \<open>Lines\<close>

definition newline_byte :: byte where "newline_byte = CHR 0x0A"
definition return_byte :: byte where "return_byte = CHR 0x0D"

definition strip_return :: "bytes \<Rightarrow> bytes" where
  "strip_return l = (case strip_suffix [return_byte] l of Some r \<Rightarrow> r | None \<Rightarrow> l)"

text \<open>\<open>str::lines\<close>: a line that ends in a newline loses it and a carriage return before it.\<close>

definition str_lines :: "bytes \<Rightarrow> bytes list" where
  "str_lines s =
     (let ls = split_on newline_byte s
      in map strip_return (butlast ls) @ (if last ls = [] then [] else [last ls]))"

section \<open>Reading\<close>

definition quoted_by :: "byte \<Rightarrow> bytes \<Rightarrow> bytes option" where
  "quoted_by q v = (case strip_prefix [q] v of None \<Rightarrow> None | Some r \<Rightarrow> strip_suffix [q] r)"

definition unquote :: "bytes \<Rightarrow> bytes" where
  "unquote v =
     (case quoted_by (CHR 0x22) v of
        Some r \<Rightarrow> r
      | None \<Rightarrow> (case quoted_by (CHR 0x27) v of Some r \<Rightarrow> r | None \<Rightarrow> v))"

definition env_line :: "bytes \<Rightarrow> (bytes \<times> bytes) option" where
  "env_line l =
     (let trimmed = trim l in
      if trimmed = [] \<or> starts_with ''#'' trimmed then None
      else case split_once CHR ''='' trimmed of
        None \<Rightarrow> None
      | Some (key, v) \<Rightarrow> Some (trim key, unquote (trim v)))"

definition env_insert :: "bytes \<Rightarrow> (bytes, bytes) hmap \<Rightarrow> (bytes, bytes) hmap" where
  "env_insert l vars = (case env_line l of None \<Rightarrow> vars | Some (k, v) \<Rightarrow> hm_put k v vars)"

definition load_env :: "bytes option \<Rightarrow> (bytes, bytes) hmap" where
  "load_env file = (case file of None \<Rightarrow> [] | Some content \<Rightarrow> fold env_insert (str_lines content) [])"

section \<open>Writing\<close>

definition needs_quotes :: "bytes \<Rightarrow> bool" where
  "needs_quotes v \<longleftrightarrow>
     trim v \<noteq> v \<or> starts_with [CHR 0x22] v \<or> starts_with [CHR 0x27] v
     \<or> ends_with [CHR 0x22] v \<or> ends_with [CHR 0x27] v"

definition encode_value :: "bytes \<Rightarrow> bytes" where
  "encode_value v = (if needs_quotes v then [CHR 0x22] @ v @ [CHR 0x22] else v)"

definition file_lines :: "bytes option \<Rightarrow> bytes list" where
  "file_lines file = (case file of None \<Rightarrow> [] | Some content \<Rightarrow> str_lines content)"

definition set_lines :: "bytes \<Rightarrow> bytes \<Rightarrow> bytes list \<Rightarrow> bytes list" where
  "set_lines key new_line ls =
     (case position (\<lambda>l. starts_with (key @ ''='') (trim l)) ls of
        Some i \<Rightarrow> ls[i := new_line]
      | None \<Rightarrow>
          (if ls \<noteq> [] \<and> trim (last ls) \<noteq> [] then ls @ [[]] else ls) @ [new_line])"

definition write_lines :: "bytes list \<Rightarrow> bytes" where
  "write_lines ls = join_with [newline_byte] ls @ [newline_byte]"

datatype env_error = NotSingleLine

definition set_env_value :: "bytes option \<Rightarrow> bytes \<Rightarrow> bytes \<Rightarrow> env_error + bytes" where
  "set_env_value file key v =
     (if newline_byte \<in> set v \<or> return_byte \<in> set v \<or> CHR 0x00 \<in> set v then Inl NotSingleLine
      else Inr (write_lines (set_lines key (key @ ''='' @ encode_value v) (file_lines file))))"

definition remove_env_value :: "bytes option \<Rightarrow> bytes \<Rightarrow> bytes option" where
  "remove_env_value file key =
     (case file of
        None \<Rightarrow> None
      | Some content \<Rightarrow>
          Some (write_lines (filter (\<lambda>l. \<not> starts_with (key @ ''='') (trim_start l)) (str_lines content))))"

section \<open>Credentials\<close>

record web_credentials =
  web_password :: bytes
  session_secret :: bytes

definition apply_web_credentials ::
  "(bytes \<Rightarrow> bytes option) \<Rightarrow> (bytes, bytes) hmap \<Rightarrow> web_credentials \<Rightarrow> web_credentials" where
  "apply_web_credentials hex_decode env web =
     (let web1 = (case hm_get env ''WEB_PASSWORD'' of None \<Rightarrow> web | Some v \<Rightarrow> web\<lparr>web_password := v\<rparr>)
      in case hm_get env ''WEB_SESSION_SECRET'' of
           None \<Rightarrow> web1
         | Some v \<Rightarrow>
             (case hex_decode (trim v) of
                None \<Rightarrow> web1
              | Some bs \<Rightarrow> if length bs = 32 then web1\<lparr>session_secret := bs\<rparr> else web1))"

definition apply_shrink_credentials :: "(bytes, bytes) hmap \<Rightarrow> bytes \<Rightarrow> bytes" where
  "apply_shrink_credentials env api_key =
     (case hm_get env ''SHRINK_API_KEY'' of None \<Rightarrow> api_key | Some v \<Rightarrow> trim v)"

record ai_model =
  api_key_env :: bytes
  api_key :: bytes

definition apply_translate_credentials :: "(bytes, bytes) hmap \<Rightarrow> ai_model list \<Rightarrow> ai_model list" where
  "apply_translate_credentials env models =
     map (\<lambda>m. let key = trim (api_key_env m) in
        m\<lparr>api_key := (case (case hm_get env key of Some v \<Rightarrow> Some v | None \<Rightarrow> hm_get env (to_ascii_uppercase key)) of
             None \<Rightarrow> [] | Some v \<Rightarrow> trim v)\<rparr>) models"

definition ensure_session_secret ::
  "(bytes \<Rightarrow> bytes) \<Rightarrow> bytes \<Rightarrow> web_credentials \<Rightarrow> bytes option \<Rightarrow> env_error + (web_credentials \<times> bytes option)" where
  "ensure_session_secret hex_encode random32 web file =
     (if length (session_secret web) = 32 then Inr (web, file)
      else rbind (set_env_value file ''WEB_SESSION_SECRET'' (hex_encode random32))
             (\<lambda>content. Inr (web\<lparr>session_secret := random32\<rparr>, Some content)))"

record server_credentials =
  sv_sasl_user :: "bytes option"
  sv_sasl_pass :: "bytes option"
  sv_password :: "bytes option"

definition non_empty :: "bytes \<Rightarrow> bytes option" where
  "non_empty v = (if v = [] then None else Some v)"

definition apply_server :: "(bytes \<Rightarrow> bytes) \<Rightarrow> (bytes, bytes) hmap \<Rightarrow> bytes \<Rightarrow> server_credentials \<Rightarrow> server_credentials" where
  "apply_server uc env i s =
     (let pfx = uc i;
          s1 = (case hm_get env (pfx @ ''_SASL_USER'') of None \<Rightarrow> s | Some v \<Rightarrow> s\<lparr>sv_sasl_user := non_empty v\<rparr>);
          s2 = (case hm_get env (pfx @ ''_SASL_PASS'') of None \<Rightarrow> s1 | Some v \<Rightarrow> s1\<lparr>sv_sasl_pass := non_empty v\<rparr>)
      in case hm_get env (pfx @ ''_PASSWORD'') of None \<Rightarrow> s2 | Some v \<Rightarrow> s2\<lparr>sv_password := non_empty v\<rparr>)"

definition apply_credentials ::
  "(bytes \<Rightarrow> bytes) \<Rightarrow> (bytes, bytes) hmap \<Rightarrow> (bytes, server_credentials) hmap \<Rightarrow> (bytes, server_credentials) hmap" where
  "apply_credentials uc env servers = map (\<lambda>(i, s). (i, apply_server uc env i s)) servers"

section \<open>Trimming\<close>

lemma takeWhile_split: "b = [] \<or> \<not> P (hd b) \<Longrightarrow> takeWhile P (a @ b) = takeWhile P a \<and> dropWhile P (a @ b) = dropWhile P a @ b"
  by (induction a) (cases b; auto)+

lemma chars_of_append: "b = [] \<or> \<not> is_cont (hd b) \<Longrightarrow> chars_of (a @ b) = chars_of a @ chars_of b"
proof (induction a rule: chars_of.induct)
  case (2 c cs)
  have e: "takeWhile is_cont (cs @ b) = takeWhile is_cont cs" "dropWhile is_cont (cs @ b) = dropWhile is_cont cs @ b"
    using takeWhile_split [where P = is_cont, OF 2(2), of cs] by simp_all
  show ?case using 2(1) [OF 2(2)] by (simp add: e)
qed simp

abbreviation ws_char :: "bytes \<Rightarrow> bool" where
  "ws_char c \<equiv> ws_len c > 0"

text \<open>No white space at either end.\<close>

definition tight :: "bytes \<Rightarrow> bool" where
  "tight s \<longleftrightarrow> s = [] \<or> (\<not> ws_char (hd (chars_of s)) \<and> \<not> ws_char (last (chars_of s)))"

lemma dropWhile_hd: "xs \<noteq> [] \<Longrightarrow> \<not> P (hd xs) \<Longrightarrow> dropWhile P xs = xs"
  by (cases xs) simp_all

lemma trim_tight: "tight s \<Longrightarrow> trim s = s"
proof (cases "s = []")
  case False
  assume t: "tight s"
  have ne: "chars_of s \<noteq> []" using False by simp
  then have "dropWhile ws_char (chars_of s) = chars_of s" using t False by (intro dropWhile_hd) (auto simp: tight_def)
  moreover have "dropWhile ws_char (rev (chars_of s)) = rev (chars_of s)"
    using t False ne by (intro dropWhile_hd) (auto simp: tight_def hd_rev)
  ultimately show ?thesis by (simp add: trim_def Let_def)
qed (simp add: trim_def)

lemma concat_shorter: "[] \<notin> set xs \<Longrightarrow> length (concat ys) = length (concat xs) \<Longrightarrow> xs = zs @ ys \<or> xs = ys @ zs \<Longrightarrow> zs = []"
  by (cases zs) auto

lemma tight_trim: "trim s = s \<Longrightarrow> tight s"
proof (cases "s = []")
  case False
  assume t: "trim s = s"
  let ?cs = "chars_of s"
  let ?ds = "dropWhile ws_char ?cs"
  let ?es = "rev (dropWhile ws_char (rev ?ds))"
  have es: "?ds = ?es @ rev (takeWhile ws_char (rev ?ds))"
    by (metis rev_append rev_rev_ident takeWhile_dropWhile_id)
  have cs: "?cs = takeWhile ws_char ?cs @ ?ds" by simp
  have nn: "[] \<notin> set ?cs" using chars_of_nonempty by blast
  have "concat ?es = concat ?cs" using t by (simp add: trim_def Let_def)
  moreover have "length (concat ?ds) = length (concat ?es) + length (concat (rev (takeWhile ws_char (rev ?ds))))"
    by (subst es) (simp only: concat_append length_append)
  moreover have "length (concat ?cs) = length (concat (takeWhile ws_char ?cs)) + length (concat ?ds)"
    by (metis concat_append cs length_append)
  ultimately have "concat (takeWhile ws_char ?cs) = []" "concat (rev (takeWhile ws_char (rev ?ds))) = []"
    by simp_all
  moreover have "[] \<notin> set (takeWhile ws_char ?cs)" "[] \<notin> set (takeWhile ws_char (rev ?ds))"
    using nn by (auto dest: set_takeWhileD set_dropWhileD)
  ultimately have z: "takeWhile ws_char ?cs = []" "takeWhile ws_char (rev ?ds) = []"
    by (metis concat_eq_Nil_conv last_in_set, metis concat_eq_Nil_conv last_in_set rev_is_Nil_conv set_rev)
  have ne: "?cs \<noteq> []" using False by simp
  then have "\<not> ws_char (hd ?cs)" using z(1) by (cases ?cs) (auto split: if_splits)
  moreover have "?ds = ?cs" using z(1) cs by simp
  then have "\<not> ws_char (last ?cs)" using z(2) ne by (cases "rev ?cs") (auto split: if_splits simp: hd_rev [symmetric])
  ultimately show ?thesis by (simp add: tight_def)
qed (simp add: tight_def)

lemma trim_return: "trim (a @ [return_byte]) = trim a"
proof -
  have "chars_of (a @ [return_byte]) = chars_of a @ [[return_byte]]"
    by (subst chars_of_append) (simp_all add: return_byte_def is_cont_def)
  moreover have w: "ws_char [return_byte]" by (simp add: return_byte_def ws_len.simps)
  note cs = calculation
  show ?thesis
  proof (cases "dropWhile ws_char (chars_of a) = []")
    case True
    then have "\<forall>c\<in>set (chars_of a). ws_char c" by (metis dropWhile_eq_Nil_conv)
    then have "dropWhile ws_char (chars_of a @ [[return_byte]]) = []" using w by auto
    with True show ?thesis by (simp only: trim_def Let_def cs)
  next
    case False
    then have "dropWhile ws_char (chars_of a @ [[return_byte]]) = dropWhile ws_char (chars_of a) @ [[return_byte]]"
      by (metis dropWhile_append1 dropWhile_eq_Nil_conv)
    then show ?thesis using w by (simp add: trim_def Let_def cs)
  qed
qed

lemma trim_strip_return: "trim (strip_return l) = trim l"
proof (cases "strip_suffix [return_byte] l")
  case (Some r)
  then have "l = r @ [return_byte]"
    by (auto simp: strip_suffix_def strip_prefix_Some rev_swap)
  with Some show ?thesis by (simp add: strip_return_def trim_return)
qed (simp add: strip_return_def)

section \<open>What is written is read back\<close>

lemma tight_append:
  assumes "a \<noteq> []" "b = [] \<or> \<not> is_cont (hd b)" "\<not> ws_char (hd (chars_of a))"
    "\<not> ws_char (last (chars_of (if b = [] then a else b)))"
  shows "tight (a @ b)"
  using assms by (auto simp: tight_def chars_of_append hd_append last_append)

lemma ascii_not_cont: "bval c < 128 \<Longrightarrow> \<not> is_cont c"
  by (simp add: is_cont_def)

lemma trim_iff_tight: "trim s = s \<longleftrightarrow> tight s"
  using trim_tight tight_trim by blast

definition key_ok :: "bytes \<Rightarrow> bool" where
  "key_ok k \<longleftrightarrow> k \<noteq> [] \<and> trim k = k \<and> CHR ''='' \<notin> set k \<and> \<not> starts_with ''#'' k"

definition value_ok :: "bytes \<Rightarrow> bool" where
  "value_ok v \<longleftrightarrow> newline_byte \<notin> set v \<and> return_byte \<notin> set v \<and> CHR 0x00 \<notin> set v \<and> (v = [] \<or> \<not> is_cont (hd v))"

lemma last_char_quote: "(v = [] \<or> \<not> is_cont (hd v)) \<Longrightarrow> tight ([CHR 0x22] @ v @ [CHR 0x22])"
proof -
  assume v: "v = [] \<or> \<not> is_cont (hd v)"
  have "chars_of (v @ [CHR 0x22]) = chars_of v @ [[CHR 0x22]]"
    by (subst chars_of_append) (simp_all add: is_cont_def)
  moreover have "\<not> is_cont (hd (v @ [CHR 0x22]))"
    using v by (cases v) (simp_all add: is_cont_def)
  ultimately show ?thesis by (intro tight_append) (simp_all add: ws_len.simps)
qed

lemma encode_tight: "value_ok v \<Longrightarrow> tight (encode_value v)"
  unfolding encode_value_def by (simp add: last_char_quote value_ok_def needs_quotes_def trim_iff_tight del: append.simps)

lemma encode_head: "value_ok v \<Longrightarrow> encode_value v = [] \<or> \<not> is_cont (hd (encode_value v))"
  by (auto simp: encode_value_def value_ok_def is_cont_def)

lemma unquote_encode: "value_ok v \<Longrightarrow> unquote (encode_value v) = v"
proof (cases "needs_quotes v")
  case True
  have "strip_suffix [CHR 0x22] (v @ [CHR 0x22]) = Some v" by (simp add: strip_suffix_def)
  with True show ?thesis by (simp add: encode_value_def unquote_def quoted_by_def)
next
  case False
  then have "quoted_by (CHR 0x22) v = None" "quoted_by (CHR 0x27) v = None"
    by (simp_all add: quoted_by_def needs_quotes_def starts_with_def)
  with False show ?thesis by (simp add: encode_value_def unquote_def)
qed

lemma env_line_written:
  assumes k: "key_ok k" and v: "value_ok v"
  shows "env_line (k @ ''='' @ encode_value v) = Some (k, v)"
proof -
  let ?e = "encode_value v"
  have kt: "tight k" "k \<noteq> []" using k by (simp_all add: key_ok_def trim_iff_tight)
  have c: "chars_of (''='' @ ?e) = [CHR ''=''] # chars_of ?e"
    using encode_head [OF v] chars_of_append [of ?e "''=''"] by simp
  have "tight (k @ ''='' @ ?e)"
  proof (rule tight_append)
    have "last (chars_of (''='' @ ?e)) = (if ?e = [] then [CHR ''='']  else last (chars_of ?e))"
      by (simp only: c) simp
    then show "\<not> ws_char (last (chars_of (if ''='' @ ?e = [] then k else ''='' @ ?e)))"
      using encode_tight [OF v] by (cases "?e = []") (simp_all add: tight_def ws_len.simps del: chars_of.simps)
  qed (use kt in \<open>auto simp: tight_def is_cont_def\<close>)
  then have t: "trim (k @ ''='' @ ?e) = k @ ''='' @ ?e" by (rule trim_tight)
  have h: "\<not> starts_with ''#'' (k @ ''='' @ ?e)"
    using k by (cases k) (auto simp: key_ok_def starts_with_def split: if_splits)
  have s: "split_once CHR ''='' (k @ ''='' @ ?e) = Some (k, ?e)"
    using k split_once_append [of "CHR ''=''" k ?e] by (simp add: key_ok_def)
  show ?thesis
    using k h by (simp add: env_line_def t [simplified] s [simplified] trim_tight [OF encode_tight [OF v]] unquote_encode [OF v] key_ok_def)
qed

text \<open>The lines of a written file are the lines that were joined.\<close>

lemma split_on_append: "c \<notin> set a \<Longrightarrow> split_on c (a @ c # b) = a # split_on c b"
  by (induction a) auto

lemma split_on_join: "ls \<noteq> [] \<Longrightarrow> \<forall>l\<in>set ls. c \<notin> set l \<Longrightarrow> split_on c (join_with [c] ls @ [c]) = ls @ [[]]"
proof (induction ls rule: induct_list012)
  case (2 x)
  then show ?case using split_on_append [of c x "[]"] by simp
next
  case (3 x y zs)
  then show ?case using split_on_append [of c x "join_with [c] (y # zs) @ [c]"] by simp
qed simp

lemma str_lines_write:
  "ls \<noteq> [] \<Longrightarrow> \<forall>l\<in>set ls. newline_byte \<notin> set l \<Longrightarrow> str_lines (write_lines ls) = map strip_return ls"
  by (simp add: str_lines_def write_lines_def split_on_join)

lemma strip_return_subset: "set (strip_return l) \<subseteq> set l"
  by (auto simp: strip_return_def strip_suffix_def strip_prefix_Some rev_swap split: option.splits)

lemma str_lines_no_newline: "l \<in> set (str_lines s) \<Longrightarrow> newline_byte \<notin> set l"
proof -
  assume l: "l \<in> set (str_lines s)"
  have "\<exists>m\<in>set (split_on newline_byte s). set l \<subseteq> set m"
  proof (cases "l \<in> strip_return ` set (butlast (split_on newline_byte s))")
    case True
    then obtain m where "m \<in> set (butlast (split_on newline_byte s))" "l = strip_return m" by blast
    then show ?thesis using strip_return_subset [of m] by (blast dest: in_set_butlastD)
  next
    case False
    with l have "l = last (split_on newline_byte s)" by (simp add: str_lines_def Let_def split: if_splits)
    then show ?thesis using last_in_set [OF split_on_nonempty] by blast
  qed
  then show ?thesis using split_on_no_sep by blast
qed

lemma env_insert_strip_return: "env_insert (strip_return l) = env_insert l"
  by (simp add: fun_eq_iff env_insert_def env_line_def trim_strip_return)

lemma load_written:
  assumes "ls \<noteq> []" "\<forall>l\<in>set ls. newline_byte \<notin> set l"
  shows "load_env (Some (write_lines ls)) = fold env_insert ls []"
proof -
  have "fold env_insert (map strip_return ls) m = fold env_insert ls m" for m
    by (induction ls arbitrary: m) (simp_all add: env_insert_strip_return)
  with assms show ?thesis by (simp add: load_env_def str_lines_write)
qed

definition line_defines :: "bytes \<Rightarrow> bytes \<Rightarrow> bool" where
  "line_defines key l \<longleftrightarrow> (case env_line l of Some (k, v) \<Rightarrow> k = key | None \<Rightarrow> False)"

lemma env_insert_get:
  "hm_get (env_insert l m) k = (if line_defines k l then map_option snd (env_line l) else hm_get m k)"
  by (auto simp: env_insert_def line_defines_def hm.get_put split: option.splits)



lemma fold_env_cong:
  "hm_get m k = hm_get m' k \<Longrightarrow> hm_get (fold env_insert ls m) k = hm_get (fold env_insert ls m') k"
  by (induction ls arbitrary: m m') (simp_all add: env_insert_get)

lemma canonical_defines:
  assumes "key_ok k" "starts_with (k @ ''='') (trim l)"
  shows "line_defines k l"
proof -
  obtain w where "trim l = k @ CHR ''='' # w" using assms(2) by (auto simp: starts_with_def strip_prefix_Some)
  moreover have "\<not> starts_with ''#'' (k @ CHR ''='' # w)"
    using assms(1) by (cases k) (auto simp: key_ok_def starts_with_def split: if_splits)
  ultimately show ?thesis
    using assms(1) by (simp add: line_defines_def env_line_def split_once_append key_ok_def)
qed

lemma new_line_plain:
  assumes "key_ok key" "value_ok v" "newline_byte \<notin> set key"
  shows "newline_byte \<notin> set (key @ ''='' @ encode_value v)"
  using assms by (auto simp: value_ok_def encode_value_def newline_byte_def)

lemma set_value_inr:
  "value_ok v \<Longrightarrow> set_env_value file key v = Inr (write_lines (set_lines key (key @ ''='' @ encode_value v) (file_lines file)))"
  by (simp add: set_env_value_def value_ok_def)

lemma file_lines_plain: "l \<in> set (file_lines file) \<Longrightarrow> newline_byte \<notin> set l"
  by (auto simp: file_lines_def str_lines_no_newline split: option.splits)

lemma load_env_lines: "load_env file = fold env_insert (file_lines file) []"
  by (simp add: load_env_def file_lines_def split: option.splits)

lemma set_lines_plain:
  "newline_byte \<notin> set new \<Longrightarrow> \<forall>l\<in>set ls. newline_byte \<notin> set l \<Longrightarrow>
     set_lines key new ls \<noteq> [] \<and> (\<forall>l\<in>set (set_lines key new ls). newline_byte \<notin> set l)"
  by (auto simp: set_lines_def split: option.splits dest: set_update_subset_insert [THEN subsetD])



lemma fold_env_other:
  assumes "env_line new = Some (key, v)" "k \<noteq> key" "line_defines key l"
  shows "hm_get (fold env_insert (a @ new # b) []) k = hm_get (fold env_insert (a @ l # b) []) k"
  using assms by (auto simp: env_insert_get line_defines_def split: option.splits intro!: fold_env_cong)






lemma fold_env_defined:
  "\<exists>x\<in>set b. line_defines k x \<Longrightarrow> hm_get (fold env_insert b m) k = hm_get (fold env_insert b m') k"
proof (induction b arbitrary: m m')
  case (Cons x b)
  show ?case
  proof (cases "\<exists>y\<in>set b. line_defines k y")
    case True
    then show ?thesis by (simp add: Cons.IH [of "env_insert x m" "env_insert x m'"])
  next
    case False
    with Cons.prems have "line_defines k x" by auto
    then have "hm_get (env_insert x m) k = hm_get (env_insert x m') k" by (simp add: env_insert_get)
    then show ?thesis by simp (rule fold_env_cong)
  qed
qed simp

lemma position_before: "P l \<Longrightarrow> \<exists>i\<le>length a. position P (a @ l # b) = Some i"
  by (induction a) auto

text \<open>C39: When a line that starts with the key and an equals sign is followed, anywhere in the file, by another
  line that defines the key, \<open>set_env_value\<close> reports success but has no effect on what is read: it rewrites
  the first such line, \<open>load_env\<close> keeps the last, and the file loads exactly as before, the old value of the
  key included.\<close>

theorem env_duplicate_shadows:
  assumes "key_ok key" "newline_byte \<notin> set key" "value_ok v" "file_lines file = a @ l # b"
    "starts_with (key @ ''='') (trim l)" "\<exists>x\<in>set b. line_defines key x"
  shows "\<exists>c. set_env_value file key v = Inr c \<and> hm_get (load_env (Some c)) = hm_get (load_env file)"
proof -
  let ?new = "key @ ''='' @ encode_value v"
  let ?ls = "file_lines file"
  have line: "env_line ?new = Some (key, v)" by (rule env_line_written) fact+
  obtain i where i: "i \<le> length a" "position (\<lambda>l. starts_with (key @ ''='') (trim l)) ?ls = Some i"
    using position_before [of "\<lambda>l. starts_with (key @ ''='') (trim l)", OF assms(5), of a b] assms(4) by auto
  note at = position_Some [OF i(2)]
  let ?t = "drop (Suc i) ?ls"
  have out: "set_lines key ?new ?ls = take i ?ls @ ?new # ?t"
    using i at by (simp add: set_lines_def upd_conv_take_nth_drop)
  have ls: "?ls = take i ?ls @ ?ls ! i # ?t" using at by (simp add: id_take_nth_drop)
  have "set b \<subseteq> set ?t"
    using i(1) set_drop_subset_set_drop [of "Suc i" "Suc (length a)" ?ls] by (simp add: assms(4))
  then have dup: "\<exists>x\<in>set ?t. line_defines key x" using assms(6) by blast
  have "\<forall>l\<in>set ?ls. newline_byte \<notin> set l" by (simp add: file_lines_plain)
  then have load: "load_env (Some (write_lines (set_lines key ?new ?ls))) = fold env_insert (take i ?ls @ ?new # ?t) []"
    using set_lines_plain new_line_plain assms(1,2,3) unfolding out [symmetric] by (intro load_written) blast+
  have "hm_get (fold env_insert (take i ?ls @ ?new # ?t) []) k = hm_get (fold env_insert (take i ?ls @ ?ls ! i # ?t) []) k" for k
  proof (cases "k = key")
    case True
    then show ?thesis using fold_env_defined [OF dup] by simp
  next
    case False
    show ?thesis by (rule fold_env_other [OF line False canonical_defines [OF assms(1)]]) (use at in simp)
  qed
  then have "hm_get (load_env (Some (write_lines (set_lines key ?new ?ls)))) = hm_get (load_env file)"
    unfolding load load_env_lines [of "file"] using ls by (intro ext) simp
  then show ?thesis using set_value_inr [OF assms(3)] by blast
qed

text \<open>The value \<open>c\<close> is written, the value \<open>b\<close> is still read.\<close>

theorem env_duplicate_shadows_witness:
  "\<exists>c. set_env_value (Some (''# x'' @ [CHR 0x0A] @ ''K=a'' @ [CHR 0x0A] @ ''L=1'' @ [CHR 0x0A] @ ''K=b'')) ''K'' ''c'' = Inr c
     \<and> hm_get (load_env (Some c)) ''K'' = Some ''b''"
proof -
  let ?f = "Some (''# x'' @ [CHR 0x0A] @ ''K=a'' @ [CHR 0x0A] @ ''L=1'' @ [CHR 0x0A] @ ''K=b'')"
  have "\<exists>c. set_env_value ?f ''K'' ''c'' = Inr c \<and> hm_get (load_env (Some c)) = hm_get (load_env ?f)"
    by (rule env_duplicate_shadows [where a = "[''# x'']" and l = "''K=a''" and b = "[''L=1'', ''K=b'']"]; code_simp)
  moreover have "hm_get (load_env ?f) ''K'' = Some ''b''" by code_simp
  ultimately show ?thesis by metis
qed

end
