(* ===== verification/Command_Parser.thy ===== *)
theory Command_Parser
  imports Rust_Text "HOL-Library.List_Lexorder" "HOL-Library.Char_ord"
begin

text \<open>
  The slash commands: the registry (\<open>src/src/commands/registry.rs\<close>) with its names, aliases and
  categories - the handlers and the descriptions are left out - and the parser
  (\<open>src/src/commands/parser.rs\<close>).  \<open>str::to_lowercase\<close> (the Unicode case table) is the argument
  \<open>lc\<close>, the \<open>shell_words\<close> crate the argument \<open>shell_split\<close>.
\<close>

section \<open>The registry\<close>

datatype command_category = Connection | Channel | Messaging | Configuration | Info | Other

datatype command_def = CommandDef (cd_aliases: "bytes list") (cd_category: command_category)

definition category_label :: "command_category \<Rightarrow> bytes" where
  "category_label c =
     (case c of Connection \<Rightarrow> ''Connection'' | Channel \<Rightarrow> ''Channel'' | Messaging \<Rightarrow> ''Messaging''
      | Configuration \<Rightarrow> ''Configuration'' | Info \<Rightarrow> ''Info'' | Other \<Rightarrow> ''Other'')"

definition CATEGORY_ORDER :: "command_category list" where
  "CATEGORY_ORDER = [Connection, Channel, Messaging, Configuration, Info, Other]"

definition get_commands :: "(bytes \<times> command_def) list" where
  "get_commands =
     [(''bind'', CommandDef [] Configuration), (''account'', CommandDef [] Connection),
      (''auth'', CommandDef [] Connection), (''upload'', CommandDef [] Connection),
      (''redact'', CommandDef [] Connection), (''monitor'', CommandDef [] Connection),
      (''setname'', CommandDef [] Connection), (''bouncer'', CommandDef [] Connection),
      (''connect'', CommandDef [''c''] Connection), (''disconnect'', CommandDef [] Connection),
      (''quit'', CommandDef [''exit''] Connection), (''detach'', CommandDef [''dt''] Connection),
      (''server'', CommandDef [] Connection), (''wizard'', CommandDef [] Connection),
      (''dcc'', CommandDef [] Connection), (''e2e'', CommandDef [] Other),
      (''join'', CommandDef [''j''] Channel), (''part'', CommandDef [''leave''] Channel),
      (''cycle'', CommandDef [''rejoin''] Channel), (''topic'', CommandDef [''t''] Channel),
      (''kick'', CommandDef [''k''] Channel), (''invite'', CommandDef [] Channel),
      (''mode'', CommandDef [] Channel), (''op'', CommandDef [] Channel),
      (''deop'', CommandDef [] Channel), (''voice'', CommandDef [''v''] Channel),
      (''devoice'', CommandDef [] Channel), (''ban'', CommandDef [''b''] Channel),
      (''unban'', CommandDef [] Channel), (''kb'', CommandDef [''kickban''] Channel),
      (''except'', CommandDef [] Channel), (''unexcept'', CommandDef [] Channel),
      (''invex'', CommandDef [] Channel), (''uninvex'', CommandDef [] Channel),
      (''reop'', CommandDef [] Channel), (''unreop'', CommandDef [] Channel),
      (''names'', CommandDef [] Channel), (''msg'', CommandDef [''m''] Messaging),
      (''query'', CommandDef [''q''] Messaging), (''me'', CommandDef [''action''] Messaging),
      (''notice'', CommandDef [] Messaging), (''nick'', CommandDef [] Messaging),
      (''away'', CommandDef [] Messaging), (''help'', CommandDef [''?''] Info),
      (''emote'', CommandDef [''emotes'', ''emoji''] Other), (''whois'', CommandDef [''wi''] Info),
      (''wii'', CommandDef [] Info), (''version'', CommandDef [''ver''] Info),
      (''list'', CommandDef [] Info), (''who'', CommandDef [] Info), (''whowas'', CommandDef [] Info),
      (''info'', CommandDef [] Info), (''admin'', CommandDef [] Info), (''lusers'', CommandDef [] Info),
      (''time'', CommandDef [] Info), (''links'', CommandDef [] Info),
      (''set'', CommandDef [] Configuration), (''reload'', CommandDef [] Configuration),
      (''spellcheck'', CommandDef [''spell''] Configuration), (''mentions'', CommandDef [] Info),
      (''ignore'', CommandDef [] Configuration), (''flood'', CommandDef [''antiflood''] Configuration),
      (''unignore'', CommandDef [] Configuration), (''alias'', CommandDef [] Configuration),
      (''unalias'', CommandDef [] Configuration), (''autoconnect'', CommandDef [] Configuration),
      (''items'', CommandDef [] Configuration), (''bcert'', CommandDef [] Connection),
      (''bmeta'', CommandDef [] Connection), (''bsearch'', CommandDef [] Connection),
      (''log'', CommandDef [] Configuration), (''script'', CommandDef [] Configuration),
      (''oper'', CommandDef [] Other), (''kill'', CommandDef [] Other),
      (''wallops'', CommandDef [] Other), (''stats'', CommandDef [] Other),
      (''bare'', CommandDef [] Other), (''clear'', CommandDef [] Other),
      (''close'', CommandDef [''wc''] Other), (''quote'', CommandDef [''raw''] Other),
      (''preview'', CommandDef [] Other), (''image'', CommandDef [''img''] Other),
      (''shell'', CommandDef [''sh''] Other), (''shrink'', CommandDef [] Other),
      (''translate'', CommandDef [''tr''] Other)]"

definition get_command_names :: "bytes list" where
  "get_command_names = sort (remdups (concat (map (\<lambda>(name, d). name # cd_aliases d) get_commands)))"

fun resolve_loop :: "bytes \<Rightarrow> (bytes \<times> command_def) list \<Rightarrow> bytes option" where
  "resolve_loop name [] = None"
| "resolve_loop name ((cmd_name, d) # cs) =
     (if cmd_name = name then Some cmd_name
      else if name \<in> set (cd_aliases d) then Some cmd_name
      else resolve_loop name cs)"

definition resolve_alias :: "bytes \<Rightarrow> bytes option" where
  "resolve_alias name = resolve_loop name get_commands"

section \<open>The parser\<close>

record parsed_command =
  pc_name :: bytes
  pc_args :: "bytes list"

definition GREEDY_COMMANDS :: "bytes list" where
  "GREEDY_COMMANDS = [''msg'', ''query'', ''notice'', ''me'', ''quit'', ''topic'', ''disconnect'', ''set'', ''alias'', ''bouncer'', ''quote'', ''setname'', ''shell'', ''sh'']"

text \<open>\<open>find(char::is_whitespace)\<close>: the text before the first white space, and the text from it on.\<close>

fun split_at_ws :: "bytes \<Rightarrow> (bytes \<times> bytes) option" where
  "split_at_ws [] = None"
| "split_at_ws (c # cs) =
     (if ws_len (c # cs) > 0 then Some ([], c # cs)
      else map_option (\<lambda>(a, b). (c # a, b)) (split_at_ws cs))"

text \<open>\<open>items\<close>: the first words apart, the rest of the line as one argument.\<close>

fun head_args :: "nat \<Rightarrow> bytes \<Rightarrow> bytes list \<times> bytes" where
  "head_args 0 tail = ([], tail)"
| "head_args (Suc n) tail =
     (case split_at_ws tail of
        Some (word, r) \<Rightarrow> (let (ws, t) = head_args n (trim_start r) in (word # ws, t))
      | None \<Rightarrow> (if tail = [] then [] else [tail], []))"

definition items_head :: "bytes \<Rightarrow> nat" where
  "items_head rest =
     (case split_whitespace rest of
        [] \<Rightarrow> 0
      | w # _ \<Rightarrow> if w = ''format'' then 2 else if w = ''separator'' then 1 else 0)"

definition upload_args :: "(bytes \<Rightarrow> bytes list option) \<Rightarrow> bytes \<Rightarrow> bytes list" where
  "upload_args shell_split rest =
     (case shell_split (map (\<lambda>c. if c = CHR ''#'' then CHR 0x00 else c) rest) of
        None \<Rightarrow> []
      | Some words \<Rightarrow> map (map (\<lambda>c. if c = CHR 0x00 then CHR ''#'' else c)) words)"

definition greedy_args :: "bytes \<Rightarrow> bytes \<Rightarrow> bytes list" where
  "greedy_args canonical rest =
     (if canonical \<in> {''me'', ''quit'', ''quote'', ''setname''} then [rest]
      else case split_once CHR '' '' rest of Some (a, b) \<Rightarrow> [a, b] | None \<Rightarrow> [rest])"

definition command_args :: "(bytes \<Rightarrow> bytes list option) \<Rightarrow> bytes \<Rightarrow> bytes \<Rightarrow> bytes list" where
  "command_args shell_split canonical rest0 =
     (let rest = (if canonical = ''shell'' \<or> canonical = ''bind'' then trim_start rest0 else trim rest0) in
      if canonical = ''bind'' then [rest]
      else if canonical = ''items'' \<and> items_head rest > 0 then
        (let (args, tail) = head_args (items_head rest) rest in args @ (if tail = [] then [] else [tail]))
      else if canonical = ''upload'' then upload_args shell_split rest
      else if canonical \<in> set GREEDY_COMMANDS then greedy_args canonical rest
      else split_whitespace rest)"

definition parse_command :: "(bytes \<Rightarrow> bytes) \<Rightarrow> (bytes \<Rightarrow> bytes list option) \<Rightarrow> bytes \<Rightarrow> parsed_command option" where
  "parse_command lc shell_split input =
     (if \<not> starts_with ''/'' input then None
      else
        let trimmed = tl input in
        case split_once CHR '' '' trimmed of
          None \<Rightarrow> Some \<lparr>pc_name = lc trimmed, pc_args = []\<rparr>
        | Some (word, rest) \<Rightarrow>
            (let command = lc word in
             Some \<lparr>pc_name = command,
                   pc_args = command_args shell_split (unwrap_or command (resolve_alias command)) rest\<rparr>))"

section \<open>The registry is unambiguous\<close>

definition command_words :: "bytes \<times> command_def \<Rightarrow> bytes list" where
  "command_words e = fst e # cd_aliases (snd e)"

lemma registry_words_distinct: "distinct (concat (map command_words get_commands))"
  by code_simp

lemma resolve_loop_known:
  "distinct (concat (map command_words cs)) \<Longrightarrow> e \<in> set cs \<Longrightarrow> w \<in> set (command_words e) \<Longrightarrow>
     resolve_loop w cs = Some (fst e)"
proof (induction w cs rule: resolve_loop.induct)
  case (2 name cmd_name d cs)
  show ?case
  proof (cases "e = (cmd_name, d)")
    case True
    with 2 show ?thesis by (auto simp: command_words_def)
  next
    case False
    then have e: "e \<in> set cs" using 2 by simp
    then have "name \<notin> set (command_words (cmd_name, d))" using 2 by auto
    then have "cmd_name \<noteq> name" "name \<notin> set (cd_aliases d)" by (auto simp: command_words_def)
    with 2 e show ?thesis by simp
  qed
qed simp

lemma resolve_loop_None: "resolve_loop w cs = None \<longleftrightarrow> (\<forall>e\<in>set cs. w \<notin> set (command_words e))"
  by (induction w cs rule: resolve_loop.induct) (auto simp: command_words_def)

text \<open>Every name and alias of the registry resolves to the command it belongs to, whatever its place
  in the table: no word names two commands.\<close>

theorem registry_unambiguous:
  assumes "e \<in> set get_commands" "w \<in> set (command_words e)"
  shows "resolve_alias w = Some (fst e)"
  using resolve_loop_known [OF registry_words_distinct assms] by (simp add: resolve_alias_def)

lemma registry_unambiguous_witness: "resolve_alias ''kickban'' = Some (fst (''kb'', CommandDef [''kickban''] Channel))"
  by (rule registry_unambiguous; code_simp)

section \<open>Parsing\<close>

text \<open>An alias is parsed exactly as the command it stands for: two words that resolve to the same
  registered command give the same arguments on every line.\<close>

theorem alias_parsed_like_command:
  assumes "resolve_alias (lc a) = Some c" "resolve_alias (lc b) = Some c" "CHR '' '' \<notin> set a" "CHR '' '' \<notin> set b"
  shows "map_option pc_args (parse_command lc shell_split (''/'' @ a @ '' '' @ rest)) =
     map_option pc_args (parse_command lc shell_split (''/'' @ b @ '' '' @ rest))"
  using assms split_once_append [of "CHR '' ''" _ rest]
  by (simp add: parse_command_def starts_with_def Let_def)

lemma alias_parsed_like_command_witness:
  "map_option pc_args (parse_command id (\<lambda>_. None) (''/'' @ ''m'' @ '' '' @ ''nick hello world'')) =
     map_option pc_args (parse_command id (\<lambda>_. None) (''/'' @ ''msg'' @ '' '' @ ''nick hello world''))"
  by (rule alias_parsed_like_command [where c = "''msg''"]; code_simp)

text \<open>What a command that takes a text is given is the text: for a greedy command the arguments
  joined with spaces are the trimmed rest of the line, and only the commands of one argument take
  it whole.\<close>

theorem greedy_keeps_text:
  assumes "canonical \<in> set GREEDY_COMMANDS"
  shows "join_with '' '' (command_args shell_split canonical rest) =
       (if canonical = ''shell'' then trim_start rest else trim rest)
     \<and> length (command_args shell_split canonical rest) \<le> 2"
proof -
  have "canonical \<noteq> ''bind'' \<and> canonical \<noteq> ''items'' \<and> canonical \<noteq> ''upload''"
    using assms by (auto simp: GREEDY_COMMANDS_def)
  moreover have "join_with '' '' (greedy_args canonical r) = r \<and> length (greedy_args canonical r) \<le> 2" for r
    using split_once_SomeD [of "CHR '' ''" r] by (auto simp: greedy_args_def split: option.split)
  ultimately show ?thesis using assms by (simp add: command_args_def Let_def)
qed

lemma greedy_keeps_text_witness:
  "join_with '' '' (command_args (\<lambda>_. None) ''msg'' '' nick hello  world '') =
      (if ''msg'' = ''shell'' then trim_start '' nick hello  world '' else trim '' nick hello  world '')
   \<and> length (command_args (\<lambda>_. None) ''msg'' '' nick hello  world '') \<le> 2"
  by (rule greedy_keeps_text) code_simp

end
