(* ===== verification/Command_Alias.thy ===== *)
theory Command_Alias
  imports Command_Parser
begin

text \<open>
  Running a command line: the built-in commands, the user's aliases with their templates
  (\<open>expand_alias_template\<close> in \<open>src/src/app/mod.rs\<close>) and the recursion of aliases into commands
  (\<open>execute_command_with_depth\<close> and \<open>handle_submit\<close> in \<open>src/src/app/input.rs\<close>).  What the dispatch calls
  on the application - the command handlers, the scripts, the plain message, the local event - is a
  record of functions on an application state \<open>'a\<close>, so that a handler may do anything, adding an
  alias included.
\<close>

section \<open>Templates\<close>

text \<open>
  \<open>expand_at\<close> is the loop from a position after a \<open>$\<close>: it takes a variable, an argument, or leaves the
  sign.
\<close>

definition alias_tokens :: "bytes \<Rightarrow> bytes \<Rightarrow> bytes \<Rightarrow> (bytes \<times> bytes) list" where
  "alias_tokens channel nick server =
     [(''{C}'', channel), (''C'', channel), (''{N}'', nick), (''N'', nick),
      (''{S}'', server), (''S'', server), (''{T}'', channel), (''T'', channel)]"

definition args_from :: "nat \<Rightarrow> bytes list \<Rightarrow> bytes" where
  "args_from i args = (if i \<le> length args then join_with '' '' (drop i args) else [])"

definition arg_at :: "nat \<Rightarrow> bytes list \<Rightarrow> bytes" where
  "arg_at i args = (if i < length args then args ! i else [])"

definition expand_one :: "(bytes \<times> bytes) list \<Rightarrow> bytes list \<Rightarrow> bytes \<Rightarrow> bytes \<times> bytes" where
  "expand_one tokens args remaining =
     (case find (\<lambda>(t, _). starts_with t remaining) tokens of
        Some (t, v) \<Rightarrow> (v, drop (length t) remaining)
      | None \<Rightarrow>
          if starts_with ''*'' remaining \<or> starts_with ''-'' remaining
          then (join_with '' '' args, drop 1 remaining)
          else case remaining of
            [] \<Rightarrow> (''$'', [])
          | c # cs \<Rightarrow>
              if is_ascii_digit c then
                (case strip_prefix ''-'' cs of
                   Some tail \<Rightarrow> (args_from (bval c - 48) args, tail)
                 | None \<Rightarrow> (arg_at (bval c - 48) args, cs))
              else (''$'', remaining))"

lemma expand_one_shorter: "length (snd (expand_one tokens args r)) \<le> length r"
  by (auto simp: expand_one_def strip_prefix_Some split: option.split list.split)

function expand_loop :: "(bytes \<times> bytes) list \<Rightarrow> bytes list \<Rightarrow> bytes \<Rightarrow> bytes" where
  "expand_loop tokens args remaining =
     (case split_once CHR ''$'' remaining of
        None \<Rightarrow> remaining
      | Some (before, r) \<Rightarrow>
          before @ fst (expand_one tokens args r) @ expand_loop tokens args (snd (expand_one tokens args r)))"
  by pat_completeness auto
termination
proof (relation "measure (\<lambda>(t, a, r). length r)")
  fix tokens :: "(bytes \<times> bytes) list" and args :: "bytes list" and remaining p before r
  assume "split_once CHR ''$'' remaining = Some p" "(before, r) = p"
  then have "length r < length remaining" using split_once_SomeD by fastforce
  then show "((tokens, args, snd (expand_one tokens args r)), tokens, args, remaining) \<in> measure (\<lambda>(t, a, r). length r)"
    using expand_one_shorter [of tokens args r] by simp
qed simp

declare expand_loop.simps [simp del]

definition expand_alias_template :: "bytes \<Rightarrow> bytes list \<Rightarrow> bytes \<Rightarrow> bytes \<Rightarrow> bytes \<Rightarrow> bytes" where
  "expand_alias_template template args channel nick server =
     (if CHR ''$'' \<notin> set template then trim (template @ '' '' @ join_with '' '' args)
      else trim (expand_loop (alias_tokens channel nick server) args template))"

section \<open>Dispatch\<close>

record 'a app_ops =
  op_log_mode :: "'a \<Rightarrow> bool"
  op_log_handler :: "bytes \<Rightarrow> bytes list \<Rightarrow> 'a \<Rightarrow> 'a"
  op_script_event :: "bytes \<Rightarrow> bytes \<Rightarrow> 'a \<Rightarrow> bool \<times> 'a"
  op_handler :: "bytes \<Rightarrow> bytes list \<Rightarrow> 'a \<Rightarrow> 'a"
  op_alias :: "'a \<Rightarrow> bytes \<Rightarrow> bytes option"
  op_context :: "'a \<Rightarrow> bytes \<times> bytes \<times> bytes"
  op_script_command :: "bytes \<Rightarrow> bytes list \<Rightarrow> 'a \<Rightarrow> bool \<times> 'a"
  op_plain :: "bytes \<Rightarrow> 'a \<Rightarrow> bool \<times> 'a"
  op_event :: "bytes \<Rightarrow> 'a \<Rightarrow> 'a"

definition MAX_ALIAS_DEPTH :: nat where "MAX_ALIAS_DEPTH = 10"

definition log_command :: "'a app_ops \<Rightarrow> parsed_command \<Rightarrow> 'a \<Rightarrow> 'a" where
  "log_command ops p app =
     (if pc_name p = ''search'' then op_log_handler ops ''search'' (pc_args p) app
      else if pc_name p = ''quit'' \<or> pc_name p = ''exit'' then op_log_handler ops ''quit'' (pc_args p) app
      else if pc_name p = ''help'' then op_log_handler ops ''help'' (pc_args p) app
      else op_event ops (''log mode: only /search, /quit, /help (got /'' @ pc_name p @ '')'') app)"

definition find_command :: "bytes \<Rightarrow> (bytes \<times> command_def) option" where
  "find_command name = find (\<lambda>(n, d). n = name \<or> name \<in> set (cd_aliases d)) get_commands"

text \<open>The template as it is run: its parts, each with the arguments it gets.\<close>

definition alias_parts :: "bytes \<Rightarrow> bytes list" where
  "alias_parts template =
     (let t = (if CHR ''$'' \<in> set template then template else template @ '' $*'')
      in filter (\<lambda>s. s \<noteq> []) (map trim (split_on CHR '';'' t)))"

definition part_args :: "bytes list \<Rightarrow> bytes \<Rightarrow> bytes list" where
  "part_args args part = (if CHR ''$'' \<in> set part then args else [])"

text \<open>
  \<open>execute_command_with_depth\<close>: the first argument is how many levels are left, \<open>MAX_ALIAS_DEPTH + 1\<close>
  minus the depth, so that 0 stands for a depth above the limit.
\<close>

primrec execute_command_with_depth ::
  "nat \<Rightarrow> (bytes \<Rightarrow> bytes) \<Rightarrow> (bytes \<Rightarrow> bytes list option) \<Rightarrow> 'a app_ops \<Rightarrow> parsed_command \<Rightarrow> 'a \<Rightarrow> 'a"
where
  "execute_command_with_depth 0 lc sh ops p app =
     op_event ops (''Alias recursion limit reached (max 10)'') app"
| "execute_command_with_depth (Suc n) lc sh ops p app =
     (if op_log_mode ops app then log_command ops p app
      else
        let (suppressed, app1) = op_script_event ops (pc_name p) (join_with '' '' (pc_args p)) app in
        if suppressed then app1
        else case find_command (pc_name p) of
          Some (canonical, _) \<Rightarrow> op_handler ops canonical (pc_args p) app1
        | None \<Rightarrow>
            (case op_alias ops app1 (pc_name p) of
               Some template \<Rightarrow>
                 (let (channel, nick, server) = op_context ops app1 in
                  fold (\<lambda>part a.
                          let expanded = expand_alias_template part (part_args (pc_args p) part) channel nick server in
                          if expanded = [] then a
                          else case parse_command lc sh expanded of
                            Some q \<Rightarrow> execute_command_with_depth n lc sh ops q a
                          | None \<Rightarrow> snd (op_plain ops expanded a))
                    (alias_parts template) app1)
             | None \<Rightarrow>
                 (let (handled, app2) = op_script_command ops (pc_name p) (pc_args p) app1 in
                  if handled then app2
                  else op_event ops (''Unknown command: /'' @ pc_name p @ ''. Type /help for a list.'') app2)))"

definition execute_command ::
  "(bytes \<Rightarrow> bytes) \<Rightarrow> (bytes \<Rightarrow> bytes list option) \<Rightarrow> 'a app_ops \<Rightarrow> parsed_command \<Rightarrow> 'a \<Rightarrow> 'a" where
  "execute_command lc sh ops p app = execute_command_with_depth (MAX_ALIAS_DEPTH + 1) lc sh ops p app"

text \<open>\<open>handle_submit\<close>: whether a message went out, and the application after it.  The scroll position and
  the snapshot flag it resets are not modelled.\<close>

definition handle_submit ::
  "(bytes \<Rightarrow> bytes) \<Rightarrow> (bytes \<Rightarrow> bytes list option) \<Rightarrow> 'a app_ops \<Rightarrow> bytes \<Rightarrow> 'a \<Rightarrow> bool \<times> 'a" where
  "handle_submit lc sh ops txt app =
     (case parse_command lc sh txt of
        Some p \<Rightarrow> (False, execute_command lc sh ops p app)
      | None \<Rightarrow>
          if op_log_mode ops app then (False, op_event ops ''log mode: only slash commands. /help'' app)
          else op_plain ops txt app)"

section \<open>What a template means\<close>

text \<open>A template as its pieces: text, the variables (plain or in braces; the target is the channel), all
  arguments in either spelling, one argument, the arguments from one on, and a dollar sign that stands
  for itself.\<close>

datatype piece = Text bytes | ChannelVar bool | NickVar bool | ServerVar bool | TargetVar bool
  | AllArgs | DashArgs | ArgNo nat | ArgsFrom nat | Dollar

definition digit :: "nat \<Rightarrow> byte" where
  "digit i = byte_of (48 + i)"

definition braced :: "bool \<Rightarrow> bytes \<Rightarrow> bytes" where
  "braced b v = (if b then ''{'' @ v @ ''}'' else v)"

fun piece_text :: "piece \<Rightarrow> bytes" where
  "piece_text (Text t) = t"
| "piece_text (ChannelVar b) = ''$'' @ braced b ''C''"
| "piece_text (NickVar b) = ''$'' @ braced b ''N''"
| "piece_text (ServerVar b) = ''$'' @ braced b ''S''"
| "piece_text (TargetVar b) = ''$'' @ braced b ''T''"
| "piece_text AllArgs = ''$*''"
| "piece_text DashArgs = ''$-''"
| "piece_text (ArgNo i) = [CHR ''$'', digit i]"
| "piece_text (ArgsFrom i) = [CHR ''$'', digit i, CHR ''-'']"
| "piece_text Dollar = ''$''"

fun piece_value :: "bytes list \<Rightarrow> bytes \<Rightarrow> bytes \<Rightarrow> bytes \<Rightarrow> piece \<Rightarrow> bytes" where
  "piece_value args ch nick srv (Text t) = t"
| "piece_value args ch nick srv (ChannelVar b) = ch"
| "piece_value args ch nick srv (NickVar b) = nick"
| "piece_value args ch nick srv (ServerVar b) = srv"
| "piece_value args ch nick srv (TargetVar b) = ch"
| "piece_value args ch nick srv AllArgs = join_with '' '' args"
| "piece_value args ch nick srv DashArgs = join_with '' '' args"
| "piece_value args ch nick srv (ArgNo i) = (if i < length args then args ! i else [])"
| "piece_value args ch nick srv (ArgsFrom i) = join_with '' '' (drop i args)"
| "piece_value args ch nick srv Dollar = ''$''"

abbreviation template_text :: "piece list \<Rightarrow> bytes" where
  "template_text ps \<equiv> concat (map piece_text ps)"

text \<open>What gives the dollar sign before it a meaning.\<close>

definition starts_var :: "bytes \<Rightarrow> bool" where
  "starts_var r \<longleftrightarrow>
     list_ex (\<lambda>v. starts_with v r) [''C'', ''N'', ''S'', ''T'', ''{C}'', ''{N}'', ''{S}'', ''{T}'', ''*'', ''-'']
     \<or> (r \<noteq> [] \<and> is_ascii_digit (hd r))"

text \<open>The pieces can be told apart in the text: no dollar sign in the text between them, one digit per argument
  and no minus after it, and a dollar sign stands for itself before anything else.\<close>

fun pieces_ok :: "piece list \<Rightarrow> bool" where
  "pieces_ok [] = True"
| "pieces_ok (Text t # ps) = (CHR ''$'' \<notin> set t \<and> pieces_ok ps)"
| "pieces_ok (ArgNo i # ps) = (i < 10 \<and> \<not> starts_with ''-'' (template_text ps) \<and> pieces_ok ps)"
| "pieces_ok (ArgsFrom i # ps) = (i < 10 \<and> pieces_ok ps)"
| "pieces_ok (Dollar # ps) = (\<not> starts_var (template_text ps) \<and> pieces_ok ps)"
| "pieces_ok (p # ps) = pieces_ok ps"

lemma expand_loop_text: "CHR ''$'' \<notin> set t \<Longrightarrow> expand_loop toks args (t @ r) = t @ expand_loop toks args r"
proof -
  assume t: "CHR ''$'' \<notin> set t"
  have s: "split_once CHR ''$'' (t @ r) = map_option (\<lambda>(a, b). (t @ a, b)) (split_once CHR ''$'' r)"
    using t
  proof (induction t)
    case (Cons c t)
    then show ?case by (cases "split_once CHR ''$'' r") auto
  qed (cases "split_once CHR ''$'' r"; simp)
  show ?thesis by (subst (1 2) expand_loop.simps) (simp add: s split: option.split prod.split)
qed

lemma expand_loop_var:
  "expand_loop toks args (CHR ''$'' # r) = fst (expand_one toks args r) @ expand_loop toks args (snd (expand_one toks args r))"
  by (subst expand_loop.simps) simp

lemma expand_loop_Nil: "expand_loop toks args [] = []"
  by (subst expand_loop.simps) simp

lemma expand_one_vars:
  "expand_one (alias_tokens ch nick srv) args (braced b ''C'' @ r) = (ch, r)"
  "expand_one (alias_tokens ch nick srv) args (braced b ''N'' @ r) = (nick, r)"
  "expand_one (alias_tokens ch nick srv) args (braced b ''S'' @ r) = (srv, r)"
  "expand_one (alias_tokens ch nick srv) args (braced b ''T'' @ r) = (ch, r)"
  "expand_one (alias_tokens ch nick srv) args (CHR ''*'' # r) = (join_with '' '' args, r)"
  "expand_one (alias_tokens ch nick srv) args (CHR ''-'' # r) = (join_with '' '' args, r)"
  by (simp_all add: expand_one_def alias_tokens_def starts_with_def braced_def)

lemma expand_one_dollar:
  "\<not> starts_var r \<Longrightarrow> expand_one (alias_tokens ch nick srv) args r = (''$'', r)"
  by (cases r) (auto simp: expand_one_def alias_tokens_def starts_var_def)

lemma digit_props:
  "i < 10 \<Longrightarrow> is_ascii_digit (digit i) \<and> bval (digit i) - 48 = i \<and> (\<forall>c\<in>set ''{CNST*-''. c \<noteq> digit i)"
proof -
  assume "i < 10"
  then have "bval (digit i) = 48 + i" by (simp add: digit_def bval_byte_of)
  moreover from this have "c \<noteq> digit i" if "c \<in> set ''{CNST*-''" for c
    using that \<open>i < 10\<close> by auto
  ultimately show ?thesis using \<open>i < 10\<close> by (simp add: is_ascii_digit_def)
qed

lemma expand_one_digit:
  assumes "i < 10"
  shows "expand_one (alias_tokens ch nick srv) args (digit i # r) =
     (case strip_prefix ''-'' r of Some tail \<Rightarrow> (args_from i args, tail) | None \<Rightarrow> (arg_at i args, r))"
  using digit_props [OF assms] by (simp add: expand_one_def alias_tokens_def starts_with_def split: option.split)

lemma args_from_drop: "args_from i args = join_with '' '' (drop i args)"
  by (simp add: args_from_def)

lemma expand_loop_pieces:
  "pieces_ok ps \<Longrightarrow>
     expand_loop (alias_tokens ch nick srv) args (template_text ps) = concat (map (piece_value args ch nick srv) ps)"
proof (induction ps rule: pieces_ok.induct)
  case (3 i ps)
  then have "strip_prefix ''-'' (template_text ps) = None" by (simp add: starts_with_def)
  with 3 show ?case by (simp add: expand_loop_var expand_one_digit arg_at_def)
qed (simp_all add: expand_loop_var expand_one_vars expand_one_dollar expand_loop_text expand_loop_Nil
    expand_one_digit args_from_drop)

text \<open>Every template is such a sequence of pieces.\<close>

lemma starts_var_piece:
  assumes "starts_var r" "\<And>t. length t < length r \<Longrightarrow> \<exists>ps. pieces_ok ps \<and> template_text ps = t"
  shows "\<exists>ps. pieces_ok ps \<and> template_text ps = CHR ''$'' # r"
proof -
  have one: "\<exists>ps. pieces_ok ps \<and> template_text ps = CHR ''$'' # r"
    if "r = piece_rest @ t" "piece_text p = CHR ''$'' # piece_rest" "piece_rest \<noteq> []"
      "\<And>ps. pieces_ok ps \<Longrightarrow> template_text ps = t \<Longrightarrow> pieces_ok (p # ps)" for p piece_rest t
  proof -
    from that(1,3) have "length t < length r" by simp
    from assms(2) [OF this] obtain ps where "pieces_ok ps" "template_text ps = t" by blast
    with that show ?thesis by (intro exI [of _ "p # ps"]) simp
  qed
  show ?thesis
  proof (cases "r \<noteq> [] \<and> is_ascii_digit (hd r)")
    case True
    then obtain c t where r: "r = c # t" "is_ascii_digit c" by (cases r) auto
    let ?i = "bval c - 48"
    have i: "?i < 10" "digit ?i = c" using r(2) by (auto simp: is_ascii_digit_def digit_def byte_of_def)
    show ?thesis
    proof (cases "strip_prefix ''-'' t")
      case None
      then have "pieces_ok ps \<Longrightarrow> template_text ps = t \<Longrightarrow> pieces_ok (ArgNo ?i # ps)" for ps
        using i by (simp add: starts_with_def)
      then show ?thesis using r i by (intro one [of "[c]" t "ArgNo ?i"]) simp_all
    next
      case (Some u)
      then have "t = CHR ''-'' # u" by (simp add: strip_prefix_Some)
      then show ?thesis using r i by (intro one [of "[c, CHR ''-'']" u "ArgsFrom ?i"]) simp_all
    qed
  next
    case False
    have var: ?thesis if "r = braced b v @ t" "v \<in> {''C'', ''N'', ''S'', ''T''}" for b v t
      using that one [of "braced b v" t "ChannelVar b"] one [of "braced b v" t "NickVar b"]
        one [of "braced b v" t "ServerVar b"] one [of "braced b v" t "TargetVar b"] by (auto simp: braced_def)
    from False assms(1) obtain w where w: "starts_with w r"
      "w \<in> set [''C'', ''N'', ''S'', ''T'', ''{C}'', ''{N}'', ''{S}'', ''{T}'', ''*'', ''-'']"
      by (simp only: starts_var_def list_ex_iff) blast
    from w(1) obtain t where t: "r = w @ t" by (auto simp: starts_with_def strip_prefix_Some)
    from w(2) t show ?thesis
      using var [of False w t] var [of True "[w ! 1]" t] one [of "''*''" t AllArgs] one [of "''-''" t DashArgs]
      by (auto simp: braced_def)
  qed
qed

lemma every_template_has_pieces: "\<exists>ps. pieces_ok ps \<and> template_text ps = t"
proof (induction t rule: length_induct)
  case (1 t)
  show ?case
  proof (cases "split_once CHR ''$'' t")
    case None
    then have "CHR ''$'' \<notin> set t" by (induction t) (auto split: if_splits)
    then show ?thesis by (intro exI [of _ "[Text t]"]) simp
  next
    case (Some p)
    then obtain a r where t: "t = a @ CHR ''$'' # r" "CHR ''$'' \<notin> set a"
      using split_once_SomeD by (cases p) blast
    have shorter: "\<exists>ps. pieces_ok ps \<and> template_text ps = u" if "length u \<le> length r" for u
      using 1 that t(1) by simp
    have "\<exists>ps. pieces_ok ps \<and> template_text ps = CHR ''$'' # r"
    proof (cases "starts_var r")
      case True
      then show ?thesis using shorter by (intro starts_var_piece) simp_all
    next
      case False
      from shorter [of r] obtain ps where "pieces_ok ps" "template_text ps = r" by blast
      with False show ?thesis by (intro exI [of _ "Dollar # ps"]) simp
    qed
    then obtain ps where "pieces_ok ps" "template_text ps = CHR ''$'' # r" by blast
    with t show ?thesis by (intro exI [of _ "Text a # ps"]) simp
  qed
qed

text \<open>C27: Expanding a template is filling in its pieces, once: the variables, in braces or not, stand for the
  channel, the nick and the server, a star or a minus for all arguments, a digit for one argument and a digit
  with a minus for the arguments from it on, a dollar sign before anything else for itself; the text between
  them stays, and what an argument brings in is not expanded again.  Every template is made of such pieces.\<close>

theorem expand_fills_pieces:
  shows "(\<forall>ps. pieces_ok ps \<longrightarrow>
      expand_loop (alias_tokens ch nick srv) args (template_text ps) = concat (map (piece_value args ch nick srv) ps))
    \<and> (\<forall>t. \<exists>ps. pieces_ok ps \<and> template_text ps = t)"
  using expand_loop_pieces every_template_has_pieces by blast

theorem expand_fills_pieces_witness:
  "expand_loop (alias_tokens ''#c'' ''me'' ''net'') [''$1'', ''b'', ''c''] ''/msg ${T} $0: $1- ($N@${S}) 5$ $x $-''
     = ''/msg #c $1: b c (me@net) 5$ $x $1 b c''"
proof -
  let ?ps = "[Text ''/msg '', TargetVar True, Text '' '', ArgNo 0, Text '': '', ArgsFrom 1, Text '' ('', NickVar False,
    Text ''@'', ServerVar True, Text '') 5'', Dollar, Text '' '', Dollar, Text ''x '', DashArgs]"
  have "pieces_ok ?ps" by code_simp
  then have "expand_loop (alias_tokens ''#c'' ''me'' ''net'') [''$1'', ''b'', ''c''] (template_text ?ps)
      = concat (map (piece_value [''$1'', ''b'', ''c''] ''#c'' ''me'' ''net'') ?ps)"
    using expand_fills_pieces by blast
  moreover have "template_text ?ps = ''/msg ${T} $0: $1- ($N@${S}) 5$ $x $-''" by code_simp
  moreover have "concat (map (piece_value [''$1'', ''b'', ''c''] ''#c'' ''me'' ''net'') ?ps)
      = ''/msg #c $1: b c (me@net) 5$ $x $1 b c''" by code_simp
  ultimately show ?thesis by (simp only:)
qed

section \<open>Commands, aliases, recursion\<close>




definition counting_ops :: "nat app_ops" where
  "counting_ops = \<lparr>op_log_mode = \<lambda>_. False, op_log_handler = \<lambda>_ _. id, op_script_event = \<lambda>_ _ a. (False, a),
     op_handler = \<lambda>_ _ a. a + 100, op_alias = \<lambda>_ name. if name = ''x'' then Some ''/x;/x'' else None,
     op_context = \<lambda>_. ([], [], []), op_script_command = \<lambda>_ _ a. (False, a), op_plain = \<lambda>_ a. (True, a),
     op_event = \<lambda>_ a. a + 1\<rparr>"


text \<open>The limit is on the depth: an alias that calls itself twice still runs, and reports, twice per level.\<close>

definition doubling :: "'a app_ops \<Rightarrow> bool" where
  "doubling ops \<longleftrightarrow>
     (\<forall>app. \<not> op_log_mode ops app) \<and> (\<forall>n a app. op_script_event ops n a app = (False, app))
     \<and> (\<forall>app. op_alias ops app ''x'' = Some ''/x;/x'')"

lemma doubling_parts:
  "alias_parts ''/x;/x'' = [''/x'', ''/x $*'']" "find_command ''x'' = None"
  "part_args args ''/x'' = []" "part_args args ''/x $*'' = args"
  by code_simp+

lemma doubling_expands:
  "expand_alias_template ''/x'' [] ch nick srv = ''/x''" "expand_alias_template ''/x $*'' [] ch nick srv = ''/x''"
proof -
  show "expand_alias_template ''/x'' [] ch nick srv = ''/x''" unfolding expand_alias_template_def by code_simp
  have "expand_loop (alias_tokens ch nick srv) [] ''/x $*'' = ''/x ''"
    by (simp add: expand_loop_text [of "''/x ''", simplified] expand_loop_var expand_one_vars expand_loop_Nil)
  moreover have "trim ''/x '' = ''/x''" "CHR ''$'' \<in> set ''/x $*''" by code_simp+
  ultimately show "expand_alias_template ''/x $*'' [] ch nick srv = ''/x''"
    by (simp add: expand_alias_template_def)
qed

text \<open>The recursion limit bounds the depth of aliases, not the work: an alias \<open>x\<close> with the template
  \<open>/x;/x\<close> ends, after as many limit notices as two to the number of levels.\<close>

theorem alias_limit_is_on_depth:
  assumes "doubling ops" "lc ''x'' = ''x''"
  shows "execute_command_with_depth n lc sh ops \<lparr>pc_name = ''x'', pc_args = []\<rparr> app
     = (op_event ops ''Alias recursion limit reached (max 10)'' ^^ (2 ^ n)) app"
proof (induction n arbitrary: app)
  case (Suc n)
  obtain ch nick srv where c: "op_context ops app = (ch, nick, srv)" by (cases "op_context ops app") auto
  have p: "parse_command lc sh ''/x'' = Some \<lparr>pc_name = ''x'', pc_args = []\<rparr>"
    using assms(2) by (simp add: parse_command_def starts_with_def)
  have "execute_command_with_depth (Suc n) lc sh ops \<lparr>pc_name = ''x'', pc_args = []\<rparr> app =
      execute_command_with_depth n lc sh ops \<lparr>pc_name = ''x'', pc_args = []\<rparr>
        (execute_command_with_depth n lc sh ops \<lparr>pc_name = ''x'', pc_args = []\<rparr> app)"
    using assms(1) by (simp add: doubling_def doubling_parts c doubling_expands p)
  then show ?case by (simp only: Suc.IH funpow_add [THEN fun_cong, simplified, symmetric] mult_2 power_Suc)
qed simp

lemma alias_limit_is_on_depth_witness:
  "execute_command_with_depth 11 id (\<lambda>_. None) counting_ops \<lparr>pc_name = ''x'', pc_args = []\<rparr> 0
   = (op_event counting_ops ''Alias recursion limit reached (max 10)'' ^^ (2 ^ 11)) 0"
  by (rule alias_limit_is_on_depth) (simp_all add: doubling_def counting_ops_def)

end
