(* ===== verification/State_Buffer.thy ===== *)
theory State_Buffer
  imports Rust_Text Rust_Map "HOL-Library.Multiset" "HOL-Library.List_Lexorder" "HOL-Library.Char_ord" "HOL-Library.Product_Lexorder"
begin

text \<open>
  Buffers, messages and nicks (\<open>src/src/state/buffer.rs\<close>), the metadata flags of a conversation
  (\<open>src/src/irc/metadata.rs\<close>) and the order in which buffers and nicks are shown
  (\<open>src/src/state/sorting.rs\<close>).  A \<open>DateTime\<close> is its distance in nanoseconds from the Unix epoch, an
  \<open>Arc\<close> the address of what it points to; \<open>str::to_lowercase\<close> is the argument \<open>lc\<close>.
\<close>

section \<open>Kinds\<close>

datatype buffer_type = Mentions | Server | Channel | Query | DccChat | Special | Shell | Log

fun sort_group :: "buffer_type \<Rightarrow> nat" where
  "sort_group Mentions = 0"
| "sort_group Server = 1"
| "sort_group Channel = 2"
| "sort_group Log = 2"
| "sort_group Query = 3"
| "sort_group DccChat = 4"
| "sort_group Special = 5"
| "sort_group Shell = 6"

datatype activity_level = NoActivity | Events | Highlight | Activity | Mention

fun activity_rank :: "activity_level \<Rightarrow> nat" where
  "activity_rank NoActivity = 0"
| "activity_rank Events = 1"
| "activity_rank Highlight = 2"
| "activity_rank Activity = 3"
| "activity_rank Mention = 4"

instantiation activity_level :: linorder
begin

definition less_eq_activity_level :: "activity_level \<Rightarrow> activity_level \<Rightarrow> bool" where
  "less_eq_activity_level a b \<longleftrightarrow> activity_rank a \<le> activity_rank b"

definition less_activity_level :: "activity_level \<Rightarrow> activity_level \<Rightarrow> bool" where
  "less_activity_level a b \<longleftrightarrow> activity_rank a < activity_rank b"

lemma activity_rank_inj: "activity_rank a = activity_rank b \<Longrightarrow> a = b"
  by (cases a; cases b) simp_all

instance
  by standard (auto simp: less_eq_activity_level_def less_activity_level_def activity_rank_inj)

end

datatype message_type = MtMessage | MtAction | MtEvent | MtNotice | MtMentionLog

fun message_type_str :: "message_type \<Rightarrow> bytes" where
  "message_type_str MtMessage = ''message''"
| "message_type_str MtAction = ''action''"
| "message_type_str MtEvent = ''event''"
| "message_type_str MtNotice = ''notice''"
| "message_type_str MtMentionLog = ''mention_log''"

section \<open>Messages and nicks\<close>

record wire_origin =
  wo_text :: bytes
  suffix_at :: "nat option"

record message =
  m_id :: nat
  m_timestamp :: int
  m_type :: message_type
  m_nick :: "bytes option"
  m_nick_mode :: "bytes option"
  m_text :: bytes
  m_highlight :: bool
  m_event_key :: "bytes option"
  m_event_params :: "bytes list option"
  m_log_msg_id :: "bytes option"
  m_log_ref_id :: "bytes option"
  m_tags :: "(bytes, bytes) hmap option"
  m_wire_origin :: "wire_origin option"
  m_translation_suffix_at :: "nat option"
  m_log_key :: "bytes option"
  m_redaction_msgid :: "bytes option"
  m_redaction_ref :: "nat option"

record nick_entry =
  ne_realname :: "bytes option"
  ne_nick :: bytes
  ne_prefix :: bytes
  ne_modes :: bytes
  ne_away :: bool
  ne_account :: "bytes option"
  ne_ident :: "bytes option"
  ne_host :: "bytes option"

record list_entry =
  le_mask :: bytes
  le_set_by :: bytes
  le_set_at :: int

section \<open>Metadata flags\<close>

datatype metadata_key = Pinned | Muted | Blocked

fun metadata_wire :: "metadata_key \<Rightarrow> bytes" where
  "metadata_wire Pinned = ''soju.im/pinned''"
| "metadata_wire Muted = ''soju.im/muted''"
| "metadata_wire Blocked = ''soju.im/blocked''"

definition metadata_keys :: "metadata_key list" where
  "metadata_keys = [Pinned, Muted, Blocked]"

definition metadata_parse :: "bytes \<Rightarrow> metadata_key option" where
  "metadata_parse v = find (\<lambda>k. eq_ignore_ascii_case (metadata_wire k) v) metadata_keys"

record metadata_flags =
  pinned :: bool
  muted :: bool
  blocked :: bool

definition no_flags :: metadata_flags where
  "no_flags = \<lparr>pinned = False, muted = False, blocked = False\<rparr>"

fun flags_set :: "metadata_key \<Rightarrow> bool \<Rightarrow> metadata_flags \<Rightarrow> metadata_flags" where
  "flags_set Pinned v f = f\<lparr>pinned := v\<rparr>"
| "flags_set Muted v f = f\<lparr>muted := v\<rparr>"
| "flags_set Blocked v f = f\<lparr>blocked := v\<rparr>"

section \<open>Buffers\<close>

definition LAST_SPEAKERS_CAP :: nat where "LAST_SPEAKERS_CAP = 50"

record buffer =
  b_id :: bytes
  b_connection_id :: bytes
  b_type :: buffer_type
  b_name :: bytes
  b_messages :: "message list"
  b_activity :: activity_level
  b_unread_count :: nat
  b_last_read :: int
  b_topic :: "bytes option"
  b_topic_set_by :: "bytes option"
  b_users :: "(bytes, nick_entry) hmap"
  b_modes :: "bytes option"
  b_mode_params :: "(bytes, bytes) hmap option"
  b_list_modes :: "(bytes, list_entry list) hmap"
  b_last_speakers :: "bytes list"
  b_peer_handle :: "bytes option"
  b_log_total_lines :: "nat option"
  b_log_oldest_ts :: "int option"
  b_log_newest_ts :: "int option"
  b_history_exhausted :: bool
  b_log_initial_loaded :: bool
  b_pin_backlog :: bool
  b_metadata :: metadata_flags

definition make_buffer_id :: "(bytes \<Rightarrow> bytes) \<Rightarrow> bytes \<Rightarrow> bytes \<Rightarrow> bytes" where
  "make_buffer_id lc connection_id name = connection_id @ ''/'' @ lc name"

definition buffer_empty :: "(bytes \<Rightarrow> bytes) \<Rightarrow> int \<Rightarrow> bytes \<Rightarrow> buffer_type \<Rightarrow> bytes \<Rightarrow> buffer" where
  "buffer_empty lc now conn_id bt name =
     \<lparr>b_id = make_buffer_id lc conn_id name, b_connection_id = conn_id, b_type = bt, b_name = name,
      b_messages = [], b_activity = NoActivity, b_unread_count = 0, b_last_read = now, b_topic = None,
      b_topic_set_by = None, b_users = [], b_modes = None, b_mode_params = None, b_list_modes = [],
      b_last_speakers = [], b_peer_handle = None, b_log_total_lines = None, b_log_oldest_ts = None,
      b_log_newest_ts = None, b_history_exhausted = False, b_log_initial_loaded = False,
      b_pin_backlog = False, b_metadata = no_flags\<rparr>"

definition touch_speaker :: "(bytes \<Rightarrow> bytes) \<Rightarrow> bytes \<Rightarrow> buffer \<Rightarrow> buffer" where
  "touch_speaker lc nick b =
     b\<lparr>b_last_speakers := take LAST_SPEAKERS_CAP (nick # filter (\<lambda>n. lc n \<noteq> lc nick) (b_last_speakers b))\<rparr>"

section \<open>Sorting\<close>

definition metadata_rank :: "buffer \<Rightarrow> nat \<times> nat \<times> nat" where
  "metadata_rank b =
     (let group = sort_group (b_type b);
          conversation = (b_type b = Channel \<or> b_type b = Query)
      in (if conversation then 2 else group,
          if conversation \<and> pinned (b_metadata b) then 0
          else if conversation \<and> muted (b_metadata b) then 2 else 1,
          group))"

text \<open>\<open>sort_by\<close> is stable; the mentions come first because \<open>true\<close> is compared on the right.\<close>

definition buffer_key :: "(bytes \<Rightarrow> bytes) \<Rightarrow> (bytes \<Rightarrow> bytes) \<Rightarrow> buffer \<Rightarrow> bool \<times> bytes \<times> (nat \<times> nat \<times> nat) \<times> bytes" where
  "buffer_key lc label_fn b =
     (b_type b \<noteq> Mentions, lc (label_fn (b_connection_id b)), metadata_rank b, lc (b_name b))"

definition sort_buffers :: "(bytes \<Rightarrow> bytes) \<Rightarrow> (bytes \<Rightarrow> bytes) \<Rightarrow> buffer list \<Rightarrow> buffer list" where
  "sort_buffers lc label_fn bs = sort_key (buffer_key lc label_fn) bs"

definition DEFAULT_PREFIX_ORDER :: bytes where
  "DEFAULT_PREFIX_ORDER = [CHR 0x7E, CHR ''&'', CHR ''@'', CHR ''%'', CHR ''+'']"

text \<open>\<open>str::find\<close> of a character, at the byte offset it starts at.\<close>

fun find_char :: "bytes \<Rightarrow> bytes \<Rightarrow> nat option" where
  "find_char ch [] = None"
| "find_char ch (c # cs) =
     (if starts_with ch (c # cs) then Some 0 else map_option Suc (find_char ch cs))"

definition prefix_rank :: "bytes \<Rightarrow> bytes \<Rightarrow> nat" where
  "prefix_rank pfx order =
     (case chars_of pfx of
        [] \<Rightarrow> length order
      | ch # _ \<Rightarrow> unwrap_or (length order) (find_char ch order))"

definition nick_key :: "(bytes \<Rightarrow> bytes) \<Rightarrow> bytes \<Rightarrow> nick_entry \<Rightarrow> nat \<times> bytes" where
  "nick_key lc order n = (prefix_rank (ne_prefix n) order, lc (ne_nick n))"

definition sort_nicks :: "(bytes \<Rightarrow> bytes) \<Rightarrow> nick_entry list \<Rightarrow> bytes \<Rightarrow> nick_entry list" where
  "sort_nicks lc nicks order = sort_key (nick_key lc order) nicks"

section \<open>Facts\<close>

text \<open>The recent speakers: at most 50, no nick twice in any case, the latest first.\<close>

definition speakers_ok :: "(bytes \<Rightarrow> bytes) \<Rightarrow> buffer \<Rightarrow> bool" where
  "speakers_ok lc b \<longleftrightarrow> length (b_last_speakers b) \<le> LAST_SPEAKERS_CAP \<and> distinct (map lc (b_last_speakers b))"

lemma distinct_map_take: "distinct (map f xs) \<Longrightarrow> distinct (map f (take n xs))"
  by (simp add: take_map [symmetric])

lemma speakers_ok_touch:
  "speakers_ok lc b \<Longrightarrow> speakers_ok lc (touch_speaker lc nick b) \<and> hd (b_last_speakers (touch_speaker lc nick b)) = nick"
proof -
  assume "speakers_ok lc b"
  then have "distinct (map lc (nick # filter (\<lambda>n. lc n \<noteq> lc nick) (b_last_speakers b)))"
    by (auto simp: speakers_ok_def distinct_map_filter)
  then have "distinct (map lc (take LAST_SPEAKERS_CAP (nick # filter (\<lambda>n. lc n \<noteq> lc nick) (b_last_speakers b))))"
    by (rule distinct_map_take)
  then show ?thesis by (simp add: speakers_ok_def touch_speaker_def LAST_SPEAKERS_CAP_def)
qed

lemma sort_nicks_sorted:
  "mset (sort_nicks lc nicks order) = mset nicks" "sorted (map (nick_key lc order) (sort_nicks lc nicks order))"
  by (simp_all add: sort_nicks_def)

text \<open>The buffer list is a rearrangement of the buffers in which the mentions buffer comes before every
  other one, and within a connection no server or special buffer is mixed into the conversations:
  the pinned conversations precede the plain ones and those the muted ones.\<close>

lemma sort_buffers_order:
  "mset (sort_buffers lc label_fn bs) = mset bs
   \<and> sorted_wrt (\<lambda>a b. (b_type b = Mentions \<longrightarrow> b_type a = Mentions)
        \<and> (b_type a \<noteq> Mentions \<and> lc (label_fn (b_connection_id a)) = lc (label_fn (b_connection_id b))
             \<longrightarrow> b_type b \<noteq> Mentions \<and> metadata_rank a \<le> metadata_rank b))
      (sort_buffers lc label_fn bs)"
proof -
  have "sorted_wrt (\<lambda>a b. buffer_key lc label_fn a \<le> buffer_key lc label_fn b) (sort_buffers lc label_fn bs)"
    using sorted_sort_key [of "buffer_key lc label_fn" bs] by (simp add: sort_buffers_def sorted_map)
  then have "sorted_wrt (\<lambda>a b. (b_type b = Mentions \<longrightarrow> b_type a = Mentions)
        \<and> (b_type a \<noteq> Mentions \<and> lc (label_fn (b_connection_id a)) = lc (label_fn (b_connection_id b))
             \<longrightarrow> b_type b \<noteq> Mentions \<and> metadata_rank a \<le> metadata_rank b))
      (sort_buffers lc label_fn bs)"
    by (rule sorted_wrt_mono_rel [rotated]) (auto simp: buffer_key_def)
  then show ?thesis by (simp add: sort_buffers_def)
qed

end
