(* ===== verification/Translate_Queue.thy ===== *)
theory Translate_Queue
  imports State_Buffer Rust_Time
begin

text \<open>
  Translation outcomes (\<open>src/src/translate/mod.rs\<close>) and the reorder queue of a buffer
  (\<open>src/src/translate/queue.rs\<close>): lines are translated concurrently and shown in the order they
  arrived.  An entry's slot is empty in the code only inside \<open>resolve\<close>, so here it is always there.
\<close>

section \<open>Outcomes\<close>

datatype untranslated_reason = Filtered | QualityGate | DailyLimit | NoProvider | Timeout | Error bytes

definition is_gap :: "untranslated_reason \<Rightarrow> bool" where
  "is_gap r \<longleftrightarrow> r \<noteq> Filtered"

fun reason_label :: "untranslated_reason \<Rightarrow> bytes" where
  "reason_label Filtered = ''filtered''"
| "reason_label QualityGate = ''quality gate''"
| "reason_label DailyLimit = ''daily limit''"
| "reason_label NoProvider = ''no provider''"
| "reason_label Timeout = ''timeout''"
| "reason_label (Error e) = ''error: '' @ e"

record lang_pair =
  lp_buffer :: "bytes option"
  lp_mine :: bytes

record translate_buffer_config =
  tb_incoming :: bool
  tb_outgoing :: bool
  tb_lang :: "bytes option"
  tb_my_lang :: "bytes option"

definition lang_incoming :: "lang_pair \<Rightarrow> bytes option \<times> bytes" where
  "lang_incoming p = (lp_buffer p, lp_mine p)"

definition lang_outgoing :: "lang_pair \<Rightarrow> (bytes option \<times> bytes) option" where
  "lang_outgoing p = (case lp_buffer p of None \<Rightarrow> None | Some target \<Rightarrow> Some (Some (lp_mine p), target))"

definition resolve_langs :: "translate_buffer_config option \<Rightarrow> bytes \<Rightarrow> lang_pair" where
  "resolve_langs cfg global_my_lang =
     \<lparr>lp_buffer = (case cfg of None \<Rightarrow> None | Some c \<Rightarrow> tb_lang c),
      lp_mine = unwrap_or global_my_lang (case cfg of None \<Rightarrow> None | Some c \<Rightarrow> tb_my_lang c)\<rparr>"

definition mark_untranslated :: "bytes \<Rightarrow> untranslated_reason \<Rightarrow> bytes \<times> nat option" where
  "mark_untranslated original reason =
     (if \<not> is_gap reason then (original, None)
      else (original @ '' [untranslated: '' @ reason_label reason @ '']'', Some (length original)))"

definition compose_display :: "bytes \<Rightarrow> bytes \<Rightarrow> bool \<Rightarrow> bytes \<times> nat option" where
  "compose_display translated original show_original =
     (if \<not> show_original \<or> translated = original then (translated, None)
      else (translated @ '' ['' @ original @ '']'', Some (length translated)))"

section \<open>Entries\<close>

record pending_payload =
  pp_message :: message
  pp_activity :: activity_level
  pp_show_original :: bool

datatype ready_delivery = Logged | Transient | Local

datatype ready_origin = NotTranslated | Translated | Untranslated untranslated_reason

definition origin_gap :: "ready_origin \<Rightarrow> untranslated_reason option" where
  "origin_gap r = (case r of Untranslated reason \<Rightarrow> (if is_gap reason then Some reason else None) | _ \<Rightarrow> None)"

datatype slot =
    Reserved nat "(message \<times> activity_level) list"
  | Pending bytes pending_payload nat
  | Ready message activity_level ready_origin ready_delivery

type_synonym entry = "nat \<times> slot"
type_synonym queue = "entry list"

record ready_entry =
  re_id :: nat
  re_message :: message
  re_activity :: activity_level
  re_origin :: ready_origin
  re_delivery :: ready_delivery

record ceiling_forced =
  forced :: nat
  barriers_lifted :: nat

record expired =
  timed_out :: nat
  abandoned_reservations :: "nat list"

fun is_ready :: "slot \<Rightarrow> bool" where
  "is_ready (Ready m a r d) = True"
| "is_ready s = False"

fun is_reserved :: "slot \<Rightarrow> bool" where
  "is_reserved (Reserved t h) = True"
| "is_reserved s = False"

fun is_pending :: "slot \<Rightarrow> bool" where
  "is_pending (Pending x p t) = True"
| "is_pending s = False"

section \<open>Adding lines\<close>

definition push_pending_at :: "nat \<Rightarrow> bytes \<Rightarrow> pending_payload \<Rightarrow> nat \<Rightarrow> queue \<Rightarrow> queue" where
  "push_pending_at i original payload now q = q @ [(i, Pending original payload now)]"

definition push_untranslated :: "nat \<Rightarrow> message \<Rightarrow> activity_level \<Rightarrow> untranslated_reason \<Rightarrow> queue \<Rightarrow> queue" where
  "push_untranslated i m a reason q = q @ [(i, Ready m a (Untranslated reason) Logged)]"

definition push_resolved_as :: "nat \<Rightarrow> message \<Rightarrow> activity_level \<Rightarrow> ready_delivery \<Rightarrow> queue \<Rightarrow> queue" where
  "push_resolved_as i m a d q = q @ [(i, Ready m a NotTranslated d)]"

definition push_resolved :: "nat \<Rightarrow> message \<Rightarrow> activity_level \<Rightarrow> queue \<Rightarrow> queue" where
  "push_resolved i m a q = q @ [(i, Ready m a NotTranslated Logged)]"

definition insert_resolved_in_order :: "nat \<Rightarrow> message \<Rightarrow> activity_level \<Rightarrow> queue \<Rightarrow> queue" where
  "insert_resolved_in_order i m a q =
     (let pos = unwrap_or (length q) (position (\<lambda>(j, _). j > i) q)
      in take pos q @ [(i, Ready m a NotTranslated Logged)] @ drop pos q)"

definition reserve_at :: "nat \<Rightarrow> nat \<Rightarrow> queue \<Rightarrow> queue" where
  "reserve_at i now q = q @ [(i, Reserved now [])]"

section \<open>Reservations\<close>

text \<open>The row that could not be parked is handed back.\<close>

fun hold_in_reserved :: "nat \<Rightarrow> message \<Rightarrow> activity_level \<Rightarrow> queue \<Rightarrow> message option \<times> queue" where
  "hold_in_reserved i m a [] = (Some m, [])"
| "hold_in_reserved i m a ((j, s) # q) =
     (if j = i then
        (case s of
           Reserved t held \<Rightarrow> (None, (j, Reserved t (held @ [(m, a)])) # q)
         | _ \<Rightarrow> (Some m, (j, s) # q))
      else (let (r, q') = hold_in_reserved i m a q in (r, (j, s) # q')))"

definition ready_rows :: "nat \<Rightarrow> (message \<times> activity_level) list \<Rightarrow> queue" where
  "ready_rows i rows = map (\<lambda>(m, a). (i, Ready m a NotTranslated Logged)) rows"

text \<open>The entry with this id and a reservation is replaced by the held rows and the new ones.\<close>

fun fill_reserved_with :: "nat \<Rightarrow> (message \<times> activity_level) list \<Rightarrow> queue \<Rightarrow> bool \<times> queue" where
  "fill_reserved_with i rows [] = (False, [])"
| "fill_reserved_with i rows ((j, s) # q) =
     (case (j = i, s) of
        (True, Reserved t held) \<Rightarrow> (True, ready_rows i (held @ rows) @ q)
      | _ \<Rightarrow> (let (r, q') = fill_reserved_with i rows q in (r, (j, s) # q')))"

definition holds_reservation :: "nat \<Rightarrow> queue \<Rightarrow> bool" where
  "holds_reservation i q \<longleftrightarrow> list_ex (\<lambda>(j, s). j = i \<and> is_reserved s) q"

fun slot_any :: "(message \<Rightarrow> bool) \<Rightarrow> slot \<Rightarrow> bool" where
  "slot_any f (Pending x p t) = f (pp_message p)"
| "slot_any f (Ready m a r d) = f m"
| "slot_any f (Reserved t held) = list_ex (\<lambda>(m, _). f m) held"

definition any_message :: "(message \<Rightarrow> bool) \<Rightarrow> queue \<Rightarrow> bool" where
  "any_message f q \<longleftrightarrow> list_ex (\<lambda>(_, s). slot_any f s) q"

fun release_reserved :: "nat \<Rightarrow> queue \<Rightarrow> queue" where
  "release_reserved i [] = []"
| "release_reserved i ((j, s) # q) =
     (case (j = i, s) of
        (True, Reserved t held) \<Rightarrow> ready_rows i held @ q
      | _ \<Rightarrow> (j, s) # release_reserved i q)"

section \<open>Outcomes folded in\<close>

fun resolve_slot :: "bytes \<Rightarrow> pending_payload \<Rightarrow> untranslated_reason + bytes \<Rightarrow> slot" where
  "resolve_slot original p outcome =
     (let ((txt, offset), origin) =
        (case outcome of
           Inr translated \<Rightarrow> (compose_display translated original (pp_show_original p), Translated)
         | Inl reason \<Rightarrow> (mark_untranslated original reason, Untranslated reason))
      in Ready ((pp_message p)\<lparr>m_text := txt, m_wire_origin := Some \<lparr>wo_text = original, suffix_at = offset\<rparr>\<rparr>)
           (pp_activity p) origin Logged)"

fun resolve :: "nat \<Rightarrow> untranslated_reason + bytes \<Rightarrow> queue \<Rightarrow> bool \<times> queue" where
  "resolve i outcome [] = (False, [])"
| "resolve i outcome ((j, s) # q) =
     (if j = i then
        (case s of
           Pending original p t \<Rightarrow> (True, (j, resolve_slot original p outcome) # q)
         | _ \<Rightarrow> (False, (j, s) # q))
      else (let (r, q') = resolve i outcome q in (r, (j, s) # q')))"

section \<open>Releasing\<close>

fun drain_ready :: "queue \<Rightarrow> ready_entry list \<times> queue" where
  "drain_ready ((i, Ready m a r d) # q) =
     (let (out, q') = drain_ready q
      in (\<lparr>re_id = i, re_message = m, re_activity = a, re_origin = r, re_delivery = d\<rparr> # out, q'))"
| "drain_ready q = ([], q)"

definition force_one :: "nat \<Rightarrow> queue \<Rightarrow> queue" where
  "force_one i q = snd (resolve i (Inl Timeout) (release_reserved i q))"

fun is_due :: "nat \<Rightarrow> nat \<Rightarrow> slot \<Rightarrow> bool" where
  "is_due now timeout (Pending x p t) = (now - t \<ge> timeout)"
| "is_due now timeout (Reserved t h) = (now - t \<ge> timeout)"
| "is_due now timeout (Ready m a r d) = False"

definition queue_expire :: "nat \<Rightarrow> nat \<Rightarrow> queue \<Rightarrow> expired \<times> queue" where
  "queue_expire now timeout q =
     (let due = map (\<lambda>(i, s). (i, is_reserved s)) (filter (\<lambda>(_, s). is_due now timeout s) q)
      in (\<lparr>timed_out = length due, abandoned_reservations = map fst (filter snd due)\<rparr>,
          fold (\<lambda>(i, _). force_one i) due q))"

definition enforce_ceiling :: "nat \<Rightarrow> queue \<Rightarrow> ceiling_forced \<times> queue" where
  "enforce_ceiling mx q =
     (if length q \<le> mx then (\<lparr>forced = 0, barriers_lifted = 0\<rparr>, q)
      else
        let ids = take (length q - mx) (map (\<lambda>(i, s). (i, is_reserved s)) (filter (\<lambda>(_, s). \<not> is_ready s) q))
        in (\<lparr>forced = length ids, barriers_lifted = length (filter snd ids)\<rparr>,
            fold (\<lambda>(i, _). force_one i) ids q))"

definition flush_all :: "queue \<Rightarrow> ready_entry list \<times> queue" where
  "flush_all q = drain_ready (fold force_one (map fst (filter (\<lambda>(_, s). \<not> is_ready s) q)) q)"

definition flush_pending :: "queue \<Rightarrow> ready_entry list \<times> queue" where
  "flush_pending q =
     drain_ready (fold (\<lambda>i q. snd (resolve i (Inl Timeout) q)) (map fst (filter (\<lambda>(_, s). is_pending s) q)) q)"

definition translating_len :: "queue \<Rightarrow> nat" where
  "translating_len q = length (filter (\<lambda>(_, s). is_pending s) q)"

definition reserved_len :: "queue \<Rightarrow> nat" where
  "reserved_len q = length (filter (\<lambda>(_, s). is_reserved s) q)"

section \<open>The tally\<close>

record translate_tally =
  tl_translated :: nat
  tl_filtered :: nat
  tl_timeout :: nat
  tl_provider :: nat
  tl_refused :: nat

fun tally_record :: "ready_origin \<Rightarrow> translate_tally \<Rightarrow> translate_tally" where
  "tally_record NotTranslated t = t"
| "tally_record Translated t = t\<lparr>tl_translated := tl_translated t + 1\<rparr>"
| "tally_record (Untranslated Filtered) t = t\<lparr>tl_filtered := tl_filtered t + 1\<rparr>"
| "tally_record (Untranslated Timeout) t = t\<lparr>tl_timeout := tl_timeout t + 1\<rparr>"
| "tally_record (Untranslated QualityGate) t = t\<lparr>tl_provider := tl_provider t + 1\<rparr>"
| "tally_record (Untranslated DailyLimit) t = t\<lparr>tl_provider := tl_provider t + 1\<rparr>"
| "tally_record (Untranslated NoProvider) t = t\<lparr>tl_provider := tl_provider t + 1\<rparr>"
| "tally_record (Untranslated (Error e)) t = t\<lparr>tl_refused := tl_refused t + 1\<rparr>"

definition tally_empty :: "translate_tally \<Rightarrow> bool" where
  "tally_empty t \<longleftrightarrow>
     tl_translated t = 0 \<and> tl_filtered t = 0 \<and> tl_timeout t = 0 \<and> tl_provider t = 0 \<and> tl_refused t = 0"

end
