(* ===== verification/Translate_Queue_Facts.thy ===== *)
theory Translate_Queue_Facts
  imports Translate_Queue
begin

text \<open>
  The reorder queue: rows leave it in the order of their ids, save those that were put in late, and a run
  logs which these are and how many rows had left; no message is lost by a timeout, a
  ceiling or a flush, and neither a stuck translation nor a reservation holds it for ever.
\<close>

section \<open>Entries that stand alone\<close>

text \<open>An entry that waits shares its id with no other; rows of one message, all ready, may share theirs.\<close>

definition compatible :: "entry \<Rightarrow> entry \<Rightarrow> bool" where
  "compatible a b \<longleftrightarrow> fst a = fst b \<longrightarrow> is_ready (snd a) \<and> is_ready (snd b)"

definition queue_ok :: "queue \<Rightarrow> bool" where
  "queue_ok q \<longleftrightarrow> sorted_wrt compatible q"

abbreviation ids :: "queue \<Rightarrow> nat list" where
  "ids q \<equiv> map fst q"

lemma queue_ok_split:
  "queue_ok (a @ e # b) \<Longrightarrow> \<not> is_ready (snd e) \<Longrightarrow> fst e \<notin> set (ids a) \<and> fst e \<notin> set (ids b)"
  by (auto simp: queue_ok_def sorted_wrt_append compatible_def)

text \<open>What an entry that waits may become: rows with its id, several only when they are ready.\<close>

definition becomes :: "entry \<Rightarrow> queue \<Rightarrow> bool" where
  "becomes e xs \<longleftrightarrow> (\<forall>x\<in>set xs. fst x = fst e) \<and> (length xs \<le> 1 \<or> list_all (\<lambda>x. is_ready (snd x)) xs)"

lemma becomes_ids: "becomes e xs \<Longrightarrow> ids xs = replicate (length xs) (fst e)"
  by (simp add: becomes_def map_replicate_const [symmetric] cong: map_cong)

lemma becomes_ok: "becomes e xs \<Longrightarrow> sorted_wrt compatible xs"
proof -
  assume b: "becomes e xs"
  show ?thesis
  proof (cases "length xs \<le> 1")
    case True
    then show ?thesis by (cases xs) auto
  next
    case False
    then have "\<forall>x\<in>set xs. is_ready (snd x)" using b by (simp add: becomes_def list_all_iff)
    then show ?thesis by (induction xs) (simp_all add: compatible_def)
  qed
qed

lemma replace_ok:
  assumes q: "queue_ok (a @ e # b)" and e: "\<not> is_ready (snd e)" and x: "becomes e xs"
  shows "queue_ok (a @ xs @ b)"
proof -
  have n: "fst e \<notin> set (ids a)" "fst e \<notin> set (ids b)" using queue_ok_split [OF q e] by simp_all
  have same: "fst z = fst e" if "z \<in> set xs" for z using that x by (simp add: becomes_def)
  have "compatible y z" if "y \<in> set a" "z \<in> set xs" for y z
    using imageI [OF that(1), of fst] n(1) same [OF that(2)] by (metis compatible_def set_map)
  moreover have "compatible y z" if "y \<in> set xs" "z \<in> set b" for y z
    using imageI [OF that(2), of fst] n(2) same [OF that(1)] by (metis compatible_def set_map)
  ultimately show ?thesis using q becomes_ok [OF x] by (auto simp: queue_ok_def sorted_wrt_append)
qed

lemma replace_ids:
  assumes "becomes e xs"
  shows "sorted (ids (a @ e # b)) \<Longrightarrow> sorted (ids (a @ xs @ b))" "set (ids (a @ xs @ b)) \<subseteq> set (ids (a @ e # b))"
proof -
  have "sorted (A @ k # B) \<Longrightarrow> sorted (A @ replicate n k @ B)" for A B :: "nat list" and k n
    by (cases n) (auto simp: sorted_append)
  then show "sorted (ids (a @ e # b)) \<Longrightarrow> sorted (ids (a @ xs @ b))" using becomes_ids [OF assms] by simp
  show "set (ids (a @ xs @ b)) \<subseteq> set (ids (a @ e # b))" using assms by (auto simp: becomes_def)
qed

text \<open>An operation that changes at most one waiting entry.\<close>

definition one_entry :: "queue \<Rightarrow> queue \<Rightarrow> bool" where
  "one_entry q q' \<longleftrightarrow> q' = q \<or> (\<exists>a e b xs. q = a @ e # b \<and> \<not> is_ready (snd e) \<and> becomes e xs \<and> q' = a @ xs @ b)"

lemma one_entry_ok: "one_entry q q' \<Longrightarrow> queue_ok q \<Longrightarrow> queue_ok q'"
  by (auto simp: one_entry_def intro: replace_ok)

lemma one_entry_ids: "one_entry q q' \<Longrightarrow> (sorted (ids q) \<longrightarrow> sorted (ids q')) \<and> set (ids q') \<subseteq> set (ids q)"
  unfolding one_entry_def using replace_ids by blast

lemma one_entry_refl: "one_entry q q"
  by (simp add: one_entry_def)

lemma one_entry_head: "\<not> is_ready s \<Longrightarrow> becomes (i, s) xs \<Longrightarrow> one_entry ((i, s) # q) (xs @ q)"
  unfolding one_entry_def
  by (intro disjI2 exI [of _ "[]"] exI [of _ "(i, s)"] exI [of _ q] exI [of _ xs]) simp

lemma one_entry_Cons: "one_entry q q' \<Longrightarrow> one_entry (x # q) (x # q')"
proof -
  assume "one_entry q q'"
  then consider "q' = q" | a e b xs where "q = a @ e # b" "\<not> is_ready (snd e)" "becomes e xs" "q' = a @ xs @ b"
    by (auto simp: one_entry_def)
  then show ?thesis
  proof cases
    case 2
    then show ?thesis unfolding one_entry_def
      by (intro disjI2 exI [of _ "x # a"] exI [of _ e] exI [of _ b] exI [of _ xs]) simp
  qed (simp add: one_entry_refl)
qed

lemma becomes_rows: "becomes (i, s) (ready_rows i rows)"
  by (auto simp: becomes_def ready_rows_def list_all_iff)

lemma becomes_one: "becomes (i, s) [(i, s')]"
  by (simp add: becomes_def)

lemma one_entry_release: "one_entry q (release_reserved i q)"
proof (induction i q rule: release_reserved.induct)
  case (2 i j s q)
  then show ?case
    by (cases "j = i"; cases s)
      (auto simp: one_entry_Cons one_entry_refl intro!: one_entry_head becomes_rows)
qed (simp add: one_entry_refl)

lemma one_entry_fill: "one_entry q (snd (fill_reserved_with i rows q))"
proof (induction i rows q rule: fill_reserved_with.induct)
  case (2 i rows j s q)
  then show ?case
    by (cases "j = i"; cases s)
      (auto simp: case_prod_beta one_entry_Cons one_entry_refl intro!: one_entry_head becomes_rows)
qed (simp add: one_entry_refl)

lemma one_entry_change: "\<not> is_ready s \<Longrightarrow> one_entry ((i, s) # q) ((i, s') # q)"
  using one_entry_head [OF _ becomes_one, of s i q s'] by simp

lemma one_entry_hold: "one_entry q (snd (hold_in_reserved i m a q))"
proof (induction i m a q rule: hold_in_reserved.induct)
  case (2 i m a j s q)
  then show ?case
    by (cases "j = i"; cases s) (simp_all add: case_prod_beta one_entry_Cons one_entry_refl one_entry_change)
qed (simp add: one_entry_refl)

lemma one_entry_resolve: "one_entry q (snd (resolve i r q))"
proof (induction i r q rule: resolve.induct)
  case (2 i r j s q)
  then show ?case
    by (cases "j = i"; cases s)
      (simp_all add: case_prod_beta one_entry_Cons one_entry_refl one_entry_change del: resolve_slot.simps)
qed (simp add: one_entry_refl)

text \<open>Forcing lines out, one after another.\<close>

definition forces :: "queue \<Rightarrow> queue \<Rightarrow> bool" where
  "forces q q' \<longleftrightarrow>
     (queue_ok q \<longrightarrow> queue_ok q') \<and> (sorted (ids q) \<longrightarrow> sorted (ids q')) \<and> set (ids q') \<subseteq> set (ids q)"

lemma forces_one: "one_entry q q' \<Longrightarrow> forces q q'"
  unfolding forces_def using one_entry_ok one_entry_ids by blast

lemma forces_trans: "forces a b \<Longrightarrow> forces b c \<Longrightarrow> forces a c"
  unfolding forces_def by blast

lemma forces_force_one: "forces q (force_one i q)"
  unfolding force_one_def
  using forces_trans forces_one one_entry_release one_entry_resolve by metis

lemma forces_fold: "(\<And>x q. forces q (f x q)) \<Longrightarrow> forces q (fold f xs q)"
proof (induction xs arbitrary: q)
  case (Cons x xs)
  then show ?case using forces_trans by simp blast
qed (simp add: forces_def)

lemma forces_expire: "forces q (snd (queue_expire now timeout q))"
  by (simp add: queue_expire_def Let_def forces_fold forces_force_one split: prod.split)

lemma forces_ceiling: "forces q (snd (enforce_ceiling mx q))"
  by (auto simp: enforce_ceiling_def Let_def forces_def [of q q] intro!: forces_fold forces_force_one split: prod.split)

section \<open>Draining\<close>

definition released :: "entry \<Rightarrow> ready_entry" where
  "released e =
     (case snd e of Ready m a r d \<Rightarrow>
        \<lparr>re_id = fst e, re_message = m, re_activity = a, re_origin = r, re_delivery = d\<rparr>)"

lemma drain_ready_split:
  "drain_ready q = (map released (takeWhile (\<lambda>e. is_ready (snd e)) q), dropWhile (\<lambda>e. is_ready (snd e)) q)"
  by (induction q rule: drain_ready.induct) (simp_all add: released_def)

lemma ids_released: "\<forall>e\<in>set q. is_ready (snd e) \<Longrightarrow> map re_id (map released q) = ids q"
  by (induction q) (auto simp: released_def split: slot.splits)

lemma drain_ids: "map re_id (fst (drain_ready q)) @ ids (snd (drain_ready q)) = ids q"
proof -
  have "map re_id (map released (takeWhile (\<lambda>e. is_ready (snd e)) q)) = ids (takeWhile (\<lambda>e. is_ready (snd e)) q)"
    by (rule ids_released) (auto dest: set_takeWhileD)
  then show ?thesis
    by (simp only: drain_ready_split fst_conv snd_conv) (simp only: map_append [symmetric] takeWhile_dropWhile_id)
qed

lemma drain_ok: "queue_ok q \<Longrightarrow> queue_ok (snd (drain_ready q))"
  unfolding queue_ok_def drain_ready_split snd_conv
  by (metis dropWhile_eq_drop sorted_wrt_drop)

section \<open>The life of a queue\<close>

text \<open>What has been released so far, the queue, and a log of the rows inserted by their id: the id, and how many
  rows had left by then.  A new line has a fresh id, the next of the counter; an inserted row any id, as it comes
  late when its place was given up.\<close>

type_synonym line_state = "ready_entry list \<times> queue \<times> (nat \<times> nat) list"

definition fresh :: "nat \<Rightarrow> ready_entry list \<Rightarrow> queue \<Rightarrow> bool" where
  "fresh i out q \<longleftrightarrow> (\<forall>j\<in>set (map re_id out @ ids q). j < i)"

inductive queue_step :: "line_state \<Rightarrow> line_state \<Rightarrow> bool" where
  q_pending: "fresh i out q \<Longrightarrow> queue_step (out, q, l) (out, push_pending_at i x p now q, l)"
| q_untranslated: "fresh i out q \<Longrightarrow> queue_step (out, q, l) (out, push_untranslated i m a r q, l)"
| q_resolved_as: "fresh i out q \<Longrightarrow> queue_step (out, q, l) (out, push_resolved_as i m a d q, l)"
| q_resolved: "fresh i out q \<Longrightarrow> queue_step (out, q, l) (out, push_resolved i m a q, l)"
| q_reserve: "fresh i out q \<Longrightarrow> queue_step (out, q, l) (out, reserve_at i now q, l)"
| q_insert: "queue_step (out, q, l) (out, insert_resolved_in_order i m a q, l @ [(i, length out)])"
| q_hold: "queue_step (out, q, l) (out, snd (hold_in_reserved i m a q), l)"
| q_fill: "queue_step (out, q, l) (out, snd (fill_reserved_with i rows q), l)"
| q_release: "queue_step (out, q, l) (out, release_reserved i q, l)"
| q_resolve: "queue_step (out, q, l) (out, snd (resolve i outcome q), l)"
| q_expire: "queue_step (out, q, l) (out, snd (queue_expire now timeout q), l)"
| q_ceiling: "queue_step (out, q, l) (out, snd (enforce_ceiling mx q), l)"
| q_drain: "queue_step (out, q, l) (out @ fst (drain_ready q), snd (drain_ready q), l)"
| q_flush: "queue_step (out, q, l) (out @ fst (flush_all q), snd (flush_all q), l)"
| q_flush_pending: "queue_step (out, q, l) (out @ fst (flush_pending q), snd (flush_pending q), l)"

text \<open>The waiting ids ascend; what comes after a row with a higher id was inserted when that row had left.\<close>

definition excused :: "(nat \<times> nat) list \<Rightarrow> nat \<Rightarrow> nat \<Rightarrow> bool" where
  "excused l j k \<longleftrightarrow> (\<exists>n. (j, n) \<in> set l \<and> k < n)"

fun line_ok :: "line_state \<Rightarrow> bool" where
  "line_ok (out, q, l) \<longleftrightarrow>
     sorted (ids q)
     \<and> (\<forall>x e y j. out = x @ e # y \<and> j \<in> set (map re_id y) \<union> set (ids q) \<and> j < re_id e \<longrightarrow> excused l j (length x))"

declare line_ok.simps [simp del]

lemma line_okI:
  assumes "sorted (ids q)"
    "\<And>x e y j. out = x @ e # y \<Longrightarrow> j \<in> set (map re_id y) \<union> set (ids q) \<Longrightarrow> j < re_id e \<Longrightarrow> excused l j (length x)"
  shows "line_ok (out, q, l)"
  unfolding line_ok.simps using assms by blast

lemma line_okD:
  assumes "line_ok (out, q, l)"
  shows "sorted (ids q)"
    "out = x @ e # y \<Longrightarrow> j \<in> set (map re_id y) \<union> set (ids q) \<Longrightarrow> j < re_id e \<Longrightarrow> excused l j (length x)"
  using assms unfolding line_ok.simps by blast+

lemma line_ok_forces: "forces q q' \<Longrightarrow> line_ok (out, q, l) \<Longrightarrow> line_ok (out, q', l)"
  unfolding forces_def by (rule line_okI) (use line_okD in blast)+

lemma line_ok_add:
  assumes "fresh i out q" "line_ok (out, q, l)"
  shows "line_ok (out, q @ [(i, s)], l)"
proof -
  have f: "j < i" if "j \<in> set (map re_id out) \<union> set (ids q)" for j using assms(1) that by (auto simp: fresh_def)
  have "sorted (ids (q @ [(i, s)]))" using line_okD(1) [OF assms(2)] f by (auto simp: sorted_append intro: less_imp_le)
  moreover have "excused l j (length x)"
    if "out = x @ e # y" "j \<in> set (map re_id y) \<union> set (ids (q @ [(i, s)]))" "j < re_id e" for x e y j
  proof (cases "j = i")
    case True
    then show ?thesis using f [of "re_id e"] that by simp
  next
    case False
    then have "j \<in> set (map re_id y) \<union> set (ids q)" using that(2) by auto
    then show ?thesis using line_okD(2) [OF assms(2)] that by blast
  qed
  ultimately show ?thesis by (rule line_okI)
qed

lemma line_ok_drain:
  assumes "line_ok (out, q, l)"
  shows "line_ok (out @ fst (drain_ready q), snd (drain_ready q), l)"
proof -
  let ?r = "fst (drain_ready q)" and ?q = "snd (drain_ready q)"
  have c: "ids q = map re_id ?r @ ids ?q" using drain_ids [of q] by simp
  have s: "sorted (map re_id ?r @ ids ?q)" using line_okD(1) [OF assms] by (simp only: c)
  have "excused l j (length x)"
    if "out @ ?r = x @ e # y" "j \<in> set (map re_id y) \<union> set (ids ?q)" "j < re_id e" for x e y j
  proof (cases "length x < length out")
    case True
    moreover have "\<exists>us. out = x @ us \<and> us @ ?r = e # y \<or> out @ us = x \<and> ?r = us @ e # y"
      using that(1) by (simp only: append_eq_append_conv2)
    ultimately have "\<exists>z. out = x @ e # z \<and> y = z @ ?r" by (auto simp: append_eq_Cons_conv)
    then obtain z where z: "out = x @ e # z" "y = z @ ?r" by blast
    then have "j \<in> set (map re_id z) \<union> set (ids q)" using that(2) unfolding c by auto
    then show ?thesis using line_okD(2) [OF assms z(1)] that(3) by blast
  next
    case False
    moreover have "\<exists>us. out = x @ us \<and> us @ ?r = e # y \<or> out @ us = x \<and> ?r = us @ e # y"
      using that(1) by (simp only: append_eq_append_conv2)
    ultimately have "\<exists>z. ?r = z @ e # y" by (auto simp: append_eq_Cons_conv)
    then obtain z where "?r = z @ e # y" by blast
    then have "re_id e \<le> j" using s that(2) by (auto simp: sorted_append)
    then show ?thesis using that(3) by simp
  qed
  then show ?thesis using s by (intro line_okI) (simp_all add: sorted_append)
qed

lemma unwrap_or_Suc: "unwrap_or (Suc n) (map_option Suc p) = Suc (unwrap_or n p)"
  by (cases p) simp_all

lemma position_sorted:
  "sorted (ids q) \<Longrightarrow>
     (\<forall>j\<in>set (ids (take (unwrap_or (length q) (position (\<lambda>(j, _). j > i) q)) q)). j \<le> i)
     \<and> (\<forall>j\<in>set (ids (drop (unwrap_or (length q) (position (\<lambda>(j, _). j > i) q)) q)). i < j)"
proof (induction q)
  case (Cons e q)
  show ?case
  proof (cases "fst e > i")
    case True
    moreover have "\<forall>j\<in>set q. fst e \<le> fst j" using Cons.prems by simp
    ultimately have "\<forall>j\<in>set q. i < fst j" by (auto elim: less_le_trans)
    with True show ?thesis by (simp add: case_prod_beta)
  next
    case False
    let ?p = "unwrap_or (length q) (position (\<lambda>(j, _). j > i) q)"
    have p: "unwrap_or (length (e # q)) (position (\<lambda>(j, _). j > i) (e # q)) = Suc ?p"
      using False by (cases e) (simp add: unwrap_or_Suc)
    have "sorted (ids q)" using Cons.prems by simp
    from Cons.IH [OF this] False show ?thesis unfolding p take_Suc_Cons drop_Suc_Cons by auto
  qed
qed simp

lemma insert_splits:
  assumes "sorted (ids q)"
  obtains x y where "q = x @ y" "insert_resolved_in_order i m a q = x @ (i, Ready m a NotTranslated Logged) # y"
    "\<forall>j\<in>set (ids x). j \<le> i" "\<forall>j\<in>set (ids y). i < j"
proof
  let ?p = "unwrap_or (length q) (position (\<lambda>(j, _). j > i) q)"
  show "q = take ?p q @ drop ?p q" by simp
  show "insert_resolved_in_order i m a q = take ?p q @ (i, Ready m a NotTranslated Logged) # drop ?p q"
    by (simp add: insert_resolved_in_order_def Let_def)
  show "\<forall>j\<in>set (ids (take ?p q)). j \<le> i" "\<forall>j\<in>set (ids (drop ?p q)). i < j"
    by (rule conjunct1 [OF position_sorted [OF assms]] conjunct2 [OF position_sorted [OF assms]])+
qed

lemma line_ok_insert:
  assumes "line_ok (out, q, l)"
  shows "line_ok (out, insert_resolved_in_order i m a q, l @ [(i, length out)])"
proof -
  have s: "sorted (ids q)" by (rule line_okD(1) [OF assms])
  obtain x' y' where q: "q = x' @ y'" and n: "insert_resolved_in_order i m a q = x' @ (i, Ready m a NotTranslated Logged) # y'"
    and b: "\<forall>j\<in>set (ids x'). j \<le> i" "\<forall>j\<in>set (ids y'). i < j"
    by (rule insert_splits [OF s])
  have "sorted (ids (insert_resolved_in_order i m a q))"
    unfolding n using s b by (auto simp: q sorted_append intro: less_imp_le)
  moreover have "excused (l @ [(i, length out)]) j (length x)"
    if "out = x @ e # y" "j \<in> set (map re_id y) \<union> set (ids (insert_resolved_in_order i m a q))" "j < re_id e" for x e y j
  proof (cases "j = i")
    case True
    then show ?thesis using that(1) by (auto simp: excused_def)
  next
    case False
    then have "j \<in> set (map re_id y) \<union> set (ids q)" using that(2) unfolding n unfolding q by auto
    then have "excused l j (length x)" using line_okD(2) [OF assms] that by blast
    then show ?thesis by (auto simp: excused_def)
  qed
  ultimately show ?thesis by (rule line_okI)
qed

lemma queue_ok_insert:
  assumes "sorted (ids q)" "queue_ok q" "\<And>s. (i, s) \<in> set q \<Longrightarrow> is_ready s"
  shows "queue_ok (insert_resolved_in_order i m a q)"
proof -
  obtain x y where q: "q = x @ y" and n: "insert_resolved_in_order i m a q = x @ (i, Ready m a NotTranslated Logged) # y"
    by (rule insert_splits [OF assms(1)])
  show ?thesis
    unfolding n using assms(2,3) by (auto simp: q queue_ok_def sorted_wrt_append compatible_def)
qed

lemma line_ok_changes:
  assumes "line_ok (out, q, l)"
  shows "line_ok (out, snd (hold_in_reserved i m a q), l)" "line_ok (out, snd (fill_reserved_with i rows q), l)"
    "line_ok (out, release_reserved i q, l)" "line_ok (out, snd (resolve i outcome q), l)"
    "line_ok (out, snd (queue_expire now timeout q), l)" "line_ok (out, snd (enforce_ceiling mx q), l)"
  by (intro line_ok_forces [OF _ assms] forces_one one_entry_hold one_entry_fill one_entry_release one_entry_resolve
      forces_expire forces_ceiling)+

lemma line_ok_flush:
  assumes "line_ok (out, q, l)"
  shows "line_ok (out @ fst (flush_all q), snd (flush_all q), l)" "line_ok (out @ fst (flush_pending q), snd (flush_pending q), l)"
  unfolding flush_all_def flush_pending_def
  by (intro line_ok_drain line_ok_forces [OF forces_fold assms] forces_force_one forces_one one_entry_resolve)+

lemmas push_defs = push_pending_at_def push_untranslated_def push_resolved_as_def push_resolved_def reserve_at_def

lemma line_ok_step: "queue_step s t \<Longrightarrow> line_ok s \<Longrightarrow> line_ok t"
  by (induction rule: queue_step.induct)
    (simp_all only: push_defs line_ok_add line_ok_insert line_ok_drain line_ok_changes line_ok_flush)

lemma line_ok_run: "queue_step\<^sup>*\<^sup>* ([], [], []) s \<Longrightarrow> line_ok s"
  by (induction rule: rtranclp_induct) (simp add: line_ok.simps, blast intro: line_ok_step)

text \<open>C4: Whatever translations return, time out or are flushed, and however many lines are forced out, the rows of
  a buffer leave the queue in the order of their ids, with one exception: a row that \<open>insert_resolved_in_order\<close>
  put in when its place had been given up can come after rows with a higher id, and then only after such
  rows as had already left when it was put in.  New lines are taken to have the next id of the counter.\<close>

theorem lines_leave_in_order:
  assumes "queue_step\<^sup>*\<^sup>* ([], [], []) (out, q, log)" "a < b" "b < length out" "re_id (out ! b) < re_id (out ! a)"
  shows "\<exists>n. (re_id (out ! b), n) \<in> set log \<and> a < n"
proof -
  have split: "out = take a out @ out ! a # drop (Suc a) out" "length (take a out) = a"
    using assms(2,3) by (simp_all add: id_take_nth_drop)
  have "out ! b = drop (Suc a) out ! (b - Suc a)" "b - Suc a < length (drop (Suc a) out)" using assms(2,3) by simp_all
  then have "re_id (out ! b) \<in> set (map re_id (drop (Suc a) out))" by (metis image_eqI list.set_map nth_mem)
  moreover have "line_ok (out, q, log)" by (rule line_ok_run [OF assms(1)])
  ultimately have "excused log (re_id (out ! b)) (length (take a out))" using line_okD(2) [OF _ split(1)] assms(4) by blast
  then show ?thesis unfolding excused_def split(2) .
qed

definition sample_message :: "nat \<Rightarrow> message" where
  "sample_message i = \<lparr>m_id = i, m_timestamp = 0, m_type = MtMessage, m_nick = None, m_nick_mode = None, m_text = ''moin'',
     m_highlight = False, m_event_key = None, m_event_params = None, m_log_msg_id = None, m_log_ref_id = None,
     m_tags = None, m_wire_origin = None, m_translation_suffix_at = None, m_log_key = None,
     m_redaction_msgid = None, m_redaction_ref = None\<rparr>"

lemma lines_leave_in_order_witness:
  "\<exists>out q log. queue_step\<^sup>*\<^sup>* ([], [], []) (out, q, log) \<and> map re_id out = [2, 1] \<and> log = [(1, 1)]
     \<and> (\<exists>n. (re_id (out ! 1), n) \<in> set log \<and> 0 < n)"
proof -
  define m a where "m = sample_message 1" and "a = Activity"
  let ?q = "push_resolved 2 m a []"
  let ?o = "[] @ fst (drain_ready ?q)"
  let ?q2 = "insert_resolved_in_order 1 m a (snd (drain_ready ?q))"
  let ?o2 = "?o @ fst (drain_ready ?q2)"
  have "queue_step ([], [], []) ([], ?q, [])" by (rule q_resolved) (simp add: fresh_def)
  moreover have "queue_step ([], ?q, []) (?o, snd (drain_ready ?q), [])" by (rule q_drain)
  moreover have "queue_step (?o, snd (drain_ready ?q), []) (?o, ?q2, [] @ [(1, length ?o)])" by (rule q_insert)
  moreover have "queue_step (?o, ?q2, [] @ [(1, length ?o)]) (?o2, snd (drain_ready ?q2), [] @ [(1, length ?o)])" by (rule q_drain)
  ultimately have run: "queue_step\<^sup>*\<^sup>* ([], [], []) (?o2, snd (drain_ready ?q2), [] @ [(1, length ?o)])"
    by (meson converse_rtranclp_into_rtranclp rtranclp.rtrancl_refl)
  have o: "map re_id ?o2 = [2, 1]" "length ?o = 1"
    by (simp_all add: push_resolved_def insert_resolved_in_order_def)
  have "\<exists>n. (re_id (?o2 ! 1), n) \<in> set ([] @ [(1, length ?o)]) \<and> 0 < n"
    by (rule lines_leave_in_order [OF run])
      (simp_all add: push_resolved_def insert_resolved_in_order_def)
  with run o show ?thesis by (metis append_Nil)
qed

section \<open>Forcing a line out settles that line\<close>

text \<open>What a forced entry becomes: a pending line its original with the timeout marker, a reservation
  the rows it held.\<close>

fun settle :: "entry \<Rightarrow> queue" where
  "settle (i, Pending original p t) = [(i, resolve_slot original p (Inl Timeout))]"
| "settle (i, Reserved t held) = ready_rows i held"
| "settle (i, Ready m a r d) = [(i, Ready m a r d)]"

lemma release_skip: "i \<notin> set (ids a) \<Longrightarrow> release_reserved i (a @ q) = a @ release_reserved i q"
  by (induction a) auto

lemma resolve_skip: "i \<notin> set (ids a) \<Longrightarrow> snd (resolve i r (a @ q)) = a @ snd (resolve i r q)"
  by (induction a) (auto simp: case_prod_beta)

lemma release_none: "i \<notin> set (ids q) \<Longrightarrow> release_reserved i q = q"
  using release_skip [of i q "[]"] by simp

lemma resolve_none: "i \<notin> set (ids q) \<Longrightarrow> snd (resolve i r q) = q"
  using resolve_skip [of i q r "[]"] by simp

lemma resolve_rows: "i \<notin> set (ids q) \<Longrightarrow> snd (resolve i r (ready_rows i rows @ q)) = ready_rows i rows @ q"
  by (cases rows) (auto simp: ready_rows_def resolve_none)

lemma force_one_at:
  assumes "i \<notin> set (ids a)" "i \<notin> set (ids b)" "\<not> is_ready s"
  shows "force_one i (a @ (i, s) # b) = a @ settle (i, s) @ b"
  using assms
  by (cases s) (simp_all add: force_one_def release_skip resolve_skip resolve_rows release_none del: resolve_slot.simps)

lemma settle_ids: "x \<in> set (settle e) \<Longrightarrow> fst x = fst e"
  by (cases e rule: settle.cases) (auto simp: ready_rows_def)

lemma settle_ready: "x \<in> set (settle e) \<Longrightarrow> is_ready (snd x)"
  by (cases e rule: settle.cases) (auto simp: ready_rows_def split: prod.splits)

text \<open>Forcing the first \<open>n\<close> of the entries a condition picks.\<close>

fun settle_first :: "nat \<Rightarrow> (entry \<Rightarrow> bool) \<Rightarrow> queue \<Rightarrow> queue" where
  "settle_first n P [] = []"
| "settle_first 0 P q = q"
| "settle_first (Suc n) P (e # q) =
     (if P e then settle e @ settle_first n P q else e # settle_first (Suc n) P q)"

lemma settle_first_0 [simp]: "settle_first 0 P q = q"
  by (cases q) simp_all

lemma force_first:
  assumes "\<And>e. P e \<Longrightarrow> \<not> is_ready (snd e)" "queue_ok q" "\<forall>e\<in>set q. P e \<longrightarrow> fst e \<notin> set (ids a)"
  shows "fold force_one (take n (ids (filter P q))) (a @ q) = a @ settle_first n P q"
  using assms(2,3)
proof (induction q arbitrary: a n)
  case (Cons e q)
  have ok: "queue_ok q" "\<forall>x\<in>set q. compatible e x" using Cons.prems(1) by (simp_all add: queue_ok_def)
  show ?case
  proof (cases n)
    case (Suc m)
    show ?thesis
    proof (cases "P e")
      case True
      then have r: "\<not> is_ready (snd e)" by (rule assms(1))
      have ne: "\<forall>x\<in>set q. fst x \<noteq> fst e" using ok(2) r by (auto simp: compatible_def)
      then have "fst e \<notin> set (ids q)" by (metis imageE set_map)
      then have f: "force_one (fst e) (a @ e # q) = (a @ settle e) @ q"
        using force_one_at [of "fst e" a q "snd e"] Cons.prems(2) True r by simp
      have s: "set (ids (settle e)) \<subseteq> {fst e}" using settle_ids [of _ e] by auto
      have "\<forall>x\<in>set q. P x \<longrightarrow> fst x \<notin> set (ids (a @ settle e))"
        using Cons.prems(2) ne s by (auto simp del: set_map)
      from Cons.IH [OF ok(1) this] True f Suc show ?thesis by simp
    next
      case False
      have "\<forall>x\<in>set q. P x \<longrightarrow> fst x \<noteq> fst e" using ok(2) assms(1) by (auto simp: compatible_def)
      then have "\<forall>x\<in>set q. P x \<longrightarrow> fst x \<notin> set (ids (a @ [e]))" using Cons.prems(2) by simp
      from Cons.IH [OF ok(1) this] False Suc show ?thesis by simp
    qed
  qed simp
qed simp

lemma settle_none: "\<forall>x\<in>set q. \<not> P x \<Longrightarrow> concat (map (\<lambda>e. if P e then settle e else [e]) q) = q"
  by (induction q) auto

lemma settle_first_all: "length (filter P q) \<le> n \<Longrightarrow> settle_first n P q = concat (map (\<lambda>e. if P e then settle e else [e]) q)"
  by (induction n P q rule: settle_first.induct) (auto simp: filter_empty_conv settle_none split: if_splits)

lemma force_all:
  assumes "\<And>e. P e \<Longrightarrow> \<not> is_ready (snd e)" "queue_ok q"
  shows "fold force_one (ids (filter P q)) q = concat (map (\<lambda>e. if P e then settle e else [e]) q)"
  using force_first [of P q "[]" "length (filter P q)"] assms by (simp add: settle_first_all)

section \<open>No message is lost\<close>

text \<open>The messages an entry stands for, by their ids.\<close>

fun slot_messages :: "slot \<Rightarrow> nat list" where
  "slot_messages (Pending x p t) = [m_id (pp_message p)]"
| "slot_messages (Ready m a r d) = [m_id m]"
| "slot_messages (Reserved t held) = map (m_id \<circ> fst) held"

definition rows :: "queue \<Rightarrow> nat list" where
  "rows q = concat (map (slot_messages \<circ> snd) q)"

lemma rows_append [simp]: "rows (a @ b) = rows a @ rows b" "rows [] = []" "rows (e # q) = slot_messages (snd e) @ rows q"
  by (simp_all add: rows_def)

lemma rows_ready_rows: "rows (ready_rows i held) = map (m_id \<circ> fst) held"
  by (induction held) (auto simp: ready_rows_def)

lemma rows_settle: "rows (settle e) = slot_messages (snd e)"
  by (cases e rule: settle.cases) (simp_all add: rows_ready_rows case_prod_beta)

lemma rows_settled: "rows (concat (map (\<lambda>e. if P e then settle e else [e]) q)) = rows q"
  by (induction q) (simp_all add: rows_settle)

lemma rows_settle_first: "rows (settle_first n P q) = rows q"
  by (induction n P q rule: settle_first.induct) (simp_all add: rows_settle)

lemma rows_released: "\<forall>e\<in>set q. is_ready (snd e) \<Longrightarrow> map (m_id \<circ> re_message) (map released q) = rows q"
  by (induction q) (auto simp: released_def split: slot.splits)

lemma drain_all_ready: "\<forall>e\<in>set q. is_ready (snd e) \<Longrightarrow> drain_ready q = (map released q, [])"
  by (simp add: drain_ready_split dropWhile_eq_Nil_conv [THEN iffD2] takeWhile_eq_all_conv [THEN iffD2] del: map_eq_conv)

text \<open>What leaves for an entry that is flushed.\<close>

fun flushed :: "entry \<Rightarrow> ready_entry list" where
  "flushed (i, Pending original p t) =
     [\<lparr>re_id = i,
       re_message = (pp_message p)\<lparr>m_text := original @ '' [untranslated: timeout]'',
                      m_wire_origin := Some \<lparr>wo_text = original, suffix_at = Some (length original)\<rparr>\<rparr>,
       re_activity = pp_activity p, re_origin = Untranslated Timeout, re_delivery = Logged\<rparr>]"
| "flushed (i, Reserved t held) =
     map (\<lambda>(m, a). \<lparr>re_id = i, re_message = m, re_activity = a, re_origin = NotTranslated, re_delivery = Logged\<rparr>) held"
| "flushed (i, Ready m a r d) = [\<lparr>re_id = i, re_message = m, re_activity = a, re_origin = r, re_delivery = d\<rparr>]"

lemma released_settle: "map released (settle e) = flushed e"
  by (cases e rule: settle.cases)
    (auto simp: released_def ready_rows_def mark_untranslated_def is_gap_def case_prod_beta)

text \<open>C16: A flush empties the queue and releases every row it held, each once and in order: a waiting line as its
  original text with the marker of a timeout, the rows parked at a reservation and the finished ones exactly as
  they came.\<close>

theorem flush_all_releases:
  assumes "queue_ok q"
  shows "flush_all q = (concat (map flushed q), [])"
proof -
  let ?P = "\<lambda>e. \<not> is_ready (snd e)"
  let ?q = "concat (map (\<lambda>e. if ?P e then settle e else [e]) q)"
  have "(if ?P e then settle e else [e]) = settle e" for e by (cases e rule: settle.cases) simp_all
  then have s: "?q = concat (map settle q)" by simp
  have "fold force_one (ids (filter ?P q)) q = ?q" by (rule force_all) (use assms in simp_all)
  then have f: "flush_all q = drain_ready ?q" by (simp add: flush_all_def case_prod_beta')
  have r: "\<forall>e\<in>set ?q. is_ready (snd e)" using settle_ready by (auto split: if_splits)
  have "map released ?q = concat (map flushed q)"
    by (simp only: s map_concat map_map) (simp add: comp_def released_settle)
  then show ?thesis by (simp only: f drain_all_ready [OF r])
qed

lemma flush_all_releases_witness:
  "flush_all (push_resolved 2 (sample_message 2) Activity (push_pending_at 1 ''moin'' \<lparr>pp_message = sample_message 1,
      pp_activity = Activity, pp_show_original = False\<rparr> 0 []))
   = ([\<lparr>re_id = 1, re_message = (sample_message 1)\<lparr>m_text := ''moin [untranslated: timeout]'',
          m_wire_origin := Some \<lparr>wo_text = ''moin'', suffix_at = Some 4\<rparr>\<rparr>,
        re_activity = Activity, re_origin = Untranslated Timeout, re_delivery = Logged\<rparr>,
       \<lparr>re_id = 2, re_message = sample_message 2, re_activity = Activity, re_origin = NotTranslated, re_delivery = Logged\<rparr>], [])"
proof -
  let ?q = "push_resolved 2 (sample_message 2) Activity (push_pending_at 1 ''moin'' \<lparr>pp_message = sample_message 1,
      pp_activity = Activity, pp_show_original = False\<rparr> 0 [])"
  have "queue_ok ?q" by (simp add: queue_ok_def push_resolved_def push_pending_at_def compatible_def)
  from flush_all_releases [OF this] show ?thesis by (simp add: push_resolved_def push_pending_at_def)
qed

section \<open>Neither a timeout nor the ceiling loses a message\<close>

lemma due_not_ready: "is_due now timeout s \<Longrightarrow> \<not> is_ready s"
  by (cases s) simp_all

lemma fold_pairs: "fold (\<lambda>x. force_one (fst x)) (map (\<lambda>x. (fst x, f (snd x))) es) q = fold force_one (ids es) q"
  by (induction es arbitrary: q) auto

lemma expire_queue:
  assumes "queue_ok q"
  shows "snd (queue_expire now timeout q) = concat (map (\<lambda>e. if is_due now timeout (snd e) then settle e else [e]) q)"
  using force_all [of "\<lambda>e. is_due now timeout (snd e)" q] due_not_ready assms
  by (simp add: queue_expire_def case_prod_beta' Let_def) (simp only: fold_pairs)

text \<open>C15: No line holds its buffer past the timeout: after \<open>expire\<close> no entry of the queue has waited that
  long, every message is still there in its place, and the report counts the lines and names the
  reservations that were given up.\<close>

theorem expire_unblocks:
  assumes "queue_ok q"
  shows "list_all (\<lambda>e. \<not> is_due now timeout (snd e)) (snd (queue_expire now timeout q))
     \<and> rows (snd (queue_expire now timeout q)) = rows q
     \<and> timed_out (fst (queue_expire now timeout q)) = length (filter (\<lambda>e. is_due now timeout (snd e)) q)
     \<and> abandoned_reservations (fst (queue_expire now timeout q)) =
         ids (filter (\<lambda>e. is_due now timeout (snd e) \<and> is_reserved (snd e)) q)"
proof -
  have "\<not> is_due now timeout (snd x)" if "x \<in> set (settle e)" for x e
    using due_not_ready settle_ready [OF that] by blast
  then have "list_all (\<lambda>e. \<not> is_due now timeout (snd e)) (snd (queue_expire now timeout q))"
    by (auto simp: expire_queue [OF assms] list_all_iff split: if_splits)
  moreover have "abandoned_reservations (fst (queue_expire now timeout q)) =
      ids (filter (\<lambda>e. is_due now timeout (snd e) \<and> is_reserved (snd e)) q)"
    by (induction q) (auto simp: queue_expire_def Let_def)
  ultimately show ?thesis
    by (simp add: expire_queue [OF assms] rows_settled) (simp add: queue_expire_def Let_def case_prod_beta')
qed

lemma expire_unblocks_witness:
  "list_all (\<lambda>e. \<not> is_due 50 30 (snd e)) (snd (queue_expire 50 30 (reserve_at 1 10 [])))
     \<and> rows (snd (queue_expire 50 30 (reserve_at 1 10 []))) = rows (reserve_at 1 10 [])
     \<and> timed_out (fst (queue_expire 50 30 (reserve_at 1 10 []))) = length (filter (\<lambda>e. is_due 50 30 (snd e)) (reserve_at 1 10 []))
     \<and> abandoned_reservations (fst (queue_expire 50 30 (reserve_at 1 10 []))) =
         ids (filter (\<lambda>e. is_due 50 30 (snd e) \<and> is_reserved (snd e)) (reserve_at 1 10 []))"
  by (rule expire_unblocks) (simp add: queue_ok_def reserve_at_def)

lemma settle_first_drop:
  assumes "P = (\<lambda>e. \<not> is_ready (snd e))"
  shows "length (dropWhile (\<lambda>e. is_ready (snd e)) (settle_first n P q)) \<le> length q - n"
  using assms
proof (induction n P q rule: settle_first.induct)
  case (2 P e q)
  show ?case by (simp add: le_SucI length_dropWhile_le)
next
  case (3 n P e q)
  have "dropWhile (\<lambda>e. is_ready (snd e)) (settle e @ r) = dropWhile (\<lambda>e. is_ready (snd e)) r" for r
    using settle_ready by (intro dropWhile_append2) blast
  note d = this
  show ?case
  proof (cases "P e")
    case True
    then show ?thesis using 3(1) [OF True 3(3)] by (simp add: d)
  next
    case False
    then have "is_ready (snd e)" using 3(3) by simp
    moreover have "length q - Suc n \<le> length q - n" by simp
    ultimately show ?thesis using order.trans [OF 3(2) [OF False 3(3)]] False by simp
  qed
qed simp

text \<open>C17: The ceiling holds: once it was enforced and the ready lines were drained, at most \<open>max\<close> entries
  are left, and no message was dropped to get there.\<close>

theorem ceiling_bounds_queue:
  assumes "queue_ok q"
  shows "length (snd (drain_ready (snd (enforce_ceiling mx q)))) \<le> mx \<and> rows (snd (enforce_ceiling mx q)) = rows q"
proof (cases "length q \<le> mx")
  case True
  then show ?thesis
    using length_dropWhile_le [of "\<lambda>e. is_ready (snd e)" q] by (simp add: enforce_ceiling_def drain_ready_split)
next
  case False
  let ?P = "\<lambda>e. \<not> is_ready (snd e)"
  have "snd (enforce_ceiling mx q) = fold force_one (take (length q - mx) (ids (filter ?P q))) q"
    using False by (simp add: enforce_ceiling_def Let_def take_map case_prod_beta') (simp only: fold_pairs)
  also have "\<dots> = settle_first (length q - mx) ?P q"
    using force_first [of ?P q "[]"] assms by simp
  finally have s: "snd (enforce_ceiling mx q) = settle_first (length q - mx) ?P q" .
  then show ?thesis
    using settle_first_drop [OF refl, of "length q - mx" q] False by (simp add: drain_ready_split rows_settle_first)
qed

lemma ceiling_bounds_queue_witness:
  "length (snd (drain_ready (snd (enforce_ceiling 1 (reserve_at 2 5 (reserve_at 1 0 [])))))) \<le> 1
   \<and> rows (snd (enforce_ceiling 1 (reserve_at 2 5 (reserve_at 1 0 [])))) = rows (reserve_at 2 5 (reserve_at 1 0 []))"
  by (rule ceiling_bounds_queue) (simp add: queue_ok_def reserve_at_def compatible_def)

end
