(* ===== verification/Spec2Isabelle.thy ===== *)
theory Spec2Isabelle
  imports Rust_Std Rust_Num Rust_Map Rust_Time Rust_Text
    Glob E2e_Context Crates E2e_Chunker E2e_Wire Limiter E2e_Rate_Limiter E2e_Handshake
    Storage_Crypto Sql_Table E2e_Keyring Peer_Store E2e_Keyring_Facts E2e_Migration
    Result_State E2e_Crypto E2e_Manager E2e_Sessions E2e_Session_Facts E2e_Trust E2e_Exchange E2e_Exchange_Facts
    E2e_Rekey_Facts E2e_Commands_Facts
    Irc_Isupport Irc_Formatting Irc_Cap Irc_Extban Irc_Flood Irc_Netsplit Irc_Multiline Irc_Chathistory Irc_Typing
    Irc_Ignore Irc_Monitor Irc_Monitor_Facts Sasl_Scram Dcc_Protocol Dcc_Manager
    Config_Env Command_Parser Command_Alias State_Buffer Translate_Queue Translate_Queue_Facts
begin

text \<open>
  A verification library of the repartee IRC client (Rust, \<open>src/src/\<close>).

  \<^bold>\<open>The program.\<close>  A terminal IRC client: an application loop (\<open>app/\<close>) owns the state (\<open>state/\<close>), one
  connection per network (\<open>irc/\<close>), commands (\<open>commands/\<close>), configuration (\<open>config/\<close>), a message log
  (\<open>storage/\<close>), direct connections (\<open>dcc/\<close>), translation (\<open>translate/\<close>), scripts, a web front end, and
  RPE2E, end-to-end encryption over IRC (\<open>e2e/\<close>).  The library models the parts whose behaviour is
  decided by the client's own logic and that the rest calls as functions on a state.

  \<^bold>\<open>Conventions.\<close>  A Rust string is the list of its UTF-8 bytes (\<open>Rust_Std\<close>), a \<open>char\<close> the list of
  its bytes; \<open>Result\<close> is a sum with \<open>Inl\<close> for the error; a \<open>HashMap\<close> or a table with a primary key
  is an association list with distinct keys whose order stands for the unspecified one (\<open>Rust_Map\<close>,
  with the laws as the locale \<open>hash_map\<close>); an \<open>Instant\<close> is a number of nanoseconds and the clock's
  reading an argument (\<open>Rust_Time\<close>); \<open>u64\<close> counters that only grow are \<open>nat\<close>, arithmetic whose
  overflow the code can reach is written out (\<open>Rust_Num\<close>).  Third-party crates (ciphers, signatures,
  hashes, base64, regular expressions, URL and shell parsing), the Unicode case tables and random
  bytes are arguments of the definitions that use them; what a property needs of them is a
  hypothesis of that property (\<open>Crates\<close> collects those of the cryptography, and each such property
  has a witness where concrete functions satisfy them).  Failures of I/O and of the database are not
  modelled.

  \<^bold>\<open>RPE2E\<close> (\<open>e2e/\<close>).  \<open>E2e_Context\<close>: context keys and errors; \<open>E2e_Chunker\<close>: splitting of plaintexts;
  \<open>E2e_Wire\<close>: the wire format and its associated data; \<open>E2e_Handshake\<close>: the handshake messages and
  their signed payloads; \<open>E2e_Rate_Limiter\<close> (over \<open>Limiter\<close>, the locale of keyed limiters): the
  limits on handshakes; \<open>Glob\<close>: the matcher of autotrust rules; \<open>Storage_Crypto\<close> and \<open>Sql_Table\<close>:
  secrets at rest and the tables; \<open>E2e_Keyring\<close>, \<open>E2e_Migration\<close>: every operation of the keyring and
  the adoption of old contexts (\<open>Peer_Store\<close> and \<open>E2e_Keyring_Facts\<close> hold their facts); \<open>E2e_Crypto\<close>,
  \<open>E2e_Manager\<close> (over the state-and-error monad of \<open>Result_State\<close>): the manager, its caches, and the
  encryption, decryption, handshake, rotation and trust commands; \<open>E2e_Sessions\<close>, \<open>E2e_Session_Facts\<close>,
  \<open>E2e_Trust\<close>, \<open>E2e_Exchange\<close>, \<open>E2e_Exchange_Facts\<close>, \<open>E2e_Rekey_Facts\<close>, \<open>E2e_Commands_Facts\<close>: sending,
  receiving, agreement of two managers on a key, rotation, and what the trust commands do and fail
  to do.

  \<^bold>\<open>IRC\<close> (\<open>irc/\<close>).  \<open>Irc_Isupport\<close> (\<open>isupport.rs\<close>), \<open>Irc_Cap\<close> (\<open>cap.rs\<close>), \<open>Irc_Formatting\<close>
  (\<open>formatting.rs\<close>), \<open>Irc_Extban\<close> (\<open>extban.rs\<close>): server parameters, capabilities, text and nick
  prefixes, extended bans.  \<open>Irc_Flood\<close> (\<open>flood.rs\<close>): the five detectors, with bounds on what they let
  through.  \<open>Irc_Netsplit\<close> (\<open>netsplit.rs\<close>): grouping of quits and joins, over the history of the quits
  that came in.  \<open>Irc_Multiline\<close>
  (\<open>multiline.rs\<close>): cutting a message into batches that reassemble to it.  \<open>Irc_Chathistory\<close>
  (\<open>chathistory.rs\<close>): requests for history, one in flight per target.  \<open>Irc_Typing\<close> (\<open>typing.rs\<close> and
  \<open>state/typing.rs\<close>): who is typing.  \<open>Irc_Ignore\<close> (\<open>ignore.rs\<close>): the decision and its cache of
  patterns.  \<open>Irc_Monitor\<close>, \<open>Irc_Monitor_Facts\<close> (\<open>monitor.rs\<close> and the tick of
  \<open>app/monitor.rs\<close>): the watch list, its bounds, and that after a connect it agrees with a server that
  accepts what it is asked; a round there is a tick, in which the client sends what \<open>next_command\<close> says, and
  the server's answers, and the number of rounds is bounded by the distance of the two lists.
  \<open>Sasl_Scram\<close> (\<open>sasl_scram.rs\<close>): the authentication and its verification of the server.
  \<open>Dcc_Protocol\<close>, \<open>Dcc_Manager\<close> (\<open>dcc/\<close>): offers and the records of connections.

  \<^bold>\<open>Commands, configuration, display.\<close>  \<open>Command_Parser\<close> (\<open>commands/registry.rs\<close>, \<open>parser.rs\<close>): the table
  of commands and the parser; \<open>Command_Alias\<close> (\<open>app/mod.rs\<close>, \<open>app/input.rs\<close>): alias templates and the
  dispatch, whose recursion is on the levels left (11, one more than \<open>MAX_ALIAS_DEPTH\<close>), so it ends
  by definition.  \<open>Config_Env\<close> (\<open>config/env.rs\<close>): the file of secrets.  \<open>State_Buffer\<close>
  (\<open>state/buffer.rs\<close>, \<open>state/sorting.rs\<close>): buffers, messages and their order.  \<open>Translate_Queue\<close>,
  \<open>Translate_Queue_Facts\<close> (\<open>translate/queue.rs\<close>): the queue that shows translated lines in the order
  they arrived; a run of it logs the rows put in after their place was given up, the only ones that can be late.

  \<^bold>\<open>What the lemmas show.\<close>  Round trips of every text format (wire lines, handshakes, extended bans, DCC
  offers, multiline batches, the environment file); invariants over every operation of the stateful
  components, by induction on their steps (queue, watch list, history requests, netsplits, typing,
  DCC); refinement of caches and snapshots by the plain decision; bounds of the limiters and queues
  for every arrival pattern; agreement, the policy that releases keys, and authenticity of RPE2E
  under the stated hypotheses on the cryptography.  Some properties state what the code does where
  it does not do what it means to: a rejoined nick counted as split again, a duplicated variable
  that shadows the one that was set, an alias limit on depth only, a zero key accepted, a revocation
  that a rekey undoes.

  \<^bold>\<open>Not modelled.\<close>  Terminal and web user interfaces, image previews, emotes, spell checking, themes and
  scripting: presentation and glue over libraries.  The application loop, the handling of IRC events
  (\<open>irc/events.rs\<close>, \<open>state/events.rs\<close>) and batches, and the rest of the application state: large,
  with effects on most parts of the state; they come next, from the state's buffers and activity
  on.  The message log, sessions and the shell: I/O.  Translation brokers and URL shortening:
  network services.  The chat task of DCC and the sockets: I/O.
\<close>

end
